theory Spec2Isabelle
  imports Main "HOL-Library.Sublist" "HOL-Library.Multiset" "HOL-Library.AList"
begin

section \<open>JSON values\<close>

text \<open>
  A value parsed from JSON. Numbers are modelled as integers; \<open>undefined\<close> (a property
  that is absent) is \<open>None\<close> of \<open>json option\<close>. \<open>JObj\<close> holds the properties in the
  order of the document.
\<close>

datatype json =
    JNull
  | JBool bool
  | JNum int
  | JStr string
  | JArr "json list"
  | JObj "(string \<times> json) list"

text \<open>JavaScript truthiness (\<open>if (v)\<close>, \<open>v || w\<close>) of a JSON value.\<close>

fun truthy :: "json \<Rightarrow> bool" where
  "truthy JNull = False"
| "truthy (JBool b) = b"
| "truthy (JNum n) = (n \<noteq> 0)"
| "truthy (JStr s) = (s \<noteq> [])"
| "truthy (JArr xs) = True"
| "truthy (JObj kvs) = True"

text \<open>Decimal digits of a number, as \<open>String(n)\<close> and a template literal write them.\<close>

fun showNat :: "nat \<Rightarrow> string" where
  "showNat n = (if n < 10 then [''0123456789'' ! n] else showNat (n div 10) @ [''0123456789'' ! (n mod 10)])"

declare showNat.simps [simp del]

definition showInt :: "int \<Rightarrow> string" where
  "showInt i = (if i < 0 then CHR ''-'' # showNat (nat (- i)) else showNat (nat i))"

fun joinWith :: "string \<Rightarrow> string list \<Rightarrow> string" where
  "joinWith sep [] = []"
| "joinWith sep [x] = x"
| "joinWith sep (x # y # ys) = x @ sep @ joinWith sep (y # ys)"

text \<open>
  \<open>String(v)\<close>, the message \<open>new Error(v)\<close> carries: a string is itself, an array joins
  its elements with commas (null as the empty string), an object is \<open>[object Object]\<close>.
\<close>

fun toStr :: "json \<Rightarrow> string" where
  "toStr JNull = ''null''"
| "toStr (JBool b) = (if b then ''true'' else ''false'')"
| "toStr (JNum n) = showInt n"
| "toStr (JStr s) = s"
| "toStr (JArr xs) = joinWith '','' (map (\<lambda>x. if x = JNull then [] else toStr x) xs)"
| "toStr (JObj kvs) = ''[object Object]''"

text \<open>
  What a rejected promise or a \<open>throw\<close> carries: \<open>Error m\<close> is \<open>new Error(m)\<close> with
  message \<open>m\<close>; \<open>SyntaxError\<close> is what \<open>response.json()\<close> rejects with on a body that
  is not JSON; \<open>TypeError\<close> is a property read on null or undefined, or a call of a method a
  value does not have; \<open>NetworkError\<close> is \<open>fetch\<close> itself rejecting.
\<close>

datatype js_error =
    Error string
  | SyntaxError
  | TypeError
  | NetworkError

text \<open>
  The property read \<open>v.name\<close>: a \<open>TypeError\<close> on null, the property of an object
  (the last one of that name, as \<open>JSON.parse\<close> keeps it), undefined on any other value.
\<close>

definition getProp :: "json \<Rightarrow> string \<Rightarrow> js_error + json option" where
  "getProp v name =
     (case v of
        JNull \<Rightarrow> Inl TypeError
      | JObj kvs \<Rightarrow> Inr (map_of (rev kvs) name)
      | _ \<Rightarrow> Inr None)"

text \<open>\<open>str.includes(sub)\<close>.\<close>

fun stringIncludes :: "string \<Rightarrow> string \<Rightarrow> bool" where
  "stringIncludes [] sub = (sub = [])"
| "stringIncludes (c # cs) sub = (prefix sub (c # cs) \<or> stringIncludes cs sub)"


section \<open>Strings and the render helpers of main.js\<close>

text \<open>
  A JavaScript string is modelled as a list of code units (\<open>string\<close>); \<open>length\<close> is
  the \<open>.length\<close> of the source and \<open>slice\<close> its \<open>String.prototype.slice\<close> on integer
  arguments (a negative argument counts from the end, every argument is clipped to the string).
\<close>

definition slice :: "string \<Rightarrow> int \<Rightarrow> int \<Rightarrow> string" where
  "slice str start fin =
     (let len = int (length str);
          from = (if start < 0 then max (len + start) 0 else min start len);
          to = (if fin < 0 then max (len + fin) 0 else min fin len)
      in take (nat (to - from)) (drop (nat from) str))"

definition sliceFrom :: "string \<Rightarrow> int \<Rightarrow> string" where
  "sliceFrom str start = slice str start (int (length str))"

text \<open>\<open>str.replace(/c/g, rep)\<close> for a single literal character \<open>c\<close>.\<close>

definition replaceAll :: "char \<Rightarrow> string \<Rightarrow> string \<Rightarrow> string" where
  "replaceAll c rep str = concat (map (\<lambda>x. if x = c then rep else [x]) str)"

text \<open>
  \<open>escapeHTML\<close>: the five replacements of the source, in the source's order
  (ampersand first, then the angle brackets, the double quote 0x22 and the single quote 0x27).
\<close>

definition escapeHTML :: "string \<Rightarrow> string" where
  "escapeHTML str =
     replaceAll (CHR 0x27) ''&#039;''
       (replaceAll (CHR 0x22) ''&quot;''
         (replaceAll (CHR ''>'') ''&gt;''
           (replaceAll (CHR ''<'') ''&lt;''
             (replaceAll (CHR ''&'') ''&amp;'' str))))"

section \<open>applyHighlights: the text-page step\<close>

text \<open>
  A match of the highlight list. \<open>char_start\<close> and \<open>char_end\<close> are \<open>None\<close> when the
  field is not of type number (absent, null, a string); offsets are integers. \<open>boxes\<close> is
  \<open>None\<close> when the field is not an array; a box is the JSON object with the normalized
  coordinates \<open>x\<close>, \<open>y\<close>, \<open>w\<close>, \<open>h\<close>, from which the style of an overlay box is
  written. A range \<open>{s, e}\<close> of the source is the pair \<open>(s, e)\<close>.
\<close>

record highlight =
  page_index :: "int option"
  char_start :: "int option"
  char_end :: "int option"
  boxes :: "json list option"

type_synonym range = "int \<times> int"

text \<open>
  \<open>Array.prototype.sort\<close> with a comparator: the sort is stable, so for a consistent
  comparator its result is the one an insertion sort that keeps equal elements in their
  order computes.
\<close>

fun insertBy :: "('a \<Rightarrow> 'a \<Rightarrow> int) \<Rightarrow> 'a \<Rightarrow> 'a list \<Rightarrow> 'a list" where
  "insertBy cmp x [] = [x]"
| "insertBy cmp x (y # ys) = (if cmp x y \<le> 0 then x # y # ys else y # insertBy cmp x ys)"

definition arraySort :: "('a \<Rightarrow> 'a \<Rightarrow> int) \<Rightarrow> 'a list \<Rightarrow> 'a list" where
  "arraySort cmp xs = foldr (insertBy cmp) xs []"

text \<open>The comparator \<open>(a,b) => a.s - b.s || a.e - b.e\<close>.\<close>

definition cmpRange :: "range \<Rightarrow> range \<Rightarrow> int" where
  "cmpRange a b = (if fst a - fst b \<noteq> 0 then fst a - fst b else snd a - snd b)"

text \<open>
  The chain \<open>filter(typeof number).map(clamp).filter(r.e > r.s).sort(...)\<close>: the start
  is raised to 0, the end lowered to the text length, and a range that is then empty or
  inverted is dropped.
\<close>

definition clampRange :: "string \<Rightarrow> highlight \<Rightarrow> range option" where
  "clampRange pageText m =
     (case (char_start m, char_end m) of
        (Some cs, Some ce) \<Rightarrow> Some (max 0 cs, min (int (length pageText)) ce)
      | _ \<Rightarrow> None)"

definition collectRanges :: "string \<Rightarrow> highlight list \<Rightarrow> range list" where
  "collectRanges pageText list =
     arraySort cmpRange (filter (\<lambda>r. snd r > fst r) (List.map_filter (clampRange pageText) list))"

text \<open>
  One turn of the merge loop: push \<open>r\<close> when \<open>merged\<close> is empty or \<open>r\<close> starts after
  the end of the last merged range, otherwise extend the last merged range.
\<close>

definition mergeStep :: "range list \<Rightarrow> range \<Rightarrow> range list" where
  "mergeStep merged r =
     (if merged = [] \<or> fst r > snd (last merged) then merged @ [(fst r, snd r)]
      else butlast merged @ [(fst (last merged), max (snd (last merged)) (snd r))])"

definition mergeRanges :: "range list \<Rightarrow> range list" where
  "mergeRanges ranges = foldl mergeStep [] ranges"

definition markOpen :: string where
  \<open>markOpen = ''<mark class="bg-yellow-200 risk-hl" title="Risk Highlight">''\<close>

definition markClose :: string where
  "markClose = ''</mark>''"

text \<open>One turn of the markup loop on the pair \<open>(html, pos)\<close>, and the loop with its tail.\<close>

definition markStep :: "string \<Rightarrow> string \<times> int \<Rightarrow> range \<Rightarrow> string \<times> int" where
  "markStep pageText hp r =
     (let html = fst hp; pos = snd hp;
          html1 = (if pos < fst r then html @ escapeHTML (slice pageText pos (fst r)) else html);
          mid = escapeHTML (slice pageText (fst r) (snd r))
      in (html1 @ markOpen @ mid @ markClose, snd r))"

definition rebuildMarkup :: "string \<Rightarrow> range list \<Rightarrow> string" where
  "rebuildMarkup pageText merged =
     (let hp = foldl (markStep pageText) ([], 0) merged
      in if snd hp < int (length pageText) then fst hp @ escapeHTML (sliceFrom pageText (snd hp))
         else fst hp)"

text \<open>
  The text-page step of \<open>applyHighlights\<close> for the matches of one page: \<open>None\<close> when no
  range is left (the source returns and leaves the paragraph as it is), otherwise the merged
  ranges and the markup assigned to the paragraph.
\<close>

definition highlightRanges :: "string \<Rightarrow> highlight list \<Rightarrow> range list" where
  "highlightRanges pageText list = mergeRanges (collectRanges pageText list)"

definition highlightText :: "string \<Rightarrow> highlight list \<Rightarrow> string option" where
  "highlightText pageText list =
     (let ranges = collectRanges pageText list
      in if ranges = [] then None else Some (rebuildMarkup pageText (mergeRanges ranges)))"

subsection \<open>Properties of range lists\<close>

text \<open>
  What the claims about the merged ranges are stated with: a range that is non-empty and
  lies within \<open>[0, len]\<close>; a list of ranges in which each range ends strictly before the
  next one starts (so no two overlap or touch); and the set of character positions a list
  of ranges covers.
\<close>

definition validRange :: "int \<Rightarrow> range \<Rightarrow> bool" where
  "validRange len r = (0 \<le> fst r \<and> fst r < snd r \<and> snd r \<le> len)"

definition separated :: "range list \<Rightarrow> bool" where
  "separated rs = sorted_wrt (\<lambda>a b. snd a < fst b) rs"

definition covered :: "range list \<Rightarrow> int set" where
  "covered rs = (\<Union>r\<in>set rs. {fst r ..< snd r})"

text \<open>
  The markup the spec asks for, character by character: every character of the page text
  appears once, as \<open>escapeHTML\<close> of that character, in the order of the text; the opening
  tag stands before the character at which a merged range starts and the closing tag after
  the last character of a merged range. This definition follows the spec's words; the loop
  \<open>rebuildMarkup\<close> above follows the source.
\<close>

definition markedChar :: "string \<Rightarrow> range list \<Rightarrow> nat \<Rightarrow> string" where
  "markedChar t merged i =
     (if int i \<in> fst ` set merged then markOpen else [])
     @ escapeHTML [t ! i]
     @ (if int (Suc i) \<in> snd ` set merged then markClose else [])"

definition specMarkup :: "string \<Rightarrow> range list \<Rightarrow> string" where
  "specMarkup t merged = concat (map (markedChar t merged) [0..<length t])"

text \<open>The tail of the markup loop (\<open>if (pos < text.length) html += ...\<close>) on a loop state.\<close>

definition finishMarkup :: "string \<Rightarrow> string \<times> int \<Rightarrow> string" where
  "finishMarkup t hp =
     (if snd hp < int (length t) then fst hp @ escapeHTML (sliceFrom t (snd hp)) else fst hp)"

text \<open>
  Modelled from the spec: the spec states the round trip "escape/unescape"; the source has
  no unescape function (it assigns the markup to \<open>innerHTML\<close> and the browser reads it).
  \<open>unescapeHTML\<close> decodes the five character references \<open>escapeHTML\<close> writes,
  \<open>stripTags\<close> removes the tags, and \<open>textContent\<close> is the text read back from a markup.
\<close>

fun unescapeHTML :: "string \<Rightarrow> string" where
  "unescapeHTML [] = []"
| "unescapeHTML (c # cs) =
     (if c = CHR ''&'' then
        (if take 4 cs = ''amp;'' then CHR ''&'' # unescapeHTML (drop 4 cs)
         else if take 3 cs = ''lt;'' then CHR ''<'' # unescapeHTML (drop 3 cs)
         else if take 3 cs = ''gt;'' then CHR ''>'' # unescapeHTML (drop 3 cs)
         else if take 5 cs = ''quot;'' then CHR 0x22 # unescapeHTML (drop 5 cs)
         else if take 5 cs = ''#039;'' then CHR 0x27 # unescapeHTML (drop 5 cs)
         else c # unescapeHTML cs)
      else c # unescapeHTML cs)"

fun stripTags :: "bool \<Rightarrow> string \<Rightarrow> string" where
  "stripTags inTag [] = []"
| "stripTags inTag (c # cs) =
     (if inTag then (if c = CHR ''>'' then stripTags False cs else stripTags True cs)
      else (if c = CHR ''<'' then stripTags True cs else c # stripTags False cs))"

definition textContent :: "string \<Rightarrow> string" where
  "textContent html = unescapeHTML (stripTags False html)"

text \<open>A match with numeric offsets and no page index, for the examples.\<close>

definition numericSpan :: "int \<Rightarrow> int \<Rightarrow> highlight" where
  "numericSpan a b = \<lparr>page_index = None, char_start = Some a, char_end = Some b, boxes = None\<rparr>"

section \<open>The API helper\<close>

text \<open>
  The \<open>options\<close> of a call: the method, the headers (an object, here an association
  list) and the body, which is absent, a \<open>FormData\<close> or another value. The request
  \<open>fetch\<close> receives holds the body as it then is: the form, the text
  \<open>JSON.stringify\<close> made of a value, or a falsy value left as it was.
\<close>

datatype body_value =
    FormData "(string \<times> string) list"
  | Plain json

record call_options =
  opt_method :: "string option"
  opt_headers :: "(string \<times> string) list"
  opt_body :: "body_value option"

datatype wire_body =
    WireForm "(string \<times> string) list"
  | WireJSON json
  | WireValue json

record request =
  req_url :: string
  req_method :: "string option"
  req_headers :: "(string \<times> string) list"
  req_body :: "wire_body option"

text \<open>
  What the code reads of a response: \<open>response.ok\<close>, the \<open>content-type\<close> header
  (\<open>None\<close> when \<open>headers.get\<close> gives null) and the body parsed as JSON (\<open>None\<close>
  when it does not parse, so that \<open>response.json()\<close> rejects).
\<close>

record response =
  resp_ok :: bool
  resp_contentType :: "string option"
  resp_json :: "json option"

text \<open>A token is present when \<open>appState.token\<close> is truthy: a non-empty string.\<close>

definition tokenPresent :: "string option \<Rightarrow> bool" where
  "tokenPresent tok = (case tok of None \<Rightarrow> False | Some s \<Rightarrow> s \<noteq> [])"

text \<open>
  Lines 193 to 203 of \<open>apiCall\<close>: the headers are a copy of \<open>options.headers\<close>;
  \<open>Authorization\<close> is set when the token is truthy; unless the body is a
  \<open>FormData\<close>, \<open>Content-Type\<close> is set to JSON and a truthy body is stringified.
\<close>

definition buildRequest :: "string \<Rightarrow> string option \<Rightarrow> string \<Rightarrow> call_options \<Rightarrow> request" where
  "buildRequest baseUrl tok endpoint options =
     (let headers0 = opt_headers options;
          headers1 = (case tok of
                        Some s \<Rightarrow> if s \<noteq> [] then AList.update ''Authorization'' (''Bearer '' @ s) headers0
                                  else headers0
                      | None \<Rightarrow> headers0);
          isForm = (case opt_body options of Some (FormData fd) \<Rightarrow> True | _ \<Rightarrow> False);
          headers2 = (if \<not> isForm then AList.update ''Content-Type'' ''application/json'' headers1
                      else headers1);
          body = (case opt_body options of
                    None \<Rightarrow> None
                  | Some (FormData fd) \<Rightarrow> Some (WireForm fd)
                  | Some (Plain v) \<Rightarrow> if truthy v then Some (WireJSON v) else Some (WireValue v))
      in \<lparr>req_url = baseUrl @ endpoint, req_method = opt_method options,
          req_headers = headers2, req_body = body\<rparr>)"

text \<open>
  Lines 205 to 213: a response that is not ok throws \<open>new Error(error.detail || ...)\<close>
  after parsing the body; an ok response gives the parsed body when the content type
  includes \<open>application/json\<close>, and the empty object otherwise.
\<close>

definition handleResponse :: "response \<Rightarrow> js_error + json" where
  "handleResponse r =
     (if \<not> resp_ok r then
        (case resp_json r of
           None \<Rightarrow> Inl SyntaxError
         | Some err \<Rightarrow>
             (case getProp err ''detail'' of
                Inl e \<Rightarrow> Inl e
              | Inr None \<Rightarrow> Inl (Error ''An unknown error occurred'')
              | Inr (Some d) \<Rightarrow>
                  Inl (Error (if truthy d then toStr d else ''An unknown error occurred''))))
      else
        (case resp_contentType r of
           None \<Rightarrow> Inr (JObj [])
         | Some ct \<Rightarrow>
             if ct \<noteq> [] \<and> stringIncludes ct ''application/json''
             then (case resp_json r of None \<Rightarrow> Inl SyntaxError | Some v \<Rightarrow> Inr v)
             else Inr (JObj [])))"

text \<open>
  \<open>apiCall\<close>. The server (and the network) is the function \<open>fetch\<close> from the request
  to a response or a rejection.
\<close>

definition apiCall ::
  "string \<Rightarrow> (request \<Rightarrow> js_error + response) \<Rightarrow> string option \<Rightarrow> string \<Rightarrow> call_options
     \<Rightarrow> js_error + json" where
  "apiCall baseUrl fetch tok endpoint options =
     (case fetch (buildRequest baseUrl tok endpoint options) of
        Inl e \<Rightarrow> Inl e
      | Inr r \<Rightarrow> handleResponse r)"


section \<open>The app state, the page and the environment\<close>

text \<open>
  The data model of section 3 of the spec, as the code reads it. A field that may be absent
  or null is an \<open>option\<close>.
\<close>

record dashboard_item =
  item_id :: "int option"
  filename :: "string option"
  created_at :: "string option"
  risk_level :: "string option"

text \<open>
  The parts of the browser and of the server the code calls: the base URL, \<open>fetch\<close>,
  \<open>String.prototype.localeCompare\<close> (the collation of the user's locale), \<open>new Date(s)\<close>
  (\<open>None\<close> for an invalid date, otherwise the time value), \<open>toLocaleDateString\<close> on a
  valid date, which may throw, \<open>Date.now()\<close>, and the message the engine gives an error
  it throws itself.
\<close>

record env =
  BASE_URL :: string
  fetchFn :: "request \<Rightarrow> js_error + response"
  localeCompare :: "string \<Rightarrow> string \<Rightarrow> int"
  parseDate :: "string \<Rightarrow> int option"
  toLocaleDateString :: "int \<Rightarrow> js_error + string"
  dateNow :: nat
  engineMessage :: "js_error \<Rightarrow> string"

text \<open>\<open>x || ''\<close> for a string that may be absent.\<close>

definition orEmpty :: "string option \<Rightarrow> string" where
  "orEmpty x = (case x of None \<Rightarrow> [] | Some s \<Rightarrow> s)"

text \<open>
  \<open>toLowerCase\<close> on code units below 256: the ASCII capitals and the Latin-1 capitals
  (0xC0 to 0xDE without the multiplication sign 0xD7) move up by 32.
\<close>

definition toLowerChar :: "char \<Rightarrow> char" where
  "toLowerChar c =
     (let n = (of_char c :: nat)
      in if (65 \<le> n \<and> n \<le> 90) \<or> (192 \<le> n \<and> n \<le> 222 \<and> n \<noteq> 215) then char_of (n + 32) else c)"

definition toLowerCase :: "string \<Rightarrow> string" where
  "toLowerCase str = map toLowerChar str"

subsection \<open>renderDashboardList\<close>

text \<open>
  The comparator of \<open>list.sort\<close> in \<open>renderDashboardList\<close>: the branches in the
  source's order, descending by date for any other value of the selector.
\<close>

definition dashboardCompare ::
  "(string \<Rightarrow> string \<Rightarrow> int) \<Rightarrow> string \<Rightarrow> dashboard_item \<Rightarrow> dashboard_item \<Rightarrow> int" where
  "dashboardCompare lc order a b =
     (if order = ''date_asc'' then lc (orEmpty (created_at a)) (orEmpty (created_at b))
      else if order = ''alpha_asc'' then lc (orEmpty (filename a)) (orEmpty (filename b))
      else if order = ''alpha_desc'' then lc (orEmpty (filename b)) (orEmpty (filename a))
      else lc (orEmpty (created_at b)) (orEmpty (created_at a)))"

text \<open>The filter by the lower-cased query (\<open>if (query) list = list.filter(...)\<close>).\<close>

definition dashboardFilter :: "string \<Rightarrow> dashboard_item list \<Rightarrow> dashboard_item list" where
  "dashboardFilter query items =
     (if query \<noteq> [] then filter (\<lambda>i. stringIncludes (toLowerCase (orEmpty (filename i))) query) items
      else items)"

text \<open>
  The list \<open>renderDashboardList\<close> renders, from the values of the search box and of the
  sort selector (\<open>None\<close> when the element is absent or its value is empty).
\<close>

definition dashboardList ::
  "(string \<Rightarrow> string \<Rightarrow> int) \<Rightarrow> string option \<Rightarrow> string option \<Rightarrow> dashboard_item list
     \<Rightarrow> dashboard_item list" where
  "dashboardList lc search sortValue items =
     (let query = toLowerCase (orEmpty search);
          order = (case sortValue of None \<Rightarrow> ''date_desc'' | Some v \<Rightarrow> if v = [] then ''date_desc'' else v)
      in arraySort (dashboardCompare lc order) (dashboardFilter query items))"

text \<open>
  A comparator is consistent, as \<open>Array.prototype.sort\<close> asks of it, when \<open>a\<close> sorts
  before \<open>b\<close> exactly when \<open>b\<close> sorts after \<open>a\<close>, and "not after" is transitive.
\<close>

definition consistentComparator :: "('a \<Rightarrow> 'a \<Rightarrow> int) \<Rightarrow> bool" where
  "consistentComparator cmp =
     ((\<forall>a b. (cmp a b < 0) = (cmp b a > 0))
      \<and> (\<forall>a b c. cmp a b \<le> 0 \<longrightarrow> cmp b c \<le> 0 \<longrightarrow> cmp a c \<le> 0))"

text \<open>A comparison by code units, for the examples.\<close>

fun codeUnitCompare :: "string \<Rightarrow> string \<Rightarrow> int" where
  "codeUnitCompare [] [] = 0"
| "codeUnitCompare [] (y # ys) = - 1"
| "codeUnitCompare (x # xs) [] = 1"
| "codeUnitCompare (x # xs) (y # ys) =
     (if (of_char x :: nat) < of_char y then - 1
      else if (of_char y :: nat) < of_char x then 1
      else codeUnitCompare xs ys)"

text \<open>
  The four orders in the words of the spec: the key an order sorts by (the filename or the
  creation date, the empty string when absent) and its direction.
\<close>

definition sortKey :: "string \<Rightarrow> dashboard_item \<Rightarrow> string" where
  "sortKey order i =
     (if order = ''alpha_asc'' \<or> order = ''alpha_desc'' then orEmpty (filename i)
      else orEmpty (created_at i))"

definition ascending :: "string \<Rightarrow> bool" where
  "ascending order = (order = ''date_asc'' \<or> order = ''alpha_asc'')"

text \<open>Three dashboard items, two of them with the same filename, for the examples.\<close>

definition item1 :: dashboard_item where
  "item1 = \<lparr>item_id = Some 1, filename = Some ''b.pdf'', created_at = Some ''2024-01-02'', risk_level = None\<rparr>"

definition item2 :: dashboard_item where
  "item2 = \<lparr>item_id = Some 2, filename = Some ''a.pdf'', created_at = Some ''2024-01-03'', risk_level = None\<rparr>"

definition item3 :: dashboard_item where
  "item3 = \<lparr>item_id = Some 3, filename = Some ''b.pdf'', created_at = Some ''2024-01-01'', risk_level = None\<rparr>"

subsection \<open>formatDate\<close>

text \<open>
  \<open>formatDate(iso, kind)\<close> of the timeline: the fallback of the kind when the date is
  absent, empty or invalid, or when formatting throws; otherwise the localized date.
  The result is a sum so that "does not throw" is a statement about the function.
\<close>

definition fallbackLabel :: "string option \<Rightarrow> string" where
  "fallbackLabel kind =
     (if kind = Some ''payment_due'' then ''Due date not specified''
      else if kind = Some ''action_required'' then ''Deadline not specified''
      else ''Date not specified'')"

definition formatDate :: "env \<Rightarrow> string option \<Rightarrow> string option \<Rightarrow> js_error + string" where
  "formatDate ev isoDate kind =
     (let fallback = fallbackLabel kind
      in case isoDate of
           None \<Rightarrow> Inr fallback
         | Some s \<Rightarrow>
             if s = [] then Inr fallback
             else (case parseDate ev s of
                     None \<Rightarrow> Inr fallback
                   | Some d \<Rightarrow>
                       (case toLocaleDateString ev d of
                          Inr str \<Rightarrow> Inr str
                        | Inl e \<Rightarrow> Inr fallback)))"

text \<open>
  An environment for the examples: no network, the comparison by code units, one date
  that parses and a fixed rendering of it.
\<close>

definition exampleEnv :: env where
  "exampleEnv =
     \<lparr>BASE_URL = ''http://127.0.0.1:8000'',
      fetchFn = (\<lambda>q. Inl NetworkError),
      localeCompare = codeUnitCompare,
      parseDate = (\<lambda>s. if s = ''2025-03-01'' then Some 1740787200000 else None),
      toLocaleDateString = (\<lambda>d. Inr ''Mar 01, 2025''),
      dateNow = 1234,
      engineMessage = (\<lambda>e. ''Failed to fetch'')\<rparr>"


section \<open>renderInlineMarkdown and renderOracleAnswer\<close>

text \<open>
  \<open>str.replace(/\*\*(.+?)\*\*/g, '<strong>$1</strong>')\<close>. A match at the head of a
  string is two stars, a body of one or more characters none of which ends a line, taken
  as short as possible, and two stars again. \<open>closeAt body rest\<close> looks for the closing
  stars after a body that is already not empty; \<open>matchBold\<close> gives the body and the string
  after the match. The replacement scans from the left and goes on after each match.
  A dot of the pattern matches any code unit but a line terminator; of those, line feed and
  carriage return are code units below 256.
\<close>

definition isLineTerminator :: "char \<Rightarrow> bool" where
  "isLineTerminator c = (c = CHR 0x0A \<or> c = CHR 0x0D)"

fun closeAt :: "string \<Rightarrow> string \<Rightarrow> (string \<times> string) option" where
  "closeAt body [] = None"
| "closeAt body (c # cs) =
     (if take 2 (c # cs) = ''**'' then Some (body, drop 2 (c # cs))
      else if isLineTerminator c then None
      else closeAt (body @ [c]) cs)"

definition matchBold :: "string \<Rightarrow> (string \<times> string) option" where
  "matchBold str =
     (case str of
        a # b # c # cs \<Rightarrow>
          if a = CHR ''*'' \<and> b = CHR ''*'' \<and> \<not> isLineTerminator c then closeAt [c] cs else None
      | _ \<Rightarrow> None)"

function renderInlineMarkdown :: "string \<Rightarrow> string" where
  "renderInlineMarkdown [] = []"
| "renderInlineMarkdown (c # cs) =
     (case matchBold (c # cs) of
        Some (body, rest) \<Rightarrow> ''<strong>'' @ body @ ''</strong>'' @ renderInlineMarkdown rest
      | None \<Rightarrow> c # renderInlineMarkdown cs)"
  by pat_completeness auto
termination
proof (relation "measure length")
  show "wf (measure length)" by simp
next
  fix c :: char and cs :: string and x2 :: "string \<times> string" and body rest :: string
  assume m: "matchBold (c # cs) = Some x2" and x: "(body, rest) = x2"
  have shorter: "closeAt b xs = Some (b', r) \<Longrightarrow> length r < length xs" for b xs b' r
    by (induction b xs rule: closeAt.induct) (auto split: if_splits)
  have "length rest < length (c # cs)"
    using m x shorter
    by (auto simp: matchBold_def split: list.splits if_splits dest!: shorter)
  then show "(rest, c # cs) \<in> measure length" by simp
next
  fix c :: char and cs :: string
  show "(cs, c # cs) \<in> measure length" by simp
qed

text \<open>
  The test of a pattern with the flag \<open>i\<close> and only ASCII letters: a character of the
  text matches a letter of the pattern when their ASCII lower cases agree (without the
  flag \<open>u\<close> no character at or above 128 is folded onto an ASCII letter).
\<close>

definition asciiLower :: "char \<Rightarrow> char" where
  "asciiLower c = (let n = (of_char c :: nat) in if 65 \<le> n \<and> n \<le> 90 then char_of (n + 32) else c)"

text \<open>\<open>/pat/i.test(str)\<close>, \<open>/^pat/i.test(str)\<close> and \<open>/^pat$/i.test(str)\<close> for a lower-case literal.\<close>

definition testI :: "string \<Rightarrow> string \<Rightarrow> bool" where
  "testI pat str = stringIncludes (map asciiLower str) pat"

definition testStartI :: "string \<Rightarrow> string \<Rightarrow> bool" where
  "testStartI pat str = prefix pat (map asciiLower str)"

definition testWholeI :: "string \<Rightarrow> string \<Rightarrow> bool" where
  "testWholeI pat str = (map asciiLower str = pat)"

text \<open>
  White space of \<open>trim\<close> and of \<open>\s\<close> among the code units below 256: tab, line feed,
  vertical tab, form feed, carriage return, space and the no-break space.
\<close>

definition isSpace :: "char \<Rightarrow> bool" where
  "isSpace c = (c \<in> {CHR 0x09, CHR 0x0A, CHR 0x0B, CHR 0x0C, CHR 0x0D, CHR 0x20, CHR 0xA0})"

definition trim :: "string \<Rightarrow> string" where
  "trim str = rev (dropWhile isSpace (rev (dropWhile isSpace str)))"

text \<open>\<open>str.split('\n')\<close>: the pieces between the line feeds, one more than the line feeds.\<close>

fun splitLines :: "string \<Rightarrow> string list" where
  "splitLines [] = [[]]"
| "splitLines (c # cs) =
     (if c = CHR 0x0A then [] # splitLines cs
      else (case splitLines cs of l # ls \<Rightarrow> (c # l) # ls | [] \<Rightarrow> [[c]]))"

text \<open>\<open>asHeading(text, level)\<close>, for the levels 4 and 5 the source calls it with.\<close>

definition asHeading :: "string \<Rightarrow> nat \<Rightarrow> string" where
  \<open>asHeading str level =
     ''<h'' @ showNat level @ '' class="font-semibold ''
     @ (if level \<le> 4 then ''mb-2'' else ''mt-2 mb-1'') @ ''">'' @ escapeHTML str
     @ ''</h'' @ showNat level @ ''>''\<close>

text \<open>\<open>flushList\<close> on the pair of the markup so far and the flag \<open>inList\<close>.\<close>

definition flushList :: "string \<times> bool \<Rightarrow> string \<times> bool" where
  "flushList st = (if snd st then (fst st @ ''</ul>'', False) else st)"

text \<open>
  The bullet test \<open>/^(\*|-|...)\s+/\<close>: a star or a hyphen and then white space. The third
  alternative of the source is a sequence that holds the code unit U+20AC, which no string
  of code units below 256 holds. \<open>stripBullet\<close> is the \<open>replace\<close> of that match by the
  empty string.
\<close>

definition isBullet :: "string \<Rightarrow> bool" where
  "isBullet line =
     (case line of
        a # b # cs \<Rightarrow> (a = CHR ''*'' \<or> a = CHR ''-'') \<and> isSpace b
      | _ \<Rightarrow> False)"

definition stripBullet :: "string \<Rightarrow> string" where
  "stripBullet line = dropWhile isSpace (tl line)"

text \<open>One turn of \<open>lines.forEach\<close> in the multi-part branch, the tests in the source's order.\<close>

definition oracleLine :: "string \<times> bool \<Rightarrow> string \<Rightarrow> string \<times> bool" where
  \<open>oracleLine st line =
     (if testStartI ''disclaimer:'' line then
        (let st1 = flushList st
         in (fst st1 @ asHeading ''Disclaimer'' 4
               @ ''<p class="mb-2">'' @ escapeHTML (trim (drop 11 line)) @ ''</p>'', snd st1))
      else if testStartI ''key clauses that may be considered favorable to '' line then
        (let st1 = flushList st in (fst st1 @ asHeading line 5, snd st1))
      else if testWholeI ''balanced factual analysis'' line then
        (let st1 = flushList st in (fst st1 @ asHeading ''Balanced factual analysis'' 4, snd st1))
      else if testWholeI ''guidance'' line then
        (let st1 = flushList st in (fst st1 @ asHeading ''Guidance'' 4, snd st1))
      else if testWholeI ''final note'' line then
        (let st1 = flushList st in (fst st1 @ asHeading ''Final note'' 4, snd st1))
      else if isBullet line then
        (let h1 = (if \<not> snd st then fst st @ ''<ul class="list-disc list-inside space-y-1">''
                   else fst st)
         in (h1 @ ''<li>'' @ renderInlineMarkdown (escapeHTML (stripBullet line)) @ ''</li>'', True))
      else (fst st @ ''<p class="mb-2">'' @ renderInlineMarkdown (escapeHTML line) @ ''</p>'', snd st))\<close>

text \<open>A line feed and the indentation of a template literal of the source.\<close>

definition indent :: "nat \<Rightarrow> string" where
  "indent n = CHR 0x0A # replicate n (CHR '' '')"

text \<open>
  \<open>renderOracleAnswer(answer, citation)\<close> on two strings: the simple branch (escape,
  inline markdown, line feeds to \<open><br>\<close>, the citation when it is not empty) and the
  multi-part branch over the trimmed non-empty lines.
\<close>

definition hasMultipart :: "string \<Rightarrow> bool" where
  "hasMultipart answer =
     (testI ''disclaimer:'' answer \<or> testI ''key clauses'' answer
      \<or> testI ''guidance'' answer \<or> testI ''final note'' answer)"

definition renderOracleAnswer :: "string \<Rightarrow> string \<Rightarrow> string" where
  \<open>renderOracleAnswer answer citation =
     (if \<not> hasMultipart answer then
           (let safe = escapeHTML answer;
                formatted = replaceAll (CHR 0x0A) ''<br>'' (renderInlineMarkdown safe)
            in indent 16 @ ''<div class="text-left">''
               @ indent 20 @ ''<div class="inline-block bg-gray-200 text-gray-800 rounded-lg px-3 py-2">''
               @ formatted @ ''</div>''
               @ indent 20
               @ (if citation \<noteq> [] then
                    ''<p class="text-xs text-gray-500 mt-1 border-l-2 pl-2 italic"><strong>Source:</strong> "''
                    @ escapeHTML citation @ ''"</p>''
                  else [])
               @ indent 16 @ ''</div>'')
         else
           (let lines = filter (\<lambda>l. l \<noteq> []) (map trim (splitLines answer));
                st = foldl oracleLine
                       (''<div class="text-left"><div class="bg-gray-200 text-gray-800 rounded-lg px-4 py-3 inline-block text-sm">'',
                        False) lines
            in fst (flushList st) @ ''</div></div>''))\<close>

text \<open>
  A fragment of markup is safe when putting it in front of any text adds no occurrence of
  \<open><script>\<close>: none inside the fragment and none across its end.
\<close>

definition safeFrag :: "string \<Rightarrow> bool" where
  "safeFrag x = (\<forall>t. sublist ''<script>'' (x @ t) = sublist ''<script>'' t)"


section \<open>The world: app state, page and local storage\<close>

text \<open>
  The Analysis of the data model. \<open>an_id\<close> is \<open>data.id\<close>, \<open>an_filename\<close> is
  \<open>data.filename\<close>; a page of \<open>extracted_text\<close> may be null or empty.
\<close>

record key_info_item =
  info_key :: "string option"
  info_value :: "string option"
  info_negotiable :: bool

record action_item =
  action_text :: "string option"
  action_negotiable :: bool

record analysis =
  an_id :: "int option"
  an_filename :: "string option"
  assessment :: "string option"
  key_info :: "key_info_item list option"
  identified_actions :: "action_item list option"
  extracted_text :: "string option list option"
  page_images :: "string list option"
  risk_highlights :: "highlight list option"

text \<open>
  \<open>appState\<close>. Of the selected file only the name is read. The conversation history holds
  the turns as the JSON objects that are sent with a query.
\<close>

record app_state =
  token :: "string option"
  selectedFile :: "string option"
  currentAnalysis :: analysis
  conversationHistory :: "json list"
  dashboardItems :: "dashboard_item list"

text \<open>
  \<open>localStorage\<close>: the stored items, and whether the storage accepts a write (\<open>setItem\<close>
  throws when it does not; the source wraps these writes in \<open>try\<close> with an empty
  \<open>catch\<close>).
\<close>

record storage =
  stored :: "string \<rightharpoonup> string"
  writable :: bool

definition trySetItem :: "string \<Rightarrow> string \<Rightarrow> storage \<Rightarrow> storage" where
  "trySetItem k v st = (if writable st then st\<lparr>stored := (stored st)(k \<mapsto> v)\<rparr> else st)"

text \<open>
  The page. The static elements of the document that the script reads without a guard are
  taken to exist; \<open>present\<close> holds the ids of the elements the script tests for before it
  uses them. \<open>hiddenIds\<close> holds the ids of the elements that carry the class \<open>hidden\<close>,
  \<open>activeTabs\<close> the ids of the tab buttons that carry the classes of the active tab.
  A list the script fills from a template is held as the values it puts into the template.
\<close>

datatype dashboard_view =
    NoAnalyses
  | Rows "dashboard_item list"

record key_row =
  kr_index :: nat
  kr_highlightText :: string
  kr_key :: string
  kr_value :: string
  kr_rewrite :: bool

record action_row =
  ar_index :: nat
  ar_highlightText :: string
  ar_text :: string
  ar_clause :: "string option"
  ar_rewrite :: bool

datatype page_el =
    ImagePage string "json list"
  | TextPage string "string option"

datatype bubble =
    UserBubble string
  | ThinkingBubble
  | AnswerBubble string
  | ErrorBubble string

type_synonym chat_entry = "string option \<times> bubble"

record page =
  present :: "string set"
  hiddenIds :: "string set"
  activeTabs :: "string set"
  notifications :: "(string \<times> string) list"
  searchValue :: string
  sortValue :: string
  analysesList :: dashboard_view
  errorMessage :: string
  assessmentText :: string
  keyInfoList :: "key_row list"
  actionsList :: "action_row list"
  docViewerFilename :: string
  exactToggle :: "bool option"
  exactLoaded :: bool
  viewerPages :: "page_el list"
  scrollTarget :: "nat option"
  conversationLog :: "chat_entry list"
  popupLog :: "chat_entry list option"

record world =
  app :: app_state
  dom :: page
  localStorage :: storage

subsection \<open>showState\<close>

text \<open>The object \<open>containers\<close>: the state names and the ids of their elements.\<close>

definition containers :: "(string \<times> string) list" where
  "containers =
     [(''login'', ''login-container''), (''register'', ''register-container''),
      (''dashboard'', ''dashboard-container''), (''upload'', ''upload-container''),
      (''loading'', ''loading-container''), (''error'', ''error-container''),
      (''results'', ''results-container''), (''landing'', ''landing-container'')]"

text \<open>The first line of \<open>showState\<close>: landing, login and register are shown as the dashboard.\<close>

definition shownState :: "string \<Rightarrow> string" where
  "shownState state =
     (if state = ''landing'' \<or> state = ''login'' \<or> state = ''register'' then ''dashboard'' else state)"

text \<open>
  The class changes of \<open>showState\<close> on the set of hidden ids, statement by statement:
  hide every container, show the one of the state, toggle the floating button, hide the
  landing container unless the state is \<open>landing\<close>, set the two navigation links.
  \<open>pr\<close> is the set of the optional elements the page has.
\<close>

definition hiddenAfter :: "string \<Rightarrow> string set \<Rightarrow> string set \<Rightarrow> string set" where
  "hiddenAfter state pr h0 =
     (let h1 = h0 \<union> set (map snd containers);
          h2 = (case map_of containers state of Some el \<Rightarrow> h1 - {el} | None \<Rightarrow> h1);
          h3 = (if ''co-fab'' \<in> pr
                then (if state = ''results'' then h2 - {''co-fab''} else insert ''co-fab'' h2)
                else h2);
          h4 = (if state = ''landing'' then h3 - {''landing-container''}
                else insert ''landing-container'' h3)
      in if ''nav-to-upload'' \<in> pr \<and> ''nav-to-dashboard'' \<in> pr
         then (if state = ''upload''
               then insert ''nav-to-upload'' (h4 - {''nav-to-upload'', ''nav-to-dashboard''})
               else if state = ''dashboard''
               then insert ''nav-to-dashboard'' (h4 - {''nav-to-upload'', ''nav-to-dashboard''})
               else h4 - {''nav-to-upload'', ''nav-to-dashboard''})
         else h4)"

text \<open>
  \<open>showState(state)\<close>: the state that is shown, the class changes, and the state
  persisted under \<open>chimeraPage\<close>.
\<close>

definition showState :: "string \<Rightarrow> world \<Rightarrow> world" where
  "showState state0 w =
     (let state = shownState state0
      in w\<lparr>dom := (dom w)\<lparr>hiddenIds := hiddenAfter state (present (dom w)) (hiddenIds (dom w))\<rparr>,
           localStorage := trySetItem ''chimeraPage'' state (localStorage w)\<rparr>)"


subsection \<open>Notifications and the error view\<close>

definition showNotification :: "string \<Rightarrow> string \<Rightarrow> world \<Rightarrow> world" where
  "showNotification message kind w =
     (if ''notification-container'' \<in> present (dom w)
      then w\<lparr>dom := (dom w)\<lparr>notifications := notifications (dom w) @ [(message, kind)]\<rparr>\<rparr>
      else w)"

text \<open>\<open>error.message\<close>: the message of \<open>new Error(m)\<close>, or what the engine says.\<close>

definition messageOf :: "env \<Rightarrow> js_error \<Rightarrow> string" where
  "messageOf ev e = (case e of Error m \<Rightarrow> m | _ \<Rightarrow> engineMessage ev e)"

definition showError :: "string \<Rightarrow> world \<Rightarrow> world" where
  "showError message w = showState ''error'' (w\<lparr>dom := (dom w)\<lparr>errorMessage := message\<rparr>\<rparr>)"

subsection \<open>The dashboard\<close>

definition renderDashboardList :: "env \<Rightarrow> world \<Rightarrow> world" where
  "renderDashboardList ev w =
     (let search = (if ''dashboard-search'' \<in> present (dom w) then Some (searchValue (dom w)) else None);
          sortSel = (if ''dashboard-sort'' \<in> present (dom w) then Some (sortValue (dom w)) else None);
          list = dashboardList (localeCompare ev) search sortSel (dashboardItems (app w))
      in w\<lparr>dom := (dom w)\<lparr>analysesList := (if list = [] then NoAnalyses else Rows list)\<rparr>\<rparr>)"

text \<open>
  \<open>parseInt(str)\<close>: white space is skipped, then a sign, then the digits in radix 10,
  or in radix 16 after \<open>0x\<close>; \<open>None\<close> is \<open>NaN\<close>.
\<close>

definition digitValue :: "char \<Rightarrow> nat option" where
  "digitValue c =
     (let n = (of_char c :: nat)
      in if 48 \<le> n \<and> n \<le> 57 then Some (n - 48)
         else if 97 \<le> n \<and> n \<le> 102 then Some (n - 87)
         else if 65 \<le> n \<and> n \<le> 70 then Some (n - 55)
         else None)"

fun parseDigits :: "nat \<Rightarrow> nat option \<Rightarrow> string \<Rightarrow> nat option" where
  "parseDigits radix acc [] = acc"
| "parseDigits radix acc (c # cs) =
     (case digitValue c of
        None \<Rightarrow> acc
      | Some d \<Rightarrow>
          if d < radix
          then parseDigits radix (Some ((case acc of None \<Rightarrow> 0 | Some a \<Rightarrow> a) * radix + d)) cs
          else acc)"

definition parseInt :: "string \<Rightarrow> int option" where
  "parseInt str =
     (let s0 = dropWhile isSpace str;
          neg = (s0 \<noteq> [] \<and> hd s0 = CHR ''-'');
          s1 = (if s0 \<noteq> [] \<and> (hd s0 = CHR ''-'' \<or> hd s0 = CHR ''+'') then tl s0 else s0);
          m = (if take 2 s1 = ''0x'' \<or> take 2 s1 = ''0X'' then parseDigits 16 None (drop 2 s1)
               else parseDigits 10 None s1)
      in case m of None \<Rightarrow> None | Some n \<Rightarrow> Some (if neg then - int n else int n))"


text \<open>
  The confirmed delete (the callback given to \<open>showConfirmation\<close>): the DELETE call, and
  only after it the filter of \<open>dashboardItems\<close>, the re-render and the success
  notification; the \<open>catch\<close> shows the error notification.
\<close>

definition deleteCall :: "env \<Rightarrow> int \<Rightarrow> world \<Rightarrow> js_error + json" where
  "deleteCall ev ident w =
     apiCall (BASE_URL ev) (fetchFn ev) (token (app w)) (''/analyses/'' @ showInt ident)
       \<lparr>opt_method = Some ''DELETE'', opt_headers = [], opt_body = None\<rparr>"

definition deleteConfirmed :: "env \<Rightarrow> int \<Rightarrow> world \<Rightarrow> world" where
  "deleteConfirmed ev ident w =
     (case deleteCall ev ident w of
        Inr ok \<Rightarrow>
          (let w1 = w\<lparr>app := (app w)\<lparr>dashboardItems :=
                        filter (\<lambda>x. item_id x \<noteq> Some ident) (dashboardItems (app w))\<rparr>\<rparr>;
               w2 = renderDashboardList ev w1
           in showNotification ''Analysis deleted successfully.'' ''success'' w2)
      | Inl err \<Rightarrow> showNotification ''Failed to delete analysis.'' ''error'' w)"

text \<open>
  The click on a delete button: \<open>idAttr\<close> is the attribute \<open>data-analysis-id\<close>, and
  \<open>confirmed\<close> is the answer the user gives in the confirmation dialog. A click whose id
  parses to \<open>NaN\<close> or 0 does nothing.
\<close>

definition deleteClicked :: "env \<Rightarrow> string \<Rightarrow> bool \<Rightarrow> world \<Rightarrow> world" where
  "deleteClicked ev idAttr confirmed w =
     (case parseInt idAttr of
        None \<Rightarrow> w
      | Some ident \<Rightarrow> if ident = 0 then w else if confirmed then deleteConfirmed ev ident w else w)"


subsection \<open>applyHighlights on the page\<close>

text \<open>
  \<open>clearHighlights\<close>: the overlay boxes are removed and the marks of a text page are
  unwrapped, which leaves its text.
\<close>

definition clearPage :: "page_el \<Rightarrow> page_el" where
  "clearPage p = (case p of ImagePage src bs \<Rightarrow> ImagePage src [] | TextPage str markup \<Rightarrow> TextPage str None)"

text \<open>
  The grouping \<open>byPage\<close>: a \<open>Map\<close> from \<open>m.page_index || 0\<close> to the matches of that page,
  in the order in which the keys were first seen.
\<close>

definition pageIndexOf :: "highlight \<Rightarrow> int" where
  "pageIndexOf m = (case page_index m of None \<Rightarrow> 0 | Some i \<Rightarrow> i)"

fun addToGroup :: "int \<Rightarrow> highlight \<Rightarrow> (int \<times> highlight list) list \<Rightarrow> (int \<times> highlight list) list" where
  "addToGroup k m [] = [(k, [m])]"
| "addToGroup k m ((k', ms) # rest) =
     (if k = k' then (k', ms @ [m]) # rest else (k', ms) # addToGroup k m rest)"

definition byPage :: "highlight list \<Rightarrow> (int \<times> highlight list) list" where
  "byPage matches = foldl (\<lambda>groups m. addToGroup (pageIndexOf m) m groups) [] matches"

text \<open>
  One turn of \<open>byPage.forEach\<close> on the pages and the page scrolled to in this call
  (\<open>None\<close> while \<open>scrolled\<close> is false): a page index outside the pages does nothing; an
  image page gets the boxes of the matches whose \<open>boxes\<close> is an array; a text page gets
  the markup of the text step, or stays as it is when no range is left. The text of a text
  page stays: by the theorem of claim C1 it is what the new markup reads back as.
\<close>

definition highlightGroup ::
  "page_el list \<times> nat option \<Rightarrow> int \<times> highlight list \<Rightarrow> page_el list \<times> nat option" where
  "highlightGroup st g =
     (let pages = fst st; idx = fst g; list = snd g;
          scrolled = (case snd st of None \<Rightarrow> Some (nat idx) | Some i \<Rightarrow> Some i)
      in if idx < 0 \<or> int (length pages) \<le> idx then st
         else (case pages ! nat idx of
                 ImagePage src bs \<Rightarrow>
                   (pages[nat idx := ImagePage src
                       (bs @ concat (map (\<lambda>m. case boxes m of None \<Rightarrow> [] | Some b \<Rightarrow> b) list))],
                    scrolled)
               | TextPage str markup \<Rightarrow>
                   (case highlightText str list of
                      None \<Rightarrow> st
                    | Some html \<Rightarrow> (pages[nat idx := TextPage str (Some html)], scrolled))))"

text \<open>
  \<open>applyHighlights(matches)\<close>: a pressed exact-view toggle is clicked (which shows the
  extracted view), the old highlights are cleared, and the groups are applied in order.
\<close>

definition applyHighlights :: "highlight list \<Rightarrow> world \<Rightarrow> world" where
  "applyHighlights matches w =
     (let d = dom w;
          pressed = (exactToggle d = Some True);
          res = foldl highlightGroup (map clearPage (viewerPages d), None) (byPage matches)
      in w\<lparr>dom := d\<lparr>
           exactToggle := (if pressed then Some False else exactToggle d),
           hiddenIds := (if pressed then insert ''exact-pdf-container'' (hiddenIds d - {''extracted-container''})
                         else hiddenIds d),
           viewerPages := fst res,
           scrollTarget := (case snd res of None \<Rightarrow> scrollTarget d | Some i \<Rightarrow> Some i)\<rparr>\<rparr>)"

subsection \<open>renderResults\<close>

definition keyRows :: "key_info_item list \<Rightarrow> key_row list" where
  "keyRows xs =
     map (\<lambda>ix. \<lparr>kr_index = fst ix,
                kr_highlightText = orEmpty (info_value (snd ix)),
                kr_key = escapeHTML (orEmpty (info_key (snd ix))),
                kr_value = escapeHTML (orEmpty (info_value (snd ix))),
                kr_rewrite = info_negotiable (snd ix)\<rparr>)
         (enumerate 0 xs)"

definition actionRows :: "action_item list \<Rightarrow> action_row list" where
  "actionRows xs =
     map (\<lambda>ix. \<lparr>ar_index = fst ix,
                ar_highlightText = orEmpty (action_text (snd ix)),
                ar_text = escapeHTML (orEmpty (action_text (snd ix))),
                ar_clause = action_text (snd ix),
                ar_rewrite = action_negotiable (snd ix)\<rparr>)
         (enumerate 0 xs)"

text \<open>The pages of the extracted view: the page images when there are any, else the page texts.\<close>

definition extractedPages :: "analysis \<Rightarrow> page_el list" where
  "extractedPages a =
     (case page_images a of
        Some (src # srcs) \<Rightarrow> map (\<lambda>s. ImagePage s []) (src # srcs)
      | _ \<Rightarrow>
          (case extracted_text a of
             Some ts \<Rightarrow> map (\<lambda>t. TextPage (if orEmpty t = [] then ''No text.'' else orEmpty t) None) ts
           | None \<Rightarrow> []))"

definition showExactToggle :: "analysis \<Rightarrow> bool" where
  "showExactToggle a =
     (suffix ''.pdf'' (toLowerCase (orEmpty (an_filename a)))
      \<and> \<not> (case page_images a of Some (src # srcs) \<Rightarrow> True | _ \<Rightarrow> False))"

text \<open>
  \<open>renderResults(data)\<close>, in the order of the source. First the app state and the
  persisted analysis id; the assessment, the key-info rows and the action rows, each list
  emptied and filled again; the file name; the document viewer built anew (with the toggle,
  not pressed, for a PDF without page images).
\<close>

definition persistAnalysisId :: "analysis \<Rightarrow> storage \<Rightarrow> storage" where
  "persistAnalysisId a st =
     (case an_id a of
        None \<Rightarrow> st
      | Some i \<Rightarrow> if i \<noteq> 0 then trySetItem ''chimeraAnalysisId'' (showInt i) st else st)"

definition displayName :: "analysis \<Rightarrow> app_state \<Rightarrow> string" where
  "displayName a ap =
     (if orEmpty (an_filename a) \<noteq> [] then orEmpty (an_filename a)
      else if orEmpty (selectedFile ap) \<noteq> [] then orEmpty (selectedFile ap)
      else ''Document'')"

definition buildResults :: "analysis \<Rightarrow> world \<Rightarrow> world" where
  "buildResults a w =
     w\<lparr>app := (app w)\<lparr>currentAnalysis := a, conversationHistory := []\<rparr>,
       dom := (dom w)\<lparr>
                assessmentText := orEmpty (assessment a),
                keyInfoList := (case key_info a of None \<Rightarrow> [] | Some xs \<Rightarrow> keyRows xs),
                actionsList := (case identified_actions a of None \<Rightarrow> [] | Some xs \<Rightarrow> actionRows xs),
                docViewerFilename := displayName a (app w),
                exactToggle := (if showExactToggle a then Some False else None),
                exactLoaded := False,
                hiddenIds := (if showExactToggle a
                              then insert ''exact-pdf-container'' (hiddenIds (dom w) - {''extracted-container''})
                              else hiddenIds (dom w) - {''exact-pdf-container'', ''extracted-container''}),
                viewerPages := extractedPages a\<rparr>,
       localStorage := persistAnalysisId a (localStorage w)\<rparr>"

text \<open>The risk highlights of the analysis, applied when the array is not empty.\<close>

definition highlightResults :: "analysis \<Rightarrow> world \<Rightarrow> world" where
  "highlightResults a w =
     (case risk_highlights a of
        Some (h # hs) \<Rightarrow> applyHighlights (h # hs) w
      | _ \<Rightarrow> w)"

text \<open>The tabs reset to the analysis tab when the four tab elements exist.\<close>

definition resetTabs :: "world \<Rightarrow> world" where
  "resetTabs w =
     (if {''panel-analysis'', ''panel-timeline'', ''tab-analysis'', ''tab-timeline''} \<subseteq> present (dom w)
      then w\<lparr>dom := (dom w)\<lparr>
             hiddenIds := insert ''panel-timeline'' (hiddenIds (dom w) - {''panel-analysis''}),
             activeTabs := insert ''tab-analysis'' (activeTabs (dom w) - {''tab-timeline''})\<rparr>\<rparr>
      else w)"

text \<open>
  The whole of \<open>renderResults\<close>: the page built, the highlights,
  \<open>showState('results')\<close>, the tabs.
\<close>

definition renderResults :: "analysis \<Rightarrow> world \<Rightarrow> world" where
  "renderResults a w = resetTabs (showState ''results'' (highlightResults a (buildResults a w)))"

text \<open>
  A change of a set of ids that removes fixed ids and then adds fixed ids: what a sequence
  of \<open>classList.add\<close> and \<open>classList.remove\<close> calls with fixed arguments does to the
  set of the elements that carry a class.
\<close>

definition addRemove :: "('a set \<Rightarrow> 'a set) \<Rightarrow> bool" where
  "addRemove f = (\<exists>R I. \<forall>h. f h = (h - R) \<union> I)"

subsection \<open>Reading a JSON object\<close>

text \<open>
  The fields of a JSON object read with the types of the data model: a field of another
  type counts as absent.
\<close>

definition propOf :: "json \<Rightarrow> string \<Rightarrow> json option" where
  "propOf v name = (case v of JObj kvs \<Rightarrow> map_of (rev kvs) name | _ \<Rightarrow> None)"

definition strOf :: "json option \<Rightarrow> string option" where
  "strOf v = (case v of Some (JStr s) \<Rightarrow> Some s | _ \<Rightarrow> None)"

subsection \<open>The restore on reload\<close>





text \<open>
  A reload of the page: the script starts again with its initial app state on the document
  as the server sends it (\<open>page0\<close>); local storage is what it was, without the token the
  script removes when it starts; then the view is restored.
\<close>

definition initialApp :: app_state where
  "initialApp =
     \<lparr>token = None, selectedFile = None,
      currentAnalysis = \<lparr>an_id = None, an_filename = None, assessment = None, key_info = None,
                         identified_actions = None, extracted_text = None, page_images = None,
                         risk_highlights = None\<rparr>,
      conversationHistory = [], dashboardItems = []\<rparr>"



subsection \<open>The chat: handleQuery and the popup\<close>

text \<open>
  The arguments of \<open>renderOracleAnswer(data.answer, data.citation)\<close> as JSON values: an
  absent answer is the default \<open>''\<close>; an answer that is not a string has neither
  \<open>replace\<close> nor \<open>split\<close>, a \<open>TypeError\<close>. The citation is read in the simple branch
  only, where a falsy one is left out and a truthy one must be a string.
\<close>

definition renderOracleAnswerJ :: "json option \<Rightarrow> json option \<Rightarrow> js_error + string" where
  "renderOracleAnswerJ answer citation =
     (case answer of
        None \<Rightarrow> Inr (renderOracleAnswer [] [])
      | Some (JStr a) \<Rightarrow>
          if hasMultipart a then Inr (renderOracleAnswer a [])
          else (case citation of
                  None \<Rightarrow> Inr (renderOracleAnswer a [])
                | Some (JStr c) \<Rightarrow> Inr (renderOracleAnswer a c)
                | Some c \<Rightarrow> if truthy c then Inl TypeError else Inr (renderOracleAnswer a []))
      | Some other \<Rightarrow> Inl TypeError)"

text \<open>
  The log the bubbles go to: the log of the popup when the popup is open, else the
  conversation log of the panel when the page has one.
\<close>

datatype log_target =
    PopupLog
  | PanelLog

definition targetLog :: "world \<Rightarrow> log_target option" where
  "targetLog w =
     (if popupLog (dom w) \<noteq> None then Some PopupLog
      else if ''conversation-log'' \<in> present (dom w) then Some PanelLog
      else None)"

definition appendEntry :: "log_target \<Rightarrow> chat_entry \<Rightarrow> world \<Rightarrow> world" where
  "appendEntry target entry w =
     (case target of
        PopupLog \<Rightarrow> w\<lparr>dom := (dom w)\<lparr>popupLog :=
                      Some ((case popupLog (dom w) of None \<Rightarrow> [] | Some es \<Rightarrow> es) @ [entry])\<rparr>\<rparr>
      | PanelLog \<Rightarrow> w\<lparr>dom := (dom w)\<lparr>conversationLog := conversationLog (dom w) @ [entry]\<rparr>\<rparr>)"

text \<open>
  \<open>document.getElementById(id).innerHTML = ...\<close> on the bubbles: the first entry with
  that id, the panel log before the popup log (the popup is appended to the body), gets
  the new content and keeps its id; nothing happens when there is none.
\<close>

fun replaceFirst :: "string \<Rightarrow> bubble \<Rightarrow> chat_entry list \<Rightarrow> chat_entry list option" where
  "replaceFirst ident b [] = None"
| "replaceFirst ident b (e # es) =
     (if fst e = Some ident then Some ((Some ident, b) # es)
      else map_option (\<lambda>r. e # r) (replaceFirst ident b es))"

definition setBubble :: "string \<Rightarrow> bubble \<Rightarrow> world \<Rightarrow> world" where
  "setBubble ident b w =
     (case (if ''conversation-log'' \<in> present (dom w)
            then replaceFirst ident b (conversationLog (dom w)) else None) of
        Some es \<Rightarrow> w\<lparr>dom := (dom w)\<lparr>conversationLog := es\<rparr>\<rparr>
      | None \<Rightarrow>
          (case popupLog (dom w) of
             None \<Rightarrow> w
           | Some ps \<Rightarrow>
               (case replaceFirst ident b ps of
                  None \<Rightarrow> w
                | Some es \<Rightarrow> w\<lparr>dom := (dom w)\<lparr>popupLog := Some es\<rparr>\<rparr>)))"

definition userTurn :: "string \<Rightarrow> json" where
  "userTurn question = JObj [(''role'', JStr ''user''), (''content'', JStr question)]"

definition assistantTurn :: "json option \<Rightarrow> json" where
  "assistantTurn answer =
     JObj ((''role'', JStr ''assistant'') # (case answer of None \<Rightarrow> [] | Some a \<Rightarrow> [(''content'', a)]))"

text \<open>The body of the \<open>/query\<close> call; a property that is undefined is left out of the JSON text.\<close>

definition queryOptions :: "string \<Rightarrow> string \<Rightarrow> app_state \<Rightarrow> call_options" where
  "queryOptions question fullText st =
     \<lparr>opt_method = Some ''POST'', opt_headers = [],
      opt_body = Some (Plain (JObj
        ([(''question'', JStr question), (''full_text'', JStr fullText),
          (''history'', JArr (conversationHistory st))]
         @ (case an_id (currentAnalysis st) of None \<Rightarrow> [] | Some i \<Rightarrow> [(''analysis_id'', JNum i)]))))\<rparr>"

text \<open>The \<open>/query\<close> call of the \<open>try\<close> block, on the app state at the time of the call.\<close>

definition queryCall :: "env \<Rightarrow> string \<Rightarrow> string option list \<Rightarrow> app_state \<Rightarrow> js_error + json" where
  "queryCall ev question pages st =
     apiCall (BASE_URL ev) (fetchFn ev) (token st) ''/query''
       (queryOptions question (joinWith [CHR 0x0A, CHR 0x0A] (map orEmpty pages)) st)"

text \<open>
  The \<open>try\<close> block of \<open>handleQuery\<close>, given the id of the placeholder when there is a
  log: the full text (a \<open>TypeError\<close> when the analysis has no \<open>extracted_text\<close>), the
  call, the rendered answer put in place of the placeholder, and then the pushes to the
  history: the user turn only when the popup is not open, the assistant turn always.
\<close>

definition queryTry :: "env \<Rightarrow> string \<Rightarrow> string option \<Rightarrow> world \<Rightarrow> js_error + world" where
  "queryTry ev question thinkingId w =
     (case extracted_text (currentAnalysis (app w)) of
        None \<Rightarrow> Inl TypeError
      | Some pages \<Rightarrow>
          (case queryCall ev question pages (app w) of
             Inl e \<Rightarrow> Inl e
           | Inr data \<Rightarrow>
               (case getProp data ''answer'' of
                  Inl e \<Rightarrow> Inl e
                | Inr answer \<Rightarrow>
                    (case renderOracleAnswerJ answer (propOf data ''citation'') of
                       Inl e \<Rightarrow> Inl e
                     | Inr html \<Rightarrow>
                         (let w1 = (case thinkingId of
                                      None \<Rightarrow> w
                                    | Some ident \<Rightarrow> setBubble ident (AnswerBubble html) w);
                              h0 = conversationHistory (app w1);
                              h1 = (if popupLog (dom w) = None then h0 @ [userTurn question] else h0)
                          in Inr (w1\<lparr>app := (app w1)\<lparr>conversationHistory :=
                                      h1 @ [assistantTurn answer]\<rparr>\<rparr>))))))"

text \<open>
  The id of the placeholder, \<open>thinking-\<close> and the time, and the first block of
  \<open>handleQuery\<close>: when there is a log, the user bubble (only outside the popup, which
  has added it already) and the placeholder.
\<close>

definition thinkingIdOf :: "env \<Rightarrow> string" where
  "thinkingIdOf ev = ''thinking-'' @ showNat (dateNow ev)"

definition withBubbles :: "env \<Rightarrow> string \<Rightarrow> world \<Rightarrow> world" where
  "withBubbles ev question w =
     (case targetLog w of
        None \<Rightarrow> w
      | Some t \<Rightarrow>
          appendEntry t (Some (thinkingIdOf ev), ThinkingBubble)
            (if popupLog (dom w) = None then appendEntry t (None, UserBubble question) w else w))"

text \<open>
  \<open>handleQuery(question)\<close>: the bubbles, then the \<open>try\<close> block; the \<open>catch\<close> puts the
  error bubble in place of the placeholder and does nothing else.
\<close>

definition handleQuery :: "env \<Rightarrow> string \<Rightarrow> world \<Rightarrow> world" where
  "handleQuery ev question w =
     (let thinkingId = (case targetLog w of None \<Rightarrow> None | Some t \<Rightarrow> Some (thinkingIdOf ev));
          w1 = withBubbles ev question w
      in case queryTry ev question thinkingId w1 of
           Inr w2 \<Rightarrow> w2
         | Inl e \<Rightarrow>
             (case thinkingId of
                None \<Rightarrow> w1
              | Some ident \<Rightarrow> setBubble ident (ErrorBubble (messageOf ev e)) w1))"

text \<open>
  The popup. \<open>openChatPopup\<close> fills its log from the history (a user turn escaped, any
  other turn through \<open>renderOracleAnswer\<close>; the role and the content of a turn are read as
  strings). Its submit handler, for a question that is not empty after \<open>trim\<close>, adds the
  user bubble and the user turn itself and then calls \<open>handleQuery\<close>.
\<close>

definition historyBubble :: "json \<Rightarrow> chat_entry" where
  "historyBubble m =
     (if toLowerCase (orEmpty (strOf (propOf m ''role''))) = ''user''
      then (None, UserBubble (escapeHTML (orEmpty (strOf (propOf m ''content'')))))
      else (None, AnswerBubble (renderOracleAnswer (orEmpty (strOf (propOf m ''content''))) [])))"

definition openChatPopup :: "world \<Rightarrow> world" where
  "openChatPopup w =
     w\<lparr>dom := (dom w)\<lparr>popupLog := Some (map historyBubble (conversationHistory (app w)))\<rparr>\<rparr>"

definition popupSubmit :: "env \<Rightarrow> string \<Rightarrow> world \<Rightarrow> world" where
  "popupSubmit ev inputText w =
     (let q = trim inputText
      in if q = [] then w
         else (let w1 = appendEntry PopupLog (None, UserBubble (escapeHTML q)) w;
                   w2 = w1\<lparr>app := (app w1)\<lparr>conversationHistory :=
                            conversationHistory (app w1) @ [userTurn q]\<rparr>\<rparr>
               in handleQuery ev q w2))"

subsection \<open>A world for the examples\<close>

definition examplePage :: page where
  "examplePage =
     \<lparr>present = {''notification-container'', ''co-fab'', ''nav-to-upload'', ''nav-to-dashboard'',
                 ''dashboard-search'', ''dashboard-sort'', ''conversation-log'',
                 ''panel-analysis'', ''panel-timeline'', ''tab-analysis'', ''tab-timeline''},
      hiddenIds = {''upload-container'', ''results-container''},
      activeTabs = {},
      notifications = [],
      searchValue = [],
      sortValue = ''alpha_asc'',
      analysesList = NoAnalyses,
      errorMessage = [],
      assessmentText = [],
      keyInfoList = [],
      actionsList = [],
      docViewerFilename = [],
      exactToggle = None,
      exactLoaded = False,
      viewerPages = [],
      scrollTarget = None,
      conversationLog = [],
      popupLog = None\<rparr>"

definition exampleAnalysis :: analysis where
  "exampleAnalysis =
     \<lparr>an_id = Some 7, an_filename = Some ''lease.pdf'', assessment = Some ''Mostly standard.'',
      key_info = Some [\<lparr>info_key = Some ''Rent'', info_value = Some ''900 & utilities'',
                        info_negotiable = True\<rparr>],
      identified_actions = Some [\<lparr>action_text = Some ''Pay <fee> & penalty.'',
                                  action_negotiable = False\<rparr>],
      extracted_text = Some [Some ''Pay <fee> & penalty.'', None],
      page_images = None,
      risk_highlights = Some [numericSpan 2 5, numericSpan 4 8, numericSpan 10 12]\<rparr>"

definition exampleWorld :: world where
  "exampleWorld =
     \<lparr>app = initialApp\<lparr>dashboardItems := [item1, item2, item3],
                         conversationHistory := [userTurn ''hello'']\<rparr>,
      dom = examplePage,
      localStorage = \<lparr>stored = Map.empty, writable = True\<rparr>\<rparr>"

text \<open>The example world with the example analysis on view.\<close>

definition exampleChatWorld :: world where
  "exampleChatWorld = exampleWorld\<lparr>app := (app exampleWorld)\<lparr>currentAnalysis := exampleAnalysis\<rparr>\<rparr>"

text \<open>An environment whose server answers every request with an ok response without a body.\<close>

definition exampleEnvOk :: env where
  "exampleEnvOk =
     exampleEnv\<lparr>fetchFn := (\<lambda>q. Inr \<lparr>resp_ok = True, resp_contentType = None, resp_json = None\<rparr>)\<rparr>"


section \<open>Lemmas on the render helpers and the sort\<close>

lemma replaceAll_append: "replaceAll c rep (xs @ ys) = replaceAll c rep xs @ replaceAll c rep ys"
  by (simp add: replaceAll_def)

lemma escapeHTML_append: "escapeHTML (xs @ ys) = escapeHTML xs @ escapeHTML ys"
  by (simp add: escapeHTML_def replaceAll_append)

lemma escapeHTML_Nil: "escapeHTML [] = []"
  by (simp add: escapeHTML_def replaceAll_def)

lemma escapeHTML_single:
  "escapeHTML [c] =
     (if c = CHR ''&'' then ''&amp;'' else if c = CHR ''<'' then ''&lt;''
      else if c = CHR ''>'' then ''&gt;'' else if c = CHR 0x22 then ''&quot;''
      else if c = CHR 0x27 then ''&#039;'' else [c])"
  by (simp add: escapeHTML_def replaceAll_def)

lemma escapeHTML_Cons: "escapeHTML (c # cs) = escapeHTML [c] @ escapeHTML cs"
  using escapeHTML_append [of "[c]" cs] by simp

lemma escapeHTML_concat_map: "concat (map (\<lambda>i. escapeHTML [f i]) js) = escapeHTML (map f js)"
proof (induction js)
  case Nil
  show ?case by (simp add: escapeHTML_Nil)
next
  case (Cons j js)
  show ?case using Cons.IH escapeHTML_Cons [of "f j" "map f js"] by simp
qed

lemma set_insertBy: "set (insertBy cmp x ys) = insert x (set ys)"
  by (induction ys) auto

lemma mset_insertBy: "mset (insertBy cmp x ys) = add_mset x (mset ys)"
  by (induction ys) auto

lemma mset_arraySort: "mset (arraySort cmp xs) = mset xs"
  by (induction xs) (simp_all add: arraySort_def mset_insertBy)

lemma set_arraySort: "set (arraySort cmp xs) = set xs"
  using mset_arraySort [of cmp xs] by (metis set_mset_mset)

lemma sorted_insertBy_fst:
  "sorted (map fst ys) \<Longrightarrow> sorted (map fst (insertBy cmpRange x ys))"
  by (induction ys) (auto simp: cmpRange_def set_insertBy split: if_splits)

lemma sorted_arraySort_fst: "sorted (map fst (arraySort cmpRange xs))"
  by (induction xs) (simp_all add: arraySort_def sorted_insertBy_fst)

lemma clampRange_valid:
  "clampRange t m = Some r \<Longrightarrow> fst r < snd r \<Longrightarrow> validRange (int (length t)) r"
  by (auto simp: clampRange_def validRange_def split: option.splits)

lemma set_map_filter_iff: "y \<in> set (List.map_filter f xs) \<longleftrightarrow> (\<exists>x\<in>set xs. f x = Some y)"
  by (induction xs) (auto simp: List.map_filter_simps split: option.splits)

lemma collectRanges_valid:
  "r \<in> set (collectRanges t list) \<Longrightarrow> validRange (int (length t)) r"
  by (auto simp: collectRanges_def set_arraySort set_map_filter_iff intro: clampRange_valid)

lemma mergeRanges_snoc: "mergeRanges (rs @ [r]) = mergeStep (mergeRanges rs) r"
  by (simp add: mergeRanges_def)

lemma mergeRanges_Nil: "mergeRanges [] = []"
  by (simp add: mergeRanges_def)

lemma mergeStep_valid:
  assumes "\<forall>a\<in>set merged. validRange len a" and "validRange len r"
  shows "\<forall>a\<in>set (mergeStep merged r). validRange len a"
proof (cases "merged = [] \<or> fst r > snd (last merged)")
  case True
  then show ?thesis using assms by (auto simp: mergeStep_def)
next
  case False
  then have ne: "merged \<noteq> []" by simp
  have lastv: "validRange len (last merged)" using assms(1) ne by simp
  have "\<forall>a\<in>set (butlast merged). validRange len a"
    using assms(1) by (auto dest: in_set_butlastD)
  moreover have "validRange len (fst (last merged), max (snd (last merged)) (snd r))"
    using lastv assms(2) by (auto simp: validRange_def)
  ultimately show ?thesis using False by (auto simp: mergeStep_def)
qed

lemma mergeStep_separated:
  assumes "separated merged" and "\<forall>a\<in>set merged. fst a < snd a"
  shows "separated (mergeStep merged r)"
proof (cases "merged = [] \<or> fst r > snd (last merged)")
  case True
  show ?thesis
  proof (cases "merged = []")
    case True
    then show ?thesis by (simp add: mergeStep_def separated_def)
  next
    case False
    then have m: "merged = butlast merged @ [last merged]" by simp
    have gt: "fst r > snd (last merged)" using True False by simp
    have "\<forall>a\<in>set (butlast merged). snd a < fst (last merged)"
      using assms(1) m unfolding separated_def by (metis sorted_wrt_append list.set_intros(1))
    moreover have "fst (last merged) < snd (last merged)" using assms(2) False by simp
    ultimately have "\<forall>a\<in>set merged. snd a < fst r"
      using gt m by (metis (no_types, lifting) Un_iff empty_iff empty_set insert_iff less_trans list.simps(15) set_append)
    then show ?thesis using assms(1) True gt
      by (auto simp: mergeStep_def separated_def sorted_wrt_append)
  qed
next
  case False
  then have ne: "merged \<noteq> []" by simp
  then have m: "merged = butlast merged @ [last merged]" by simp
  have "sorted_wrt (\<lambda>a b. snd a < fst b) (butlast merged @ [last merged])"
    using assms(1) m unfolding separated_def by simp
  then have "sorted_wrt (\<lambda>a b. snd a < fst b) (butlast merged)"
    and "\<forall>a\<in>set (butlast merged). snd a < fst (last merged)"
    by (auto simp: sorted_wrt_append)
  then show ?thesis using False
    by (auto simp: mergeStep_def separated_def sorted_wrt_append)
qed

lemma mergeRanges_valid:
  "\<forall>a\<in>set rs. validRange len a \<Longrightarrow> \<forall>a\<in>set (mergeRanges rs). validRange len a"
proof (induction rs rule: rev_induct)
  case Nil
  show ?case by (simp add: mergeRanges_Nil)
next
  case (snoc r rs)
  then show ?case using mergeStep_valid [of "mergeRanges rs" len r]
    by (simp add: mergeRanges_snoc)
qed

lemma mergeRanges_separated:
  "\<forall>a\<in>set rs. validRange len a \<Longrightarrow> separated (mergeRanges rs)"
proof (induction rs rule: rev_induct)
  case Nil
  show ?case by (simp add: mergeRanges_Nil separated_def)
next
  case (snoc r rs)
  have "\<forall>a\<in>set (mergeRanges rs). validRange len a"
    using snoc.prems mergeRanges_valid [of rs len] by simp
  then have "\<forall>a\<in>set (mergeRanges rs). fst a < snd a" by (simp add: validRange_def)
  then show ?case using snoc mergeStep_separated [of "mergeRanges rs" r]
    by (simp add: mergeRanges_snoc)
qed

lemma mergeStep_last_fst:
  "merged \<noteq> [] \<Longrightarrow> fst (last (mergeStep merged r)) = fst (last merged) \<or> fst (last (mergeStep merged r)) = fst r"
  by (auto simp: mergeStep_def)

lemma mergeStep_ne: "mergeStep merged r \<noteq> []"
  by (simp add: mergeStep_def)

lemma mergeRanges_last_fst:
  "rs \<noteq> [] \<Longrightarrow> fst (last (mergeRanges rs)) \<in> fst ` set rs"
proof (induction rs rule: rev_induct)
  case Nil
  then show ?case by simp
next
  case (snoc r rs)
  show ?case
  proof (cases "rs = []")
    case True
    then show ?thesis by (simp add: mergeRanges_def mergeStep_def)
  next
    case False
    then have "mergeRanges rs \<noteq> []"
      by (metis mergeRanges_snoc mergeStep_ne rev_exhaust)
    then consider "fst (last (mergeStep (mergeRanges rs) r)) = fst (last (mergeRanges rs))"
      | "fst (last (mergeStep (mergeRanges rs) r)) = fst r"
      using mergeStep_last_fst [of "mergeRanges rs" r] by blast
    then show ?thesis
    proof cases
      case 1
      have "fst (last (mergeRanges rs)) \<in> fst ` set rs" using snoc.IH [OF False] .
      then show ?thesis using 1 by (simp add: mergeRanges_snoc)
    next
      case 2
      then show ?thesis by (simp add: mergeRanges_snoc)
    qed
  qed
qed

lemma covered_append: "covered (xs @ ys) = covered xs \<union> covered ys"
  by (simp add: covered_def)

lemma mergeStep_covered:
  assumes "merged \<noteq> [] \<Longrightarrow> fst (last merged) \<le> fst r"
    and "\<forall>a\<in>set merged. fst a < snd a"
  shows "covered (mergeStep merged r) = covered merged \<union> {fst r ..< snd r}"
proof (cases "merged = [] \<or> fst r > snd (last merged)")
  case True
  then show ?thesis by (auto simp: mergeStep_def covered_def)
next
  case False
  then have ne: "merged \<noteq> []" and le: "fst r \<le> snd (last merged)" by auto
  have m: "merged = butlast merged @ [last merged]" using ne by simp
  have lo: "fst (last merged) \<le> fst r" using assms(1) ne by simp
  have "{fst (last merged) ..< max (snd (last merged)) (snd r)}
        = {fst (last merged) ..< snd (last merged)} \<union> {fst r ..< snd r}"
    using lo le by auto
  moreover have "covered merged = covered (butlast merged) \<union> {fst (last merged) ..< snd (last merged)}"
    using covered_append [of "butlast merged" "[last merged]"] m by (simp add: covered_def)
  ultimately show ?thesis using False
    by (simp add: mergeStep_def covered_append) (auto simp: covered_def)
qed

lemma mergeRanges_covered:
  assumes "sorted (map fst rs)" and "\<forall>a\<in>set rs. validRange len a"
  shows "covered (mergeRanges rs) = covered rs"
  using assms
proof (induction rs rule: rev_induct)
  case Nil
  show ?case by (simp add: mergeRanges_Nil)
next
  case (snoc r rs)
  have srt: "sorted (map fst rs)" and le: "\<forall>a\<in>set rs. fst a \<le> fst r"
    using snoc.prems(1) by (auto simp: sorted_append)
  have IH: "covered (mergeRanges rs) = covered rs" using snoc srt by simp
  have "\<forall>a\<in>set (mergeRanges rs). validRange len a"
    using snoc.prems(2) mergeRanges_valid [of rs len] by simp
  then have pos: "\<forall>a\<in>set (mergeRanges rs). fst a < snd a" by (simp add: validRange_def)
  have "mergeRanges rs \<noteq> [] \<Longrightarrow> fst (last (mergeRanges rs)) \<le> fst r"
  proof -
    assume ne: "mergeRanges rs \<noteq> []"
    then have "rs \<noteq> []" using mergeRanges_Nil by auto
    then show ?thesis using mergeRanges_last_fst [of rs] le by auto
  qed
  then show ?case using mergeStep_covered [of "mergeRanges rs" r] pos IH
    by (simp add: mergeRanges_snoc covered_append) (simp add: covered_def)
qed

lemma rebuildMarkup_finish:
  "rebuildMarkup t merged = finishMarkup t (foldl (markStep t) ([], 0) merged)"
  by (simp add: rebuildMarkup_def finishMarkup_def Let_def)

lemma map_nth_upt_drop_take: "n \<le> length xs \<Longrightarrow> map ((!) xs) [m..<n] = drop m (take n xs)"
  by (rule map_upt_eqI) (auto simp: min_def split: if_splits)

lemma slice_nth:
  assumes "0 \<le> a" "a \<le> b" "b \<le> int (length t)"
  shows "slice t a b = map ((!) t) [nat a ..< nat b]"
proof -
  have "slice t a b = take (nat (b - a)) (drop (nat a) t)"
    using assms by (simp add: slice_def Let_def min_def)
  also have "\<dots> = drop (nat a) (take (nat b) t)"
    using assms by (simp add: drop_take nat_diff_distrib)
  also have "\<dots> = map ((!) t) [nat a ..< nat b]"
    using assms by (simp add: map_nth_upt_drop_take)
  finally show ?thesis .
qed

lemma escape_slice:
  assumes "0 \<le> a" "a \<le> b" "b \<le> int (length t)"
  shows "escapeHTML (slice t a b) = concat (map (\<lambda>i. escapeHTML [t ! i]) [nat a ..< nat b])"
  using slice_nth [OF assms] escapeHTML_concat_map [of "(!) t" "[nat a ..< nat b]"] by simp

lemma concat_last_close:
  "a < b \<Longrightarrow>
     concat (map (\<lambda>i. g i @ (if Suc i = b then C else [])) [a..<b]) = concat (map g [a..<b]) @ C"
proof -
  assume ab: "a < b"
  then obtain k where b: "b = Suc k" and ak: "a \<le> k" by (cases b) auto
  have eq: "concat (map (\<lambda>i. g i @ (if i = k then C else [])) [a..<k]) = concat (map g [a..<k])"
    by (intro arg_cong [where f = concat] map_cong) auto
  show ?thesis using ak by (simp add: b eq)
qed

lemma concat_first_open:
  "a < b \<Longrightarrow>
     concat (map (\<lambda>i. (if i = a then Op else []) @ h i) [a..<b]) = Op @ concat (map h [a..<b])"
proof -
  assume ab: "a < b"
  have eq: "concat (map (\<lambda>i. (if i = a then Op else []) @ h i) [Suc a..<b]) = concat (map h [Suc a..<b])"
    by (intro arg_cong [where f = concat] map_cong) auto
  show ?thesis using ab by (simp add: upt_conv_Cons eq)
qed

lemma concat_open_close:
  assumes "a < b"
  shows "concat (map (\<lambda>i. (if i = a then Op else []) @ g i @ (if Suc i = b then C else [])) [a..<b])
         = Op @ concat (map g [a..<b]) @ C"
  using concat_first_open [OF assms, of Op "\<lambda>i. g i @ (if Suc i = b then C else [])"]
    concat_last_close [OF assms, of g C] by simp

lemma markLoop_spec:
  assumes "0 \<le> p" "p \<le> int (length t)"
    and "\<forall>r\<in>set ms. p \<le> fst r \<and> fst r < snd r \<and> snd r \<le> int (length t)"
    and "separated ms"
  shows "finishMarkup t (foldl (markStep t) (h, p) ms)
         = h @ concat (map (markedChar t ms) [nat p ..< length t])"
  using assms
proof (induction ms arbitrary: h p)
  case Nil
  have "markedChar t [] = (\<lambda>i. escapeHTML [t ! i])"
    by (rule ext) (simp add: markedChar_def)
  moreover have "p < int (length t) \<Longrightarrow>
      escapeHTML (sliceFrom t p) = concat (map (\<lambda>i. escapeHTML [t ! i]) [nat p ..< length t])"
    using escape_slice [of p "int (length t)" t] Nil.prems by (simp add: sliceFrom_def)
  moreover have "\<not> p < int (length t) \<Longrightarrow> [nat p ..< length t] = []"
    by simp
  ultimately show ?case by (auto simp: finishMarkup_def)
next
  case (Cons r ms)
  obtain s e where r: "r = (s, e)" by (cases r)
  have ps: "p \<le> s" and se: "s < e" and el: "e \<le> int (length t)"
    using Cons.prems(3) r by auto
  have sep: "separated ms" and gap: "\<forall>q\<in>set ms. e < fst q"
    using Cons.prems(4) r by (auto simp: separated_def)
  have rest: "\<forall>q\<in>set ms. e \<le> fst q \<and> fst q < snd q \<and> snd q \<le> int (length t)"
    using Cons.prems(3) gap by auto
  let ?h1 = "(if p < s then h @ escapeHTML (slice t p s) else h)"
  let ?h2 = "?h1 @ markOpen @ escapeHTML (slice t s e) @ markClose"
  have step: "markStep t (h, p) r = (?h2, e)"
    by (simp add: markStep_def r Let_def)
  have IH: "finishMarkup t (foldl (markStep t) (?h2, e) ms)
            = ?h2 @ concat (map (markedChar t ms) [nat e ..< length t])"
    using Cons.IH [of e ?h2] Cons.prems(1) ps se el rest sep by simp
  have h1: "?h1 = h @ concat (map (\<lambda>i. escapeHTML [t ! i]) [nat p ..< nat s])"
    using escape_slice [of p s t] Cons.prems(1) ps se el by auto
  have split: "[nat p ..< length t] = [nat p ..< nat s] @ [nat s ..< nat e] @ [nat e ..< length t]"
  proof -
    have "[nat p ..< length t] = [nat p ..< nat s] @ [nat s ..< length t]"
      using Cons.prems(1) ps se el by (metis le_add_diff_inverse nat_mono upt_add_eq_append nat_le_iff order_trans less_imp_le zle_int nat_int)
    moreover have "[nat s ..< length t] = [nat s ..< nat e] @ [nat e ..< length t]"
      using Cons.prems(1) ps se el by (metis le_add_diff_inverse nat_mono upt_add_eq_append nat_le_iff order_trans less_imp_le zle_int nat_int)
    ultimately show ?thesis by simp
  qed
  have part1: "map (markedChar t (r # ms)) [nat p ..< nat s] = map (\<lambda>i. escapeHTML [t ! i]) [nat p ..< nat s]"
  proof (intro map_cong refl)
    fix i assume "i \<in> set [nat p ..< nat s]"
    then have i: "int i < s" using Cons.prems(1) by auto
    have "int i \<notin> fst ` set (r # ms)" using i r gap se by force
    moreover have "int (Suc i) \<notin> snd ` set (r # ms)" using i r rest se by force
    ultimately show "markedChar t (r # ms) i = escapeHTML [t ! i]"
      by (simp add: markedChar_def)
  qed
  have part2: "map (markedChar t (r # ms)) [nat s ..< nat e]
      = map (\<lambda>i. (if i = nat s then markOpen else []) @ escapeHTML [t ! i]
                   @ (if Suc i = nat e then markClose else [])) [nat s ..< nat e]"
  proof (intro map_cong refl)
    fix i assume "i \<in> set [nat s ..< nat e]"
    then have i: "s \<le> int i" "int i < e" using Cons.prems(1) ps by auto
    have a: "int i \<in> fst ` set (r # ms) \<longleftrightarrow> i = nat s"
      using i r gap Cons.prems(1) ps by force
    have b: "int (Suc i) \<in> snd ` set (r # ms) \<longleftrightarrow> Suc i = nat e"
      using i r rest by force
    show "markedChar t (r # ms) i = (if i = nat s then markOpen else []) @ escapeHTML [t ! i]
                   @ (if Suc i = nat e then markClose else [])"
      unfolding markedChar_def a b by simp
  qed
  have part3: "map (markedChar t (r # ms)) [nat e ..< length t] = map (markedChar t ms) [nat e ..< length t]"
  proof (intro map_cong refl)
    fix i assume "i \<in> set [nat e ..< length t]"
    then have i: "e \<le> int i" by auto
    have a: "int i \<in> fst ` set (r # ms) \<longleftrightarrow> int i \<in> fst ` set ms"
      using i r se by force
    have b: "int (Suc i) \<in> snd ` set (r # ms) \<longleftrightarrow> int (Suc i) \<in> snd ` set ms"
      using i r by force
    show "markedChar t (r # ms) i = markedChar t ms i"
      unfolding markedChar_def a b by simp
  qed
  have mid: "concat (map (\<lambda>i. (if i = nat s then markOpen else []) @ escapeHTML [t ! i]
                   @ (if Suc i = nat e then markClose else [])) [nat s ..< nat e])
      = markOpen @ escapeHTML (slice t s e) @ markClose"
    using concat_open_close [of "nat s" "nat e" markOpen "\<lambda>i. escapeHTML [t ! i]" markClose]
      escape_slice [of s e t] Cons.prems(1) ps se el by simp
  have "finishMarkup t (foldl (markStep t) (h, p) (r # ms))
        = ?h2 @ concat (map (markedChar t ms) [nat e ..< length t])"
    using step IH by simp
  also have "\<dots> = h @ concat (map (markedChar t (r # ms)) [nat p ..< length t])"
    unfolding split by (simp add: part1 part2 part3 mid h1)
  finally show ?case .
qed

lemma rebuildMarkup_spec:
  assumes "\<forall>r\<in>set ms. validRange (int (length t)) r" and "separated ms"
  shows "rebuildMarkup t ms = specMarkup t ms"
  using markLoop_spec [of 0 t ms "[]"] assms
  by (simp add: rebuildMarkup_finish specMarkup_def validRange_def)

lemma unescape_escape_Cons: "unescapeHTML (escapeHTML [c] @ rest) = c # unescapeHTML rest"
  by (simp add: escapeHTML_single)

lemma unescape_escape: "unescapeHTML (escapeHTML str) = str"
proof (induction str)
  case Nil
  show ?case by (simp add: escapeHTML_Nil)
next
  case (Cons c cs)
  show ?case using Cons.IH unescape_escape_Cons [of c "escapeHTML cs"] escapeHTML_Cons [of c cs]
    by simp
qed

lemma stripTags_escape_Cons: "stripTags False (escapeHTML [c] @ rest) = escapeHTML [c] @ stripTags False rest"
  by (simp add: escapeHTML_single)

lemma stripTags_markOpen: "stripTags False (markOpen @ rest) = stripTags False rest"
  by (simp add: markOpen_def)

lemma stripTags_markClose: "stripTags False (markClose @ rest) = stripTags False rest"
  by (simp add: markClose_def)

lemma stripTags_markedChar:
  "stripTags False (markedChar t ms i @ rest) = escapeHTML [t ! i] @ stripTags False rest"
  by (simp add: markedChar_def stripTags_markOpen stripTags_markClose stripTags_escape_Cons)

lemma stripTags_marked:
  "stripTags False (concat (map (markedChar t ms) js)) = escapeHTML (map ((!) t) js)"
proof (induction js)
  case Nil
  show ?case by (simp add: escapeHTML_Nil)
next
  case (Cons j js)
  show ?case using Cons.IH stripTags_markedChar [of t ms j] escapeHTML_Cons [of "t ! j" "map ((!) t) js"]
    by simp
qed

lemma textContent_specMarkup: "textContent (specMarkup t ms) = t"
  by (simp add: textContent_def specMarkup_def stripTags_marked map_nth unescape_escape)

lemma covered_collectRanges:
  "covered (collectRanges t list) =
     {i. \<exists>m\<in>set list. \<exists>cs ce. char_start m = Some cs \<and> char_end m = Some ce
           \<and> max 0 cs \<le> i \<and> i < min (int (length t)) ce}"
  (is "?L = ?R")
proof (rule set_eqI)
  fix i
  have "i \<in> ?L \<longleftrightarrow> (\<exists>r. (\<exists>m\<in>set list. clampRange t m = Some r) \<and> fst r < snd r \<and> fst r \<le> i \<and> i < snd r)"
    by (auto simp: covered_def collectRanges_def set_arraySort set_map_filter_iff)
  also have "\<dots> \<longleftrightarrow> i \<in> ?R"
    by (auto simp: clampRange_def split: option.splits) force+
  finally show "i \<in> ?L \<longleftrightarrow> i \<in> ?R" .
qed

lemma highlightRanges_valid:
  "\<forall>r\<in>set (highlightRanges t list). validRange (int (length t)) r"
  unfolding highlightRanges_def
  by (rule mergeRanges_valid) (simp add: collectRanges_valid)

lemma highlightRanges_separated: "separated (highlightRanges t list)"
  unfolding highlightRanges_def
  by (rule mergeRanges_separated [of _ "int (length t)"]) (simp add: collectRanges_valid)

lemma highlightRanges_covered: "covered (highlightRanges t list) = covered (collectRanges t list)"
  unfolding highlightRanges_def
  by (rule mergeRanges_covered [of _ "int (length t)"])
     (simp_all add: collectRanges_valid collectRanges_def sorted_arraySort_fst)

lemma highlightText_Some:
  "highlightText t list = Some html \<Longrightarrow> html = rebuildMarkup t (highlightRanges t list)"
  by (auto simp: highlightText_def highlightRanges_def Let_def split: if_splits)

lemma example_ranges:
  "length t = 20 \<Longrightarrow>
     highlightRanges t [numericSpan 2 5, numericSpan 4 8, numericSpan 10 12] = [(2, 8), (10, 12)]"
  by (simp add: highlightRanges_def collectRanges_def List.map_filter_simps clampRange_def
      numericSpan_def arraySort_def cmpRange_def mergeRanges_def mergeStep_def)

text \<open>
  Claim C1. For every page text and every list of matches of that page, the text step of
  \<open>applyHighlights\<close> sorts the clamped, non-empty ranges by start offset; the merged ranges
  cover exactly the positions \<open>i\<close> with \<open>max 0 char_start \<le> i < min (length text) char_end\<close>
  for some match with numeric offsets (each span clamped to the text, empty spans
  contributing nothing), and each merged range ends strictly before the next one starts
  (overlapping and adjacent spans are merged). On a 20-character text the spans (2,5),
  (4,8), (10,12) give exactly the ranges (2,8) and (10,12). The markup assigned to the
  paragraph holds every character of the text once, HTML-escaped, with a mark around each
  merged range, and the text read back from it (tags removed, references unescaped) is the
  original text.
\<close>

theorem applyHighlights_text_merge:
  "sorted (map fst (collectRanges t list))
   \<and> covered (highlightRanges t list) =
       {i. \<exists>m\<in>set list. \<exists>cs ce. char_start m = Some cs \<and> char_end m = Some ce
             \<and> max 0 cs \<le> i \<and> i < min (int (length t)) ce}
   \<and> separated (highlightRanges t list)
   \<and> (length t = 20 \<longrightarrow>
        highlightRanges t [numericSpan 2 5, numericSpan 4 8, numericSpan 10 12] = [(2, 8), (10, 12)])
   \<and> (highlightText t list = Some html \<longrightarrow>
        html = specMarkup t (highlightRanges t list) \<and> textContent html = t)"
proof -
  have a: "sorted (map fst (collectRanges t list))"
    by (simp add: collectRanges_def sorted_arraySort_fst)
  have b: "covered (highlightRanges t list) =
       {i. \<exists>m\<in>set list. \<exists>cs ce. char_start m = Some cs \<and> char_end m = Some ce
             \<and> max 0 cs \<le> i \<and> i < min (int (length t)) ce}"
    by (simp only: highlightRanges_covered covered_collectRanges)
  have c: "separated (highlightRanges t list)" by (rule highlightRanges_separated)
  have d: "length t = 20 \<longrightarrow>
        highlightRanges t [numericSpan 2 5, numericSpan 4 8, numericSpan 10 12] = [(2, 8), (10, 12)]"
    using example_ranges by blast
  have e: "highlightText t list = Some html \<longrightarrow>
        html = specMarkup t (highlightRanges t list) \<and> textContent html = t"
  proof
    assume "highlightText t list = Some html"
    then have "html = rebuildMarkup t (highlightRanges t list)" by (rule highlightText_Some)
    then have "html = specMarkup t (highlightRanges t list)"
      using rebuildMarkup_spec [OF highlightRanges_valid highlightRanges_separated] by simp
    then show "html = specMarkup t (highlightRanges t list) \<and> textContent html = t"
      by (simp add: textContent_specMarkup)
  qed
  show ?thesis using a b c d e by blast
qed

theorem applyHighlights_text_merge_witness:
  \<open>length ''Pay <fee> & penalty.'' = 20
   \<and> highlightRanges ''Pay <fee> & penalty.'' [numericSpan 2 5, numericSpan 4 8, numericSpan 10 12]
       = [(2, 8), (10, 12)]
   \<and> highlightText ''Pay <fee> & penalty.'' [numericSpan 2 5, numericSpan 4 8, numericSpan 10 12]
       = Some (''Pa'' @ markOpen @ ''y &lt;fee'' @ markClose @ ''&gt; '' @ markOpen @ ''&amp; ''
               @ markClose @ ''penalty.'')
   \<and> textContent (''Pa'' @ markOpen @ ''y &lt;fee'' @ markClose @ ''&gt; '' @ markOpen @ ''&amp; ''
               @ markClose @ ''penalty.'') = ''Pay <fee> & penalty.''\<close>
proof -
  let ?t = "''Pay <fee> & penalty.''"
  let ?l = "[numericSpan 2 5, numericSpan 4 8, numericSpan 10 12]"
  let ?h = "''Pa'' @ markOpen @ ''y &lt;fee'' @ markClose @ ''&gt; '' @ markOpen @ ''&amp; ''
               @ markClose @ ''penalty.''"
  have len: "length ?t = 20" by simp
  have h: "highlightText ?t ?l = Some ?h"
    by (simp add: highlightText_def collectRanges_def List.map_filter_simps clampRange_def
      numericSpan_def arraySort_def cmpRange_def mergeRanges_def mergeStep_def rebuildMarkup_def
      markStep_def slice_def sliceFrom_def escapeHTML_def replaceAll_def Let_def)
  have r: "length ?t = 20 \<longrightarrow> highlightRanges ?t ?l = [(2, 8), (10, 12)]"
    and m: "highlightText ?t ?l = Some ?h \<longrightarrow> ?h = specMarkup ?t (highlightRanges ?t ?l) \<and> textContent ?h = ?t"
    using applyHighlights_text_merge [of ?t ?l ?h] by blast+
  show ?thesis using len h r m by blast
qed

text \<open>
  Claim C9. For every page text and match list, every merged range the text step emits is
  non-empty and lies within \<open>[0, length text]\<close>, the ranges are in strictly increasing
  order of start and pairwise disjoint; a match with a non-numeric offset, with inverted
  bounds or lying outside the text is dropped: the merged ranges are those of the list
  without it.
\<close>

theorem applyHighlights_ranges_invariant:
  "(\<forall>r\<in>set (highlightRanges t list). 0 \<le> fst r \<and> fst r < snd r \<and> snd r \<le> int (length t))
   \<and> sorted_wrt (\<lambda>a b. fst a < fst b) (highlightRanges t list)
   \<and> (\<forall>i j. i < j \<longrightarrow> j < length (highlightRanges t list) \<longrightarrow>
         {fst (highlightRanges t list ! i) ..< snd (highlightRanges t list ! i)}
         \<inter> {fst (highlightRanges t list ! j) ..< snd (highlightRanges t list ! j)} = {})
   \<and> (char_start m = None \<or> char_end m = None
        \<or> (\<exists>cs ce. char_start m = Some cs \<and> char_end m = Some ce
              \<and> (ce \<le> cs \<or> ce \<le> 0 \<or> int (length t) \<le> cs))
       \<longrightarrow> highlightRanges t (before @ m # after) = highlightRanges t (before @ after))"
proof -
  let ?ms = "highlightRanges t list"
  have v: "\<forall>r\<in>set ?ms. validRange (int (length t)) r" by (rule highlightRanges_valid)
  have sep: "sorted_wrt (\<lambda>a b. snd a < fst b) ?ms"
    using highlightRanges_separated [of t list] by (simp add: separated_def)
  have a: "\<forall>r\<in>set ?ms. 0 \<le> fst r \<and> fst r < snd r \<and> snd r \<le> int (length t)"
    using v by (simp add: validRange_def)
  have b: "sorted_wrt (\<lambda>a b. fst a < fst b) ?ms"
  proof (rule sorted_wrt_mono_rel [OF _ sep])
    fix x y assume "x \<in> set ?ms" "y \<in> set ?ms" "snd x < fst y"
    then show "fst x < fst y" using a by force
  qed
  have c: "\<forall>i j. i < j \<longrightarrow> j < length ?ms \<longrightarrow>
         {fst (?ms ! i) ..< snd (?ms ! i)} \<inter> {fst (?ms ! j) ..< snd (?ms ! j)} = {}"
  proof (intro allI impI)
    fix i j assume "i < j" "j < length ?ms"
    then have "snd (?ms ! i) < fst (?ms ! j)" using sep by (simp add: sorted_wrt_iff_nth_less)
    then show "{fst (?ms ! i) ..< snd (?ms ! i)} \<inter> {fst (?ms ! j) ..< snd (?ms ! j)} = {}"
      by auto
  qed
  have d: "char_start m = None \<or> char_end m = None
        \<or> (\<exists>cs ce. char_start m = Some cs \<and> char_end m = Some ce
              \<and> (ce \<le> cs \<or> ce \<le> 0 \<or> int (length t) \<le> cs))
       \<longrightarrow> highlightRanges t (before @ m # after) = highlightRanges t (before @ after)"
  proof
    assume h: "char_start m = None \<or> char_end m = None
        \<or> (\<exists>cs ce. char_start m = Some cs \<and> char_end m = Some ce
              \<and> (ce \<le> cs \<or> ce \<le> 0 \<or> int (length t) \<le> cs))"
    have e: "filter (\<lambda>r. snd r > fst r) (List.map_filter (clampRange t) [m]) = []"
      using h by (auto simp: List.map_filter_simps clampRange_def split: option.splits)
    have app: "List.map_filter (clampRange t) (before @ m # after)
        = List.map_filter (clampRange t) before @ List.map_filter (clampRange t) [m]
          @ List.map_filter (clampRange t) after"
      by (simp add: List.map_filter_def)
    have app': "List.map_filter (clampRange t) (before @ after)
        = List.map_filter (clampRange t) before @ List.map_filter (clampRange t) after"
      by (simp add: List.map_filter_def)
    show "highlightRanges t (before @ m # after) = highlightRanges t (before @ after)"
      unfolding highlightRanges_def collectRanges_def app app' filter_append e by simp
  qed
  show ?thesis using a b c d by blast
qed

theorem applyHighlights_ranges_invariant_witness:
  "highlightRanges ''abcdefgh''
     [numericSpan 6 20, numericSpan (- 4) 2, numericSpan 5 3, numericSpan 1 3] = [(0, 3), (6, 8)]
   \<and> (0 \<le> fst ((0, 3) :: range) \<and> fst ((0, 3) :: range) < snd ((0, 3) :: range)
        \<and> snd ((0, 3) :: range) \<le> int (length ''abcdefgh''))
   \<and> sorted_wrt (\<lambda>a b. fst a < fst b) (highlightRanges ''abcdefgh''
         [numericSpan 6 20, numericSpan (- 4) 2, numericSpan 5 3, numericSpan 1 3])
   \<and> {fst ((0, 3) :: range) ..< snd ((0, 3) :: range)}
       \<inter> {fst ((6, 8) :: range) ..< snd ((6, 8) :: range)} = {}
   \<and> highlightRanges ''abcdefgh''
         ([numericSpan 6 20, numericSpan (- 4) 2] @ numericSpan 5 3 # [numericSpan 1 3])
       = highlightRanges ''abcdefgh'' ([numericSpan 6 20, numericSpan (- 4) 2] @ [numericSpan 1 3])"
proof -
  let ?t = "''abcdefgh''"
  let ?l = "[numericSpan 6 20, numericSpan (- 4) 2, numericSpan 5 3, numericSpan 1 3]"
  have r: "highlightRanges ?t ?l = [(0, 3), (6, 8)]"
    by (simp add: highlightRanges_def collectRanges_def List.map_filter_simps clampRange_def
        numericSpan_def arraySort_def cmpRange_def mergeRanges_def mergeStep_def)
  have inv: "char_start (numericSpan 5 3) = Some 5 \<and> char_end (numericSpan 5 3) = Some 3
      \<and> ((3::int) \<le> 5 \<or> (3::int) \<le> 0 \<or> int (length ?t) \<le> 5)"
    by (simp add: numericSpan_def)
  have mem: "(0, 3) \<in> set (highlightRanges ?t ?l)" and idx: "(0::nat) < 1"
    and len: "1 < length (highlightRanges ?t ?l)"
    and n0: "highlightRanges ?t ?l ! 0 = (0, 3)" and n1: "highlightRanges ?t ?l ! 1 = (6, 8)"
    by (simp_all add: r)
  note th = applyHighlights_ranges_invariant
    [of ?t ?l "numericSpan 5 3" "[numericSpan 6 20, numericSpan (- 4) 2]" "[numericSpan 1 3]"]
  have a: "0 \<le> fst ((0, 3) :: range) \<and> fst ((0, 3) :: range) < snd ((0, 3) :: range)
        \<and> snd ((0, 3) :: range) \<le> int (length ?t)"
    using th mem by blast
  have b: "sorted_wrt (\<lambda>a b. fst a < fst b) (highlightRanges ?t ?l)"
    using th by blast
  have c: "{fst (highlightRanges ?t ?l ! 0) ..< snd (highlightRanges ?t ?l ! 0)}
       \<inter> {fst (highlightRanges ?t ?l ! 1) ..< snd (highlightRanges ?t ?l ! 1)} = {}"
    using th idx len by blast
  have d: "highlightRanges ?t
         ([numericSpan 6 20, numericSpan (- 4) 2] @ numericSpan 5 3 # [numericSpan 1 3])
       = highlightRanges ?t ([numericSpan 6 20, numericSpan (- 4) 2] @ [numericSpan 1 3])"
    using th inv by blast
  show ?thesis using r a b c [unfolded n0 n1] d by blast
qed

section \<open>The API helper\<close>

lemma buildRequest_auth_present:
  "tok = Some s \<Longrightarrow> s \<noteq> [] \<Longrightarrow>
     map_of (req_headers (buildRequest b tok ep opts)) ''Authorization'' = Some (''Bearer '' @ s)"
  by (simp add: buildRequest_def Let_def update_conv')

lemma buildRequest_auth_absent:
  "\<not> tokenPresent tok \<Longrightarrow>
     map_of (req_headers (buildRequest b tok ep opts)) ''Authorization''
       = map_of (opt_headers opts) ''Authorization''"
  by (auto simp: buildRequest_def Let_def update_conv' tokenPresent_def split: option.splits)

lemma buildRequest_plain:
  "opt_body opts = Some (Plain v) \<Longrightarrow> truthy v \<Longrightarrow>
     req_body (buildRequest b tok ep opts) = Some (WireJSON v)
     \<and> map_of (req_headers (buildRequest b tok ep opts)) ''Content-Type'' = Some ''application/json''"
  by (simp add: buildRequest_def Let_def update_conv')

lemma buildRequest_form:
  "opt_body opts = Some (FormData fd) \<Longrightarrow>
     req_body (buildRequest b tok ep opts) = Some (WireForm fd)
     \<and> map_of (req_headers (buildRequest b tok ep opts)) ''Content-Type''
         = map_of (opt_headers opts) ''Content-Type''"
  by (auto simp: buildRequest_def Let_def update_conv' split: option.splits)

lemma handleResponse_not_ok: "\<not> resp_ok r \<Longrightarrow> \<exists>e. handleResponse r = Inl e"
  by (auto simp: handleResponse_def split: option.splits sum.splits)

lemma handleResponse_detail:
  "\<not> resp_ok r \<Longrightarrow> resp_json r = Some (JObj kvs) \<Longrightarrow> map_of (rev kvs) ''detail'' = Some (JStr d)
     \<Longrightarrow> d \<noteq> [] \<Longrightarrow> handleResponse r = Inl (Error d)"
  by (simp add: handleResponse_def getProp_def)

lemma handleResponse_json:
  "resp_ok r \<Longrightarrow> resp_contentType r = Some ct \<Longrightarrow> stringIncludes ct ''application/json''
     \<Longrightarrow> resp_json r = Some v \<Longrightarrow> handleResponse r = Inr v"
  by (cases ct) (auto simp: handleResponse_def)

lemma handleResponse_other:
  "resp_ok r \<Longrightarrow>
     resp_contentType r = None \<or> (\<exists>ct. resp_contentType r = Some ct \<and> \<not> stringIncludes ct ''application/json'')
     \<Longrightarrow> handleResponse r = Inr (JObj [])"
  by (auto simp: handleResponse_def)

lemma handleResponse_not_json:
  "\<not> resp_ok r \<Longrightarrow> resp_json r = None \<Longrightarrow> handleResponse r = Inl SyntaxError"
  by (simp add: handleResponse_def)

lemma handleResponse_null:
  "\<not> resp_ok r \<Longrightarrow> resp_json r = Some JNull \<Longrightarrow> handleResponse r = Inl TypeError"
  by (simp add: handleResponse_def getProp_def)

lemma handleResponse_truthy_detail:
  "\<not> resp_ok r \<Longrightarrow> resp_json r = Some err \<Longrightarrow> getProp err ''detail'' = Inr (Some dv) \<Longrightarrow> truthy dv
     \<Longrightarrow> handleResponse r = Inl (Error (toStr dv))"
  by (simp add: handleResponse_def)

lemma handleResponse_no_detail:
  "\<not> resp_ok r \<Longrightarrow> resp_json r = Some err \<Longrightarrow>
     getProp err ''detail'' = Inr None \<or> (\<exists>dv. getProp err ''detail'' = Inr (Some dv) \<and> \<not> truthy dv)
     \<Longrightarrow> handleResponse r = Inl (Error ''An unknown error occurred'')"
  by (auto simp: handleResponse_def)

lemma handleResponse_ok_not_json:
  "resp_ok r \<Longrightarrow> resp_contentType r = Some ct \<Longrightarrow> stringIncludes ct ''application/json''
     \<Longrightarrow> resp_json r = None \<Longrightarrow> handleResponse r = Inl SyntaxError"
  by (cases ct) (auto simp: handleResponse_def)

text \<open>
  Claim C3, as the code has it. For every endpoint and options: \<open>apiCall\<close> sets the
  \<open>Authorization\<close> header to the bearer token when the token in the app state is present,
  and leaves that header as the options give it when no token is present; a truthy plain
  body is sent as its JSON text with the JSON content type, a form body is sent as it is and
  the content type is not set. A rejection of \<open>fetch\<close> is the rejection of \<open>apiCall\<close>. A
  response that is not ok always ends in a throw, and what is thrown depends on the body:
  the \<open>SyntaxError\<close> of \<open>response.json()\<close> when the body is not JSON; a \<open>TypeError\<close>
  when the body is the JSON value null; an \<open>Error\<close> whose message is the string
  conversion of \<open>detail\<close> when the body has a truthy \<open>detail\<close> (the detail itself when
  it is a non-empty string); an \<open>Error\<close> with the message "An unknown error occurred"
  when \<open>detail\<close> is absent or falsy. An ok response gives the parsed body when its content
  type is JSON (and the \<open>SyntaxError\<close> when that body does not parse), and the empty
  object when the content type is not JSON.
\<close>

theorem apiCall_contract:
  "(tok = Some s \<and> s \<noteq> [] \<longrightarrow>
      map_of (req_headers (buildRequest b tok ep opts)) ''Authorization'' = Some (''Bearer '' @ s))
   \<and> (\<not> tokenPresent tok \<longrightarrow>
      map_of (req_headers (buildRequest b tok ep opts)) ''Authorization''
        = map_of (opt_headers opts) ''Authorization'')
   \<and> (opt_body opts = Some (Plain v) \<and> truthy v \<longrightarrow>
      req_body (buildRequest b tok ep opts) = Some (WireJSON v)
      \<and> map_of (req_headers (buildRequest b tok ep opts)) ''Content-Type'' = Some ''application/json'')
   \<and> (opt_body opts = Some (FormData fd) \<longrightarrow>
      req_body (buildRequest b tok ep opts) = Some (WireForm fd)
      \<and> map_of (req_headers (buildRequest b tok ep opts)) ''Content-Type''
          = map_of (opt_headers opts) ''Content-Type'')
   \<and> (fetch (buildRequest b tok ep opts) = Inl e0 \<longrightarrow> apiCall b fetch tok ep opts = Inl e0)
   \<and> (fetch (buildRequest b tok ep opts) = Inr r \<and> \<not> resp_ok r \<longrightarrow>
      (\<exists>e. apiCall b fetch tok ep opts = Inl e))
   \<and> (fetch (buildRequest b tok ep opts) = Inr r \<and> \<not> resp_ok r \<and> resp_json r = None \<longrightarrow>
      apiCall b fetch tok ep opts = Inl SyntaxError)
   \<and> (fetch (buildRequest b tok ep opts) = Inr r \<and> \<not> resp_ok r \<and> resp_json r = Some JNull \<longrightarrow>
      apiCall b fetch tok ep opts = Inl TypeError)
   \<and> (fetch (buildRequest b tok ep opts) = Inr r \<and> \<not> resp_ok r \<and> resp_json r = Some err
        \<and> getProp err ''detail'' = Inr (Some dv) \<and> truthy dv \<longrightarrow>
      apiCall b fetch tok ep opts = Inl (Error (toStr dv)))
   \<and> (fetch (buildRequest b tok ep opts) = Inr r \<and> \<not> resp_ok r \<and> resp_json r = Some err
        \<and> (getProp err ''detail'' = Inr None
            \<or> (\<exists>dv'. getProp err ''detail'' = Inr (Some dv') \<and> \<not> truthy dv')) \<longrightarrow>
      apiCall b fetch tok ep opts = Inl (Error ''An unknown error occurred''))
   \<and> (fetch (buildRequest b tok ep opts) = Inr r \<and> \<not> resp_ok r \<and> resp_json r = Some (JObj kvs)
        \<and> map_of (rev kvs) ''detail'' = Some (JStr d) \<and> d \<noteq> [] \<longrightarrow>
      apiCall b fetch tok ep opts = Inl (Error d))
   \<and> (fetch (buildRequest b tok ep opts) = Inr r \<and> resp_ok r \<and> resp_contentType r = Some ct
        \<and> stringIncludes ct ''application/json'' \<and> resp_json r = Some body \<longrightarrow>
      apiCall b fetch tok ep opts = Inr body)
   \<and> (fetch (buildRequest b tok ep opts) = Inr r \<and> resp_ok r \<and> resp_contentType r = Some ct
        \<and> stringIncludes ct ''application/json'' \<and> resp_json r = None \<longrightarrow>
      apiCall b fetch tok ep opts = Inl SyntaxError)
   \<and> (fetch (buildRequest b tok ep opts) = Inr r \<and> resp_ok r
        \<and> (resp_contentType r = None
            \<or> (\<exists>ct'. resp_contentType r = Some ct' \<and> \<not> stringIncludes ct' ''application/json'')) \<longrightarrow>
      apiCall b fetch tok ep opts = Inr (JObj []))"
proof (intro conjI impI)
  show "map_of (req_headers (buildRequest b tok ep opts)) ''Authorization'' = Some (''Bearer '' @ s)"
    if "tok = Some s \<and> s \<noteq> []"
    using that buildRequest_auth_present by blast
  show "map_of (req_headers (buildRequest b tok ep opts)) ''Authorization''
        = map_of (opt_headers opts) ''Authorization''" if "\<not> tokenPresent tok"
    using that by (rule buildRequest_auth_absent)
  show "req_body (buildRequest b tok ep opts) = Some (WireJSON v)"
    and "map_of (req_headers (buildRequest b tok ep opts)) ''Content-Type'' = Some ''application/json''"
    if "opt_body opts = Some (Plain v) \<and> truthy v"
    using that buildRequest_plain by blast+
  show "req_body (buildRequest b tok ep opts) = Some (WireForm fd)"
    and "map_of (req_headers (buildRequest b tok ep opts)) ''Content-Type''
          = map_of (opt_headers opts) ''Content-Type''"
    if "opt_body opts = Some (FormData fd)"
    using that buildRequest_form by blast+
  show "apiCall b fetch tok ep opts = Inl e0" if "fetch (buildRequest b tok ep opts) = Inl e0"
    using that by (simp add: apiCall_def)
  show "\<exists>e. apiCall b fetch tok ep opts = Inl e"
    if "fetch (buildRequest b tok ep opts) = Inr r \<and> \<not> resp_ok r"
    using that handleResponse_not_ok [of r] by (simp add: apiCall_def)
  show "apiCall b fetch tok ep opts = Inl SyntaxError"
    if "fetch (buildRequest b tok ep opts) = Inr r \<and> \<not> resp_ok r \<and> resp_json r = None"
    using that handleResponse_not_json [of r] by (simp add: apiCall_def)
  show "apiCall b fetch tok ep opts = Inl TypeError"
    if "fetch (buildRequest b tok ep opts) = Inr r \<and> \<not> resp_ok r \<and> resp_json r = Some JNull"
    using that handleResponse_null [of r] by (simp add: apiCall_def)
  show "apiCall b fetch tok ep opts = Inl (Error (toStr dv))"
    if "fetch (buildRequest b tok ep opts) = Inr r \<and> \<not> resp_ok r \<and> resp_json r = Some err
        \<and> getProp err ''detail'' = Inr (Some dv) \<and> truthy dv"
    using that handleResponse_truthy_detail [of r err dv] by (simp add: apiCall_def)
  show "apiCall b fetch tok ep opts = Inl (Error ''An unknown error occurred'')"
    if "fetch (buildRequest b tok ep opts) = Inr r \<and> \<not> resp_ok r \<and> resp_json r = Some err
        \<and> (getProp err ''detail'' = Inr None
            \<or> (\<exists>dv'. getProp err ''detail'' = Inr (Some dv') \<and> \<not> truthy dv'))"
  proof -
    have "handleResponse r = Inl (Error ''An unknown error occurred'')"
      by (rule handleResponse_no_detail [of r err]) (use that in blast)+
    then show ?thesis using that by (simp add: apiCall_def)
  qed
  show "apiCall b fetch tok ep opts = Inl (Error d)"
    if "fetch (buildRequest b tok ep opts) = Inr r \<and> \<not> resp_ok r \<and> resp_json r = Some (JObj kvs)
        \<and> map_of (rev kvs) ''detail'' = Some (JStr d) \<and> d \<noteq> []"
    using that handleResponse_detail [of r kvs d] by (simp add: apiCall_def)
  show "apiCall b fetch tok ep opts = Inr body"
    if "fetch (buildRequest b tok ep opts) = Inr r \<and> resp_ok r \<and> resp_contentType r = Some ct
        \<and> stringIncludes ct ''application/json'' \<and> resp_json r = Some body"
    using that handleResponse_json [of r ct body] by (simp add: apiCall_def)
  show "apiCall b fetch tok ep opts = Inl SyntaxError"
    if "fetch (buildRequest b tok ep opts) = Inr r \<and> resp_ok r \<and> resp_contentType r = Some ct
        \<and> stringIncludes ct ''application/json'' \<and> resp_json r = None"
    using that handleResponse_ok_not_json [of r ct] by (simp add: apiCall_def)
  show "apiCall b fetch tok ep opts = Inr (JObj [])"
    if "fetch (buildRequest b tok ep opts) = Inr r \<and> resp_ok r
        \<and> (resp_contentType r = None
            \<or> (\<exists>ct'. resp_contentType r = Some ct' \<and> \<not> stringIncludes ct' ''application/json''))"
    using that handleResponse_other [of r] by (simp add: apiCall_def)
qed

theorem apiCall_contract_witness:
  "map_of (req_headers (buildRequest ''http://h'' (Some ''tk'') ''/query''
       \<lparr>opt_method = Some ''POST'', opt_headers = [],
        opt_body = Some (Plain (JObj [(''question'', JStr ''q'')]))\<rparr>)) ''Authorization''
     = Some ''Bearer tk''
   \<and> req_body (buildRequest ''http://h'' (Some ''tk'') ''/query''
       \<lparr>opt_method = Some ''POST'', opt_headers = [],
        opt_body = Some (Plain (JObj [(''question'', JStr ''q'')]))\<rparr>)
     = Some (WireJSON (JObj [(''question'', JStr ''q'')]))
   \<and> apiCall ''http://h''
       (\<lambda>q. Inr \<lparr>resp_ok = False, resp_contentType = Some ''application/json'',
                  resp_json = Some (JObj [(''detail'', JStr ''Not found'')])\<rparr>)
       (Some ''tk'') ''/query''
       \<lparr>opt_method = Some ''POST'', opt_headers = [],
        opt_body = Some (Plain (JObj [(''question'', JStr ''q'')]))\<rparr>
     = Inl (Error ''Not found'')
   \<and> map_of (req_headers (buildRequest ''http://h'' None ''/token''
       \<lparr>opt_method = Some ''POST'', opt_headers = [],
        opt_body = Some (FormData [(''username'', ''a'')])\<rparr>)) ''Authorization'' = None
   \<and> req_body (buildRequest ''http://h'' None ''/token''
       \<lparr>opt_method = Some ''POST'', opt_headers = [],
        opt_body = Some (FormData [(''username'', ''a'')])\<rparr>)
     = Some (WireForm [(''username'', ''a'')])
   \<and> apiCall ''http://h''
       (\<lambda>q. Inr \<lparr>resp_ok = True, resp_contentType = Some ''application/json'',
                  resp_json = Some (JObj [(''access_token'', JStr ''tk'')])\<rparr>)
       None ''/token''
       \<lparr>opt_method = Some ''POST'', opt_headers = [],
        opt_body = Some (FormData [(''username'', ''a'')])\<rparr>
     = Inr (JObj [(''access_token'', JStr ''tk'')])
   \<and> apiCall ''http://h''
       (\<lambda>q. Inr \<lparr>resp_ok = True, resp_contentType = None, resp_json = None\<rparr>)
       None ''/analyses/7'' \<lparr>opt_method = Some ''DELETE'', opt_headers = [], opt_body = None\<rparr>
     = Inr (JObj [])
   \<and> apiCall ''http://h'' (\<lambda>q. Inl NetworkError)
       None ''/analyses/7'' \<lparr>opt_method = Some ''DELETE'', opt_headers = [], opt_body = None\<rparr>
     = Inl NetworkError
   \<and> apiCall ''http://h''
       (\<lambda>q. Inr \<lparr>resp_ok = False, resp_contentType = Some ''text/plain'', resp_json = None\<rparr>)
       None ''/analyses/7'' \<lparr>opt_method = Some ''DELETE'', opt_headers = [], opt_body = None\<rparr>
     = Inl SyntaxError
   \<and> apiCall ''http://h''
       (\<lambda>q. Inr \<lparr>resp_ok = False, resp_contentType = Some ''application/json'',
                  resp_json = Some JNull\<rparr>)
       None ''/analyses/7'' \<lparr>opt_method = Some ''DELETE'', opt_headers = [], opt_body = None\<rparr>
     = Inl TypeError
   \<and> apiCall ''http://h''
       (\<lambda>q. Inr \<lparr>resp_ok = False, resp_contentType = Some ''application/json'',
                  resp_json = Some (JObj [(''detail'', JArr [JStr ''a'', JNull, JNum 3])])\<rparr>)
       None ''/analyses/7'' \<lparr>opt_method = Some ''DELETE'', opt_headers = [], opt_body = None\<rparr>
     = Inl (Error (toStr (JArr [JStr ''a'', JNull, JNum 3])))
   \<and> apiCall ''http://h''
       (\<lambda>q. Inr \<lparr>resp_ok = False, resp_contentType = Some ''application/json'',
                  resp_json = Some (JObj [(''detail'', JStr [])])\<rparr>)
       None ''/analyses/7'' \<lparr>opt_method = Some ''DELETE'', opt_headers = [], opt_body = None\<rparr>
     = Inl (Error ''An unknown error occurred'')
   \<and> apiCall ''http://h''
       (\<lambda>q. Inr \<lparr>resp_ok = True, resp_contentType = Some ''application/json'', resp_json = None\<rparr>)
       None ''/analyses/7'' \<lparr>opt_method = Some ''DELETE'', opt_headers = [], opt_body = None\<rparr>
     = Inl SyntaxError"
proof -
  let ?o1 = "\<lparr>opt_method = Some ''POST'', opt_headers = [],
        opt_body = Some (Plain (JObj [(''question'', JStr ''q'')]))\<rparr>"
  let ?r1 = "\<lparr>resp_ok = False, resp_contentType = Some ''application/json'',
                  resp_json = Some (JObj [(''detail'', JStr ''Not found'')])\<rparr>"
  let ?o2 = "\<lparr>opt_method = Some ''POST'', opt_headers = [],
        opt_body = Some (FormData [(''username'', ''a'')])\<rparr>"
  let ?r2 = "\<lparr>resp_ok = True, resp_contentType = Some ''application/json'',
                  resp_json = Some (JObj [(''access_token'', JStr ''tk'')])\<rparr>"
  let ?o3 = "\<lparr>opt_method = Some ''DELETE'', opt_headers = [], opt_body = None\<rparr>"
  let ?r3 = "\<lparr>resp_ok = True, resp_contentType = None, resp_json = None\<rparr>"
  let ?r4 = "\<lparr>resp_ok = False, resp_contentType = Some ''text/plain'', resp_json = None\<rparr>"
  let ?r5 = "\<lparr>resp_ok = False, resp_contentType = Some ''application/json'', resp_json = Some JNull\<rparr>"
  let ?d6 = "JArr [JStr ''a'', JNull, JNum 3]"
  let ?r6 = "\<lparr>resp_ok = False, resp_contentType = Some ''application/json'',
                  resp_json = Some (JObj [(''detail'', ?d6)])\<rparr>"
  let ?r7 = "\<lparr>resp_ok = False, resp_contentType = Some ''application/json'',
                  resp_json = Some (JObj [(''detail'', JStr [])])\<rparr>"
  let ?r8 = "\<lparr>resp_ok = True, resp_contentType = Some ''application/json'', resp_json = None\<rparr>"
  note t1 = apiCall_contract [where tok = "Some ''tk''" and s = "''tk''" and b = "''http://h''"
      and ep = "''/query''" and opts = ?o1 and v = "JObj [(''question'', JStr ''q'')]"
      and fetch = "\<lambda>q. Inr ?r1" and r = ?r1 and kvs = "[(''detail'', JStr ''Not found'')]"
      and d = "''Not found''"]
  note t2 = apiCall_contract [where tok = None and b = "''http://h''"
      and ep = "''/token''" and opts = ?o2 and fd = "[(''username'', ''a'')]"
      and fetch = "\<lambda>q. Inr ?r2" and r = ?r2 and ct = "''application/json''"
      and body = "JObj [(''access_token'', JStr ''tk'')]"]
  note t3 = apiCall_contract [where tok = None and b = "''http://h''"
      and ep = "''/analyses/7''" and opts = ?o3 and fetch = "\<lambda>q. Inr ?r3" and r = ?r3]
  note t4 = apiCall_contract [where tok = None and b = "''http://h''"
      and ep = "''/analyses/7''" and opts = ?o3 and fetch = "\<lambda>q. Inr ?r4" and r = ?r4]
  note t5 = apiCall_contract [where tok = None and b = "''http://h''"
      and ep = "''/analyses/7''" and opts = ?o3 and fetch = "\<lambda>q. Inr ?r5" and r = ?r5]
  note t6 = apiCall_contract [where tok = None and b = "''http://h''"
      and ep = "''/analyses/7''" and opts = ?o3 and fetch = "\<lambda>q. Inr ?r6" and r = ?r6
      and err = "JObj [(''detail'', ?d6)]" and dv = ?d6]
  note t7 = apiCall_contract [where tok = None and b = "''http://h''"
      and ep = "''/analyses/7''" and opts = ?o3 and fetch = "\<lambda>q. Inr ?r7" and r = ?r7
      and err = "JObj [(''detail'', JStr [])]"]
  note t8 = apiCall_contract [where tok = None and b = "''http://h''"
      and ep = "''/analyses/7''" and opts = ?o3 and fetch = "\<lambda>q. Inr ?r8" and r = ?r8
      and ct = "''application/json''"]
  note t9 = apiCall_contract [where tok = None and b = "''http://h''"
      and ep = "''/analyses/7''" and opts = ?o3 and fetch = "\<lambda>q. Inl NetworkError"
      and ?e0.0 = NetworkError]
  have a1: "map_of (req_headers (buildRequest ''http://h'' (Some ''tk'') ''/query'' ?o1)) ''Authorization''
     = Some ''Bearer tk''"
    using t1 by simp
  have a2: "req_body (buildRequest ''http://h'' (Some ''tk'') ''/query'' ?o1)
     = Some (WireJSON (JObj [(''question'', JStr ''q'')]))"
    using t1 by simp
  have a3: "apiCall ''http://h'' (\<lambda>q. Inr ?r1) (Some ''tk'') ''/query'' ?o1 = Inl (Error ''Not found'')"
    using t1 by simp
  have b1: "map_of (req_headers (buildRequest ''http://h'' None ''/token'' ?o2)) ''Authorization'' = None"
    using t2 by (simp add: tokenPresent_def)
  have b2: "req_body (buildRequest ''http://h'' None ''/token'' ?o2) = Some (WireForm [(''username'', ''a'')])"
    using t2 by simp
  have b3: "apiCall ''http://h'' (\<lambda>q. Inr ?r2) None ''/token'' ?o2 = Inr (JObj [(''access_token'', JStr ''tk'')])"
    using t2 by simp
  have c1: "apiCall ''http://h'' (\<lambda>q. Inr ?r3) None ''/analyses/7'' ?o3 = Inr (JObj [])"
    using t3 by simp
  have c2: "apiCall ''http://h'' (\<lambda>q. Inl NetworkError) None ''/analyses/7'' ?o3 = Inl NetworkError"
    using t9 by simp
  have c3: "apiCall ''http://h'' (\<lambda>q. Inr ?r4) None ''/analyses/7'' ?o3 = Inl SyntaxError"
    using t4 by simp
  have c4: "apiCall ''http://h'' (\<lambda>q. Inr ?r5) None ''/analyses/7'' ?o3 = Inl TypeError"
    using t5 by simp
  have g6: "getProp (JObj [(''detail'', ?d6)]) ''detail'' = Inr (Some ?d6)" by (simp add: getProp_def)
  have c5: "apiCall ''http://h'' (\<lambda>q. Inr ?r6) None ''/analyses/7'' ?o3 = Inl (Error (toStr ?d6))"
    using t6 g6 by simp
  have g7: "getProp (JObj [(''detail'', JStr [])]) ''detail'' = Inr (Some (JStr []))"
    by (simp add: getProp_def)
  have c6: "apiCall ''http://h'' (\<lambda>q. Inr ?r7) None ''/analyses/7'' ?o3
            = Inl (Error ''An unknown error occurred'')"
    using t7 g7 by simp
  have c7: "apiCall ''http://h'' (\<lambda>q. Inr ?r8) None ''/analyses/7'' ?o3 = Inl SyntaxError"
    using t8 by simp
  show ?thesis using a1 a2 a3 b1 b2 b3 c1 c2 c3 c4 c5 c6 c7 by blast
qed

text \<open>
  The claim as the specification states it fails: a response that is not ok and whose body
  is not JSON makes \<open>apiCall\<close> reject with the \<open>SyntaxError\<close> of \<open>response.json()\<close>,
  not with an \<open>Error\<close> that carries a message of the server; a \<open>detail\<close> that is a
  list of objects gives the message \<open>[object Object]\<close>, and an empty \<open>detail\<close> the
  message of the fallback.
\<close>

theorem apiCall_error_detail_counterexample:
  "apiCall ''http://h''
       (\<lambda>q. Inr \<lparr>resp_ok = False, resp_contentType = Some ''text/plain'', resp_json = None\<rparr>)
       None ''/analyses/7'' \<lparr>opt_method = None, opt_headers = [], opt_body = None\<rparr>
     = Inl SyntaxError
   \<and> apiCall ''http://h''
       (\<lambda>q. Inr \<lparr>resp_ok = False, resp_contentType = Some ''application/json'',
                  resp_json = Some (JObj [(''detail'', JArr [JObj [(''msg'', JStr ''field required'')]])])\<rparr>)
       None ''/analyses/7'' \<lparr>opt_method = None, opt_headers = [], opt_body = None\<rparr>
     = Inl (Error ''[object Object]'')
   \<and> apiCall ''http://h''
       (\<lambda>q. Inr \<lparr>resp_ok = False, resp_contentType = Some ''application/json'',
                  resp_json = Some (JObj [(''detail'', JStr [])])\<rparr>)
       None ''/analyses/7'' \<lparr>opt_method = None, opt_headers = [], opt_body = None\<rparr>
     = Inl (Error ''An unknown error occurred'')"
  by (simp add: apiCall_def handleResponse_def getProp_def)

section \<open>The dashboard list\<close>

lemma insertBy_sorted:
  assumes "consistentComparator cmp" "sorted_wrt (\<lambda>a b. cmp a b \<le> 0) ys"
  shows "sorted_wrt (\<lambda>a b. cmp a b \<le> 0) (insertBy cmp x ys)"
  using assms(2)
proof (induction ys)
  case Nil
  show ?case by simp
next
  case (Cons y ys)
  have tr: "\<And>a b c. cmp a b \<le> 0 \<Longrightarrow> cmp b c \<le> 0 \<Longrightarrow> cmp a c \<le> 0"
    using assms(1) unfolding consistentComparator_def by blast
  have anti: "cmp b a \<le> 0" if "\<not> cmp a b \<le> 0" for a b
  proof -
    have "(cmp b a < 0) = (cmp a b > 0)"
      using assms(1) unfolding consistentComparator_def by blast
    then show ?thesis using that by simp
  qed
  show ?case
  proof (cases "cmp x y \<le> 0")
    case True
    then have "\<forall>z\<in>set ys. cmp x z \<le> 0" using Cons.prems tr by auto
    then show ?thesis using True Cons.prems by simp
  next
    case False
    then have "cmp y x \<le> 0" by (rule anti)
    then show ?thesis using False Cons by (auto simp: set_insertBy)
  qed
qed

lemma arraySort_sorted:
  "consistentComparator cmp \<Longrightarrow> sorted_wrt (\<lambda>a b. cmp a b \<le> 0) (arraySort cmp xs)"
  by (induction xs) (simp_all add: arraySort_def insertBy_sorted)

lemma insertBy_filter_out: "\<not> P x \<Longrightarrow> filter P (insertBy cmp x ys) = filter P ys"
  by (induction ys) auto

lemma insertBy_filter_in:
  assumes "P x" and "\<forall>y\<in>set ys. P y \<longrightarrow> cmp x y \<le> 0"
  shows "filter P (insertBy cmp x ys) = x # filter P ys"
  using assms by (induction ys) auto

lemma arraySort_stable:
  assumes "\<And>x y. P x \<Longrightarrow> P y \<Longrightarrow> cmp x y \<le> 0"
  shows "filter P (arraySort cmp xs) = filter P xs"
proof (induction xs)
  case Nil
  show ?case by (simp add: arraySort_def)
next
  case (Cons x xs)
  have step: "arraySort cmp (x # xs) = insertBy cmp x (arraySort cmp xs)"
    by (simp add: arraySort_def)
  show ?case
  proof (cases "P x")
    case True
    then have "\<forall>y\<in>set (arraySort cmp xs). P y \<longrightarrow> cmp x y \<le> 0"
      using assms by blast
    then show ?thesis using True Cons.IH by (simp add: step insertBy_filter_in)
  next
    case False
    then show ?thesis using Cons.IH by (simp add: step insertBy_filter_out)
  qed
qed

lemma codeUnitCompare_anti: "(codeUnitCompare a b < 0) = (codeUnitCompare b a > 0)"
proof (induction a b rule: codeUnitCompare.induct)
  case (4 x xs y ys)
  then show ?case by (cases "(of_char x :: nat) < of_char y"; cases "(of_char y :: nat) < of_char x"; simp)
qed simp_all

lemma codeUnitCompare_Cons_le:
  "codeUnitCompare (x # xs) (y # ys) \<le> 0 \<longleftrightarrow>
     (of_char x :: nat) < of_char y \<or> ((of_char x :: nat) = of_char y \<and> codeUnitCompare xs ys \<le> 0)"
  by (cases "(of_char x :: nat) < of_char y"; cases "(of_char y :: nat) < of_char x"; auto)

lemma codeUnitCompare_trans:
  "codeUnitCompare a b \<le> 0 \<Longrightarrow> codeUnitCompare b c \<le> 0 \<Longrightarrow> codeUnitCompare a c \<le> 0"
proof (induction a arbitrary: b c)
  case Nil
  then show ?case by (cases c) simp_all
next
  case (Cons x xs)
  obtain y ys where b: "b = y # ys" using Cons.prems(1) by (cases b) auto
  obtain z zs where c: "c = z # zs" using Cons.prems(2) b by (cases c) auto
  have 1: "(of_char x :: nat) < of_char y \<or> ((of_char x :: nat) = of_char y \<and> codeUnitCompare xs ys \<le> 0)"
    using Cons.prems(1) unfolding b codeUnitCompare_Cons_le .
  have 2: "(of_char y :: nat) < of_char z \<or> ((of_char y :: nat) = of_char z \<and> codeUnitCompare ys zs \<le> 0)"
    using Cons.prems(2) unfolding b c codeUnitCompare_Cons_le .
  have "(of_char x :: nat) < of_char z \<or> ((of_char x :: nat) = of_char z \<and> codeUnitCompare xs zs \<le> 0)"
    using 1 2 Cons.IH [of ys zs] by force
  then show ?case unfolding c codeUnitCompare_Cons_le .
qed

lemma codeUnitCompare_consistent: "consistentComparator codeUnitCompare"
  unfolding consistentComparator_def
  using codeUnitCompare_anti codeUnitCompare_trans by blast

lemma consistent_sym:
  assumes "consistentComparator cmp" "cmp a b = 0"
  shows "cmp b a = 0"
proof -
  have "(cmp b a < 0) = (cmp a b > 0)" and "(cmp a b < 0) = (cmp b a > 0)"
    using assms(1) unfolding consistentComparator_def by blast+
  then show ?thesis using assms(2) by simp
qed

lemma consistent_trans:
  "consistentComparator cmp \<Longrightarrow> cmp a b \<le> 0 \<Longrightarrow> cmp b c \<le> 0 \<Longrightarrow> cmp a c \<le> 0"
  unfolding consistentComparator_def by blast

lemma consistent_on_key:
  "consistentComparator lc \<Longrightarrow> consistentComparator (\<lambda>a b. lc (f a) (f b))"
  unfolding consistentComparator_def by blast

lemma consistent_flipped:
  assumes "consistentComparator lc"
  shows "consistentComparator (\<lambda>a b. lc (f b) (f a))"
proof -
  have 1: "\<forall>a b. (lc a b < 0) = (lc b a > 0)"
    and 2: "\<forall>a b c. lc a b \<le> 0 \<longrightarrow> lc b c \<le> 0 \<longrightarrow> lc a c \<le> 0"
    using assms unfolding consistentComparator_def by blast+
  have "\<forall>a b. (lc (f b) (f a) < 0) = (lc (f a) (f b) > 0)" using 1 by blast
  moreover have "\<forall>a b c. lc (f b) (f a) \<le> 0 \<longrightarrow> lc (f c) (f b) \<le> 0 \<longrightarrow> lc (f c) (f a) \<le> 0"
    using 2 by blast
  ultimately show ?thesis unfolding consistentComparator_def by blast
qed

lemma dashboardCompare_key:
  "dashboardCompare lc order =
     (if ascending order then (\<lambda>a b. lc (sortKey order a) (sortKey order b))
      else (\<lambda>a b. lc (sortKey order b) (sortKey order a)))"
  by (intro ext) (simp add: dashboardCompare_def sortKey_def ascending_def)

lemma dashboardCompare_consistent:
  "consistentComparator lc \<Longrightarrow> consistentComparator (dashboardCompare lc order)"
  by (simp add: dashboardCompare_key consistent_on_key consistent_flipped)

lemma sameKey_le:
  assumes "consistentComparator lc" "lc (sortKey order x) k = 0" "lc (sortKey order y) k = 0"
  shows "dashboardCompare lc order x y \<le> 0"
proof -
  have kx: "lc k (sortKey order x) = 0" and ky: "lc k (sortKey order y) = 0"
    using assms consistent_sym by metis+
  have "lc (sortKey order x) (sortKey order y) \<le> 0"
    using consistent_trans [OF assms(1), of "sortKey order x" k "sortKey order y"] assms(2) ky by simp
  moreover have "lc (sortKey order y) (sortKey order x) \<le> 0"
    using consistent_trans [OF assms(1), of "sortKey order y" k "sortKey order x"] assms(3) kx by simp
  ultimately show ?thesis by (simp add: dashboardCompare_key)
qed

text \<open>
  Claim C2. For every list of dashboard items, every search text and each of the four
  orders, with \<open>localeCompare\<close> a consistent comparison: the list
  \<open>renderDashboardList\<close> renders is a permutation of the filtered items, it is ordered
  by the key of the order (ascending or descending), and the items whose keys compare
  equal stand in it in the order they have in the input (the sort is stable).
\<close>

theorem renderDashboardList_sort:
  assumes "consistentComparator lc"
    and "order \<in> {''date_asc'', ''date_desc'', ''alpha_asc'', ''alpha_desc''}"
  shows "mset (dashboardList lc search (Some order) items)
           = mset (dashboardFilter (toLowerCase (orEmpty search)) items)
    \<and> sorted_wrt (\<lambda>a b. if ascending order then lc (sortKey order a) (sortKey order b) \<le> 0
                         else lc (sortKey order b) (sortKey order a) \<le> 0)
         (dashboardList lc search (Some order) items)
    \<and> (\<forall>k. filter (\<lambda>i. lc (sortKey order i) k = 0) (dashboardList lc search (Some order) items)
           = filter (\<lambda>i. lc (sortKey order i) k = 0) (dashboardFilter (toLowerCase (orEmpty search)) items))"
proof -
  let ?inp = "dashboardFilter (toLowerCase (orEmpty search)) items"
  have ne: "order \<noteq> []" using assms(2) by auto
  have out: "dashboardList lc search (Some order) items = arraySort (dashboardCompare lc order) ?inp"
    using ne by (simp add: dashboardList_def)
  have a: "mset (arraySort (dashboardCompare lc order) ?inp) = mset ?inp"
    by (rule mset_arraySort)
  have "sorted_wrt (\<lambda>a b. dashboardCompare lc order a b \<le> 0) (arraySort (dashboardCompare lc order) ?inp)"
    using arraySort_sorted [OF dashboardCompare_consistent [OF assms(1)]] .
  then have b: "sorted_wrt (\<lambda>a b. if ascending order then lc (sortKey order a) (sortKey order b) \<le> 0
                         else lc (sortKey order b) (sortKey order a) \<le> 0)
         (arraySort (dashboardCompare lc order) ?inp)"
    by (rule sorted_wrt_mono_rel [rotated]) (simp add: dashboardCompare_key split: if_splits)
  have c: "filter (\<lambda>i. lc (sortKey order i) k = 0) (arraySort (dashboardCompare lc order) ?inp)
           = filter (\<lambda>i. lc (sortKey order i) k = 0) ?inp" for k
    by (rule arraySort_stable) (rule sameKey_le [OF assms(1)])
  show ?thesis unfolding out using a b c by blast
qed

theorem renderDashboardList_sort_witness:
  "dashboardList codeUnitCompare None (Some ''alpha_desc'') [item1, item2, item3] = [item1, item3, item2]
   \<and> mset (dashboardList codeUnitCompare None (Some ''alpha_desc'') [item1, item2, item3])
       = mset (dashboardFilter (toLowerCase (orEmpty None)) [item1, item2, item3])
   \<and> sorted_wrt (\<lambda>a b. if ascending ''alpha_desc''
                          then codeUnitCompare (sortKey ''alpha_desc'' a) (sortKey ''alpha_desc'' b) \<le> 0
                          else codeUnitCompare (sortKey ''alpha_desc'' b) (sortKey ''alpha_desc'' a) \<le> 0)
         (dashboardList codeUnitCompare None (Some ''alpha_desc'') [item1, item2, item3])
   \<and> filter (\<lambda>i. codeUnitCompare (sortKey ''alpha_desc'' i) ''b.pdf'' = 0)
         (dashboardList codeUnitCompare None (Some ''alpha_desc'') [item1, item2, item3])
       = filter (\<lambda>i. codeUnitCompare (sortKey ''alpha_desc'' i) ''b.pdf'' = 0)
           (dashboardFilter (toLowerCase (orEmpty None)) [item1, item2, item3])"
proof -
  have ex: "dashboardList codeUnitCompare None (Some ''alpha_desc'') [item1, item2, item3]
      = [item1, item3, item2]"
    by (simp add: dashboardList_def dashboardFilter_def toLowerCase_def orEmpty_def arraySort_def
        dashboardCompare_def item1_def item2_def item3_def)
  have mem: "''alpha_desc'' \<in> {''date_asc'', ''date_desc'', ''alpha_asc'', ''alpha_desc''}"
    by simp
  note th = renderDashboardList_sort [OF codeUnitCompare_consistent mem, of None "[item1, item2, item3]"]
  show ?thesis using ex th by blast
qed


section \<open>The timeline dates\<close>

text \<open>
  Claim C7. For every timeline event whose date is absent, empty or does not parse,
  \<open>formatDate\<close> returns the fallback of the kind: "Due date not specified" for
  \<open>payment_due\<close>, "Deadline not specified" for \<open>action_required\<close>, "Date not specified"
  for any other kind; it returns a string for every input (it never throws); and for a
  date that parses it returns the localized date that \<open>toLocaleDateString\<close> gives.
\<close>

theorem formatDate_fallback:
  "(isoDate = None \<or> isoDate = Some [] \<or> (\<exists>s. isoDate = Some s \<and> parseDate ev s = None) \<longrightarrow>
      formatDate ev isoDate kind =
        Inr (if kind = Some ''payment_due'' then ''Due date not specified''
             else if kind = Some ''action_required'' then ''Deadline not specified''
             else ''Date not specified''))
   \<and> (\<exists>str. formatDate ev isoDate kind = Inr str)
   \<and> (isoDate = Some s \<and> s \<noteq> [] \<and> parseDate ev s = Some d \<and> toLocaleDateString ev d = Inr shown \<longrightarrow>
      formatDate ev isoDate kind = Inr shown)"
proof (intro conjI impI)
  assume "isoDate = None \<or> isoDate = Some [] \<or> (\<exists>s. isoDate = Some s \<and> parseDate ev s = None)"
  then have "formatDate ev isoDate kind = Inr (fallbackLabel kind)"
  proof (elim disjE exE conjE)
    assume "isoDate = None"
    then show ?thesis by (simp add: formatDate_def Let_def)
  next
    assume "isoDate = Some []"
    then show ?thesis by (simp add: formatDate_def Let_def)
  next
    fix s assume "isoDate = Some s" "parseDate ev s = None"
    then show ?thesis by (simp add: formatDate_def Let_def)
  qed
  then show "formatDate ev isoDate kind =
        Inr (if kind = Some ''payment_due'' then ''Due date not specified''
             else if kind = Some ''action_required'' then ''Deadline not specified''
             else ''Date not specified'')"
    by (simp only: fallbackLabel_def)
next
  show "\<exists>str. formatDate ev isoDate kind = Inr str"
    by (simp add: formatDate_def Let_def split: option.splits sum.splits)
next
  assume "isoDate = Some s \<and> s \<noteq> [] \<and> parseDate ev s = Some d \<and> toLocaleDateString ev d = Inr shown"
  then show "formatDate ev isoDate kind = Inr shown"
    by (simp add: formatDate_def Let_def)
qed

theorem formatDate_fallback_witness:
  "formatDate exampleEnv None (Some ''payment_due'') = Inr ''Due date not specified''
   \<and> formatDate exampleEnv (Some ''soon'') (Some ''action_required'') = Inr ''Deadline not specified''
   \<and> formatDate exampleEnv (Some []) None = Inr ''Date not specified''
   \<and> formatDate exampleEnv (Some ''2025-03-01'') (Some ''key_date'') = Inr ''Mar 01, 2025''"
proof -
  have p: "parseDate exampleEnv ''soon'' = None"
    and q: "parseDate exampleEnv ''2025-03-01'' = Some 1740787200000"
    and l: "toLocaleDateString exampleEnv 1740787200000 = Inr ''Mar 01, 2025''"
    by (simp_all add: exampleEnv_def)
  have a: "formatDate exampleEnv None (Some ''payment_due'') = Inr ''Due date not specified''"
    using formatDate_fallback [of None exampleEnv "Some ''payment_due''"] by simp
  have b: "formatDate exampleEnv (Some ''soon'') (Some ''action_required'') = Inr ''Deadline not specified''"
    using formatDate_fallback [of "Some ''soon''" exampleEnv "Some ''action_required''"] p by simp
  have c: "formatDate exampleEnv (Some []) None = Inr ''Date not specified''"
    using formatDate_fallback [of "Some []" exampleEnv None] by simp
  have d: "formatDate exampleEnv (Some ''2025-03-01'') (Some ''key_date'') = Inr ''Mar 01, 2025''"
    using formatDate_fallback [of "Some ''2025-03-01''" exampleEnv "Some ''key_date''"
        "''2025-03-01''" 1740787200000 "''Mar 01, 2025''"] q l by simp
  show ?thesis using a b c d by blast
qed

section \<open>The answer renderer\<close>

lemma safeFrag_Nil: "safeFrag []"
  by (simp add: safeFrag_def)

lemma safeFrag_append: "safeFrag x \<Longrightarrow> safeFrag y \<Longrightarrow> safeFrag (x @ y)"
  by (simp add: safeFrag_def)

lemma safeFrag_char: "c \<noteq> CHR ''<'' \<Longrightarrow> safeFrag [c]"
  by (simp add: safeFrag_def sublist_Cons_right)

lemma safeFrag_noLt: "CHR ''<'' \<notin> set u \<Longrightarrow> safeFrag u"
proof (induction u)
  case Nil
  show ?case by (rule safeFrag_Nil)
next
  case (Cons c u)
  then have "safeFrag ([c] @ u)" by (intro safeFrag_append safeFrag_char) auto
  then show ?case by simp
qed

lemma safeFrag_strong: "safeFrag ''<strong>''" and safeFrag_strong_close: "safeFrag ''</strong>''"
  and safeFrag_br: "safeFrag ''<br>''"
  by (simp_all add: safeFrag_def sublist_Cons_right)

lemma safeFrag_not_sublist: "safeFrag x \<Longrightarrow> \<not> sublist ''<script>'' x"
  using safeFrag_def [of x] by (metis append_Nil2 sublist_Cons_Nil)

lemma noLt_escapeHTML: "CHR ''<'' \<notin> set (escapeHTML str)"
proof (induction str)
  case Nil
  show ?case by (simp add: escapeHTML_Nil)
next
  case (Cons c cs)
  have "CHR ''<'' \<notin> set (escapeHTML [c])" by (simp add: escapeHTML_single)
  then show ?case using Cons escapeHTML_Cons [of c cs] by simp
qed

lemma closeAt_split: "closeAt body xs = Some (b, r) \<Longrightarrow> body @ xs = b @ ''**'' @ r"
proof (induction body xs rule: closeAt.induct)
  case (1 body)
  then show ?case by simp
next
  case (2 body c cs)
  show ?case
  proof (cases "take 2 (c # cs) = ''**''")
    case True
    then have "c # cs = ''**'' @ drop 2 (c # cs)" by (metis append_take_drop_id)
    then show ?thesis using True "2.prems" by auto
  next
    case False
    then show ?thesis using 2 by (auto split: if_splits)
  qed
qed

lemma matchBold_split: "matchBold str = Some (b, r) \<Longrightarrow> str = ''**'' @ b @ ''**'' @ r"
  by (auto simp: matchBold_def split: list.splits if_splits dest: closeAt_split)

lemma matchBold_noLt:
  assumes "matchBold str = Some (b, r)" "CHR ''<'' \<notin> set str"
  shows "CHR ''<'' \<notin> set b" "CHR ''<'' \<notin> set r"
  using matchBold_split [OF assms(1)] assms(2) by auto

lemma safeFrag_renderInlineMarkdown:
  "CHR ''<'' \<notin> set u \<Longrightarrow> safeFrag (renderInlineMarkdown u)"
proof (induction u rule: renderInlineMarkdown.induct)
  case 1
  show ?case by (simp add: safeFrag_Nil)
next
  case (2 c cs)
  show ?case
  proof (cases "matchBold (c # cs)")
    case None
    have "safeFrag ([c] @ renderInlineMarkdown cs)"
      using 2 None by (intro safeFrag_append safeFrag_char) auto
    then show ?thesis using None by simp
  next
    case (Some p)
    obtain b r where p: "p = (b, r)" by (cases p)
    have nb: "CHR ''<'' \<notin> set b" and nr: "CHR ''<'' \<notin> set r"
      using matchBold_noLt [of "c # cs" b r] Some p "2.prems" by auto
    have rr: "safeFrag (renderInlineMarkdown r)" using "2.IH"(2) [OF Some p [symmetric]] nr by simp
    have "safeFrag (''<strong>'' @ b @ ''</strong>'' @ renderInlineMarkdown r)"
      by (rule safeFrag_append [OF safeFrag_strong
            safeFrag_append [OF safeFrag_noLt [OF nb] safeFrag_append [OF safeFrag_strong_close rr]]])
    then show ?thesis using Some p by simp
  qed
qed

lemma replaceAll_Cons:
  "replaceAll c rep (x # xs) = (if x = c then rep else [x]) @ replaceAll c rep xs"
  by (simp add: replaceAll_def)

lemma replaceAll_noLt_safe:
  "CHR ''<'' \<notin> set u \<Longrightarrow> safeFrag (replaceAll (CHR 0x0A) ''<br>'' u)"
proof (induction u)
  case Nil
  show ?case by (simp add: replaceAll_def safeFrag_Nil)
next
  case (Cons c u)
  have tl: "safeFrag (replaceAll (CHR 0x0A) ''<br>'' u)" using Cons by simp
  have hd: "safeFrag (if c = CHR 0x0A then ''<br>'' else [c])"
    using Cons.prems by (auto simp: safeFrag_br intro: safeFrag_char)
  have "replaceAll (CHR 0x0A) ''<br>'' (c # u)
        = (if c = CHR 0x0A then ''<br>'' else [c]) @ replaceAll (CHR 0x0A) ''<br>'' u"
    by (simp add: replaceAll_def)
  then show ?case using safeFrag_append [OF hd tl] by simp
qed

lemma safeFrag_formatted:
  "CHR ''<'' \<notin> set u \<Longrightarrow> safeFrag (replaceAll (CHR 0x0A) ''<br>'' (renderInlineMarkdown u))"
proof (induction u rule: renderInlineMarkdown.induct)
  case 1
  show ?case by (simp add: replaceAll_def safeFrag_Nil)
next
  case (2 c cs)
  show ?case
  proof (cases "matchBold (c # cs)")
    case None
    have hd: "safeFrag (replaceAll (CHR 0x0A) ''<br>'' [c])"
      using "2.prems" replaceAll_noLt_safe [of "[c]"] by simp
    have tl: "safeFrag (replaceAll (CHR 0x0A) ''<br>'' (renderInlineMarkdown cs))"
      using "2.IH"(1) [OF None] "2.prems" by simp
    have "replaceAll (CHR 0x0A) ''<br>'' (renderInlineMarkdown (c # cs))
          = replaceAll (CHR 0x0A) ''<br>'' [c] @ replaceAll (CHR 0x0A) ''<br>'' (renderInlineMarkdown cs)"
      using None replaceAll_append [of "CHR 0x0A" "''<br>''" "[c]" "renderInlineMarkdown cs"] by simp
    then show ?thesis using safeFrag_append [OF hd tl] by simp
  next
    case (Some p)
    obtain b r where p: "p = (b, r)" by (cases p)
    have nb: "CHR ''<'' \<notin> set b" and nr: "CHR ''<'' \<notin> set r"
      using matchBold_noLt [of "c # cs" b r] Some p "2.prems" by auto
    have rr: "safeFrag (replaceAll (CHR 0x0A) ''<br>'' (renderInlineMarkdown r))"
      using "2.IH"(2) [OF Some p [symmetric]] nr by simp
    have bb: "safeFrag (replaceAll (CHR 0x0A) ''<br>'' b)" using nb by (rule replaceAll_noLt_safe)
    have s1: "replaceAll (CHR 0x0A) ''<br>'' ''<strong>'' = ''<strong>''"
      and s2: "replaceAll (CHR 0x0A) ''<br>'' ''</strong>'' = ''</strong>''"
      by (simp_all add: replaceAll_def)
    have "replaceAll (CHR 0x0A) ''<br>'' (renderInlineMarkdown (c # cs))
          = ''<strong>'' @ replaceAll (CHR 0x0A) ''<br>'' b @ ''</strong>''
            @ replaceAll (CHR 0x0A) ''<br>'' (renderInlineMarkdown r)"
      using Some p by (simp add: replaceAll_append replaceAll_Cons)
    moreover have "safeFrag (''<strong>'' @ replaceAll (CHR 0x0A) ''<br>'' b @ ''</strong>''
            @ replaceAll (CHR 0x0A) ''<br>'' (renderInlineMarkdown r))"
      by (rule safeFrag_append [OF safeFrag_strong
            safeFrag_append [OF bb safeFrag_append [OF safeFrag_strong_close rr]]])
    ultimately show ?thesis by simp
  qed
qed

lemma safeFrag_indent: "safeFrag (indent n)"
  by (rule safeFrag_noLt) (simp add: indent_def)

lemma safeFrag_escapeHTML: "safeFrag (escapeHTML str)"
  by (rule safeFrag_noLt) (rule noLt_escapeHTML)

lemma safeFrag_templates:
  \<open>safeFrag ''<div class="text-left">''\<close>
  \<open>safeFrag ''<div class="inline-block bg-gray-200 text-gray-800 rounded-lg px-3 py-2">''\<close>
  \<open>safeFrag ''</div>''\<close>
  \<open>safeFrag ''<p class="text-xs text-gray-500 mt-1 border-l-2 pl-2 italic"><strong>Source:</strong> "''\<close>
  \<open>safeFrag ''"</p>''\<close>
  \<open>safeFrag ''<div class="text-left"><div class="bg-gray-200 text-gray-800 rounded-lg px-4 py-3 inline-block text-sm">''\<close>
  \<open>safeFrag ''</div></div>''\<close>
  \<open>safeFrag ''</ul>''\<close>
  \<open>safeFrag ''<ul class="list-disc list-inside space-y-1">''\<close>
  \<open>safeFrag ''<li>''\<close>
  \<open>safeFrag ''</li>''\<close>
  \<open>safeFrag ''<p class="mb-2">''\<close>
  \<open>safeFrag ''</p>''\<close>
  by (simp_all add: safeFrag_def sublist_Cons_right)

lemma asHeading_4: \<open>asHeading str 4 = ''<h4 class="font-semibold mb-2">'' @ escapeHTML str @ ''</h4>''\<close>
  by (simp add: asHeading_def showNat.simps)

lemma asHeading_5: \<open>asHeading str 5 = ''<h5 class="font-semibold mt-2 mb-1">'' @ escapeHTML str @ ''</h5>''\<close>
  by (simp add: asHeading_def showNat.simps)

lemma safeFrag_asHeading: "level = 4 \<or> level = 5 \<Longrightarrow> safeFrag (asHeading str level)"
proof -
  assume l: "level = 4 \<or> level = 5"
  have 4: "safeFrag (asHeading str 4)" unfolding asHeading_4
    by (intro safeFrag_append safeFrag_escapeHTML) (simp_all add: safeFrag_def sublist_Cons_right)
  have 5: "safeFrag (asHeading str 5)" unfolding asHeading_5
    by (intro safeFrag_append safeFrag_escapeHTML) (simp_all add: safeFrag_def sublist_Cons_right)
  show ?thesis using l 4 5 by blast
qed

lemma safeFrag_if: "safeFrag x \<Longrightarrow> safeFrag y \<Longrightarrow> safeFrag (if c then x else y)"
  by simp

lemma safeFrag_fst_if:
  "safeFrag (fst x) \<Longrightarrow> safeFrag (fst y) \<Longrightarrow> safeFrag (fst (if c then x else y))"
  by simp

lemma safeFrag_flushList: "safeFrag (fst st) \<Longrightarrow> safeFrag (fst (flushList st))"
  unfolding flushList_def
  by (intro safeFrag_fst_if; simp only: fst_conv; intro safeFrag_append safeFrag_templates; assumption)

lemma safeFrag_inline: "safeFrag (renderInlineMarkdown (escapeHTML str))"
  by (rule safeFrag_renderInlineMarkdown) (rule noLt_escapeHTML)

lemma safeFrag_oracleLine:
  assumes "safeFrag (fst st)"
  shows "safeFrag (fst (oracleLine st line))"
proof -
  note fl = safeFrag_flushList [OF assms]
  have a: \<open>safeFrag (fst (flushList st) @ asHeading ''Disclaimer'' 4
               @ ''<p class="mb-2">'' @ escapeHTML (trim (drop 11 line)) @ ''</p>'')\<close>
    by (intro safeFrag_append fl safeFrag_asHeading safeFrag_escapeHTML safeFrag_templates) simp
  have b: "safeFrag (fst (flushList st) @ asHeading x 4)" for x
    by (intro safeFrag_append fl safeFrag_asHeading) simp
  have c: "safeFrag (fst (flushList st) @ asHeading x 5)" for x
    by (intro safeFrag_append fl safeFrag_asHeading) simp
  have d: \<open>safeFrag ((if \<not> snd st then fst st @ ''<ul class="list-disc list-inside space-y-1">''
                   else fst st)
         @ ''<li>'' @ renderInlineMarkdown (escapeHTML (stripBullet line)) @ ''</li>'')\<close>
    by (intro safeFrag_append safeFrag_if safeFrag_inline safeFrag_templates assms)
  have e: \<open>safeFrag (fst st @ ''<p class="mb-2">'' @ renderInlineMarkdown (escapeHTML line) @ ''</p>'')\<close>
    by (intro safeFrag_append safeFrag_inline safeFrag_templates assms)
  show ?thesis
    unfolding oracleLine_def Let_def
    by (intro safeFrag_fst_if; simp only: fst_conv; rule a b c d e)
qed

lemma safeFrag_foldl_oracleLine:
  "safeFrag (fst st) \<Longrightarrow> safeFrag (fst (foldl oracleLine st lines))"
  by (induction lines arbitrary: st) (simp_all add: safeFrag_oracleLine)

lemma safeFrag_renderOracleAnswer: "safeFrag (renderOracleAnswer answer citation)"
proof -
  have simple: \<open>safeFrag (indent 16 @ ''<div class="text-left">''
               @ indent 20 @ ''<div class="inline-block bg-gray-200 text-gray-800 rounded-lg px-3 py-2">''
               @ replaceAll (CHR 0x0A) ''<br>'' (renderInlineMarkdown (escapeHTML answer)) @ ''</div>''
               @ indent 20
               @ (if citation \<noteq> [] then
                    ''<p class="text-xs text-gray-500 mt-1 border-l-2 pl-2 italic"><strong>Source:</strong> "''
                    @ escapeHTML citation @ ''"</p>''
                  else [])
               @ indent 16 @ ''</div>'')\<close>
  proof -
    have cit: \<open>safeFrag (if citation \<noteq> [] then
                    ''<p class="text-xs text-gray-500 mt-1 border-l-2 pl-2 italic"><strong>Source:</strong> "''
                    @ escapeHTML citation @ ''"</p>''
                  else [])\<close>
      by (intro safeFrag_if safeFrag_Nil safeFrag_append safeFrag_escapeHTML safeFrag_templates)
    show ?thesis
      by (intro safeFrag_append safeFrag_indent safeFrag_templates cit
            safeFrag_formatted noLt_escapeHTML)
  qed
  have multi: \<open>safeFrag (fst (flushList (foldl oracleLine
                       (''<div class="text-left"><div class="bg-gray-200 text-gray-800 rounded-lg px-4 py-3 inline-block text-sm">'',
                        False) lines)) @ ''</div></div>'')\<close> for lines
    by (intro safeFrag_append safeFrag_flushList safeFrag_foldl_oracleLine safeFrag_templates)
       (simp only: fst_conv safeFrag_templates)
  show ?thesis unfolding renderOracleAnswer_def Let_def
    by (intro safeFrag_if simple multi)
qed

lemma matchBold_no_star: "c \<noteq> CHR ''*'' \<Longrightarrow> matchBold (c # cs) = None"
  by (simp add: matchBold_def split: list.splits)

lemma prefix_renderInlineMarkdown:
  "CHR ''*'' \<notin> set w \<Longrightarrow> prefix w u \<Longrightarrow> prefix w (renderInlineMarkdown u)"
proof (induction w arbitrary: u)
  case Nil
  show ?case by simp
next
  case (Cons x w)
  obtain u' where u: "u = x # u'" and p: "prefix w u'"
    using Cons.prems(2) by (cases u) auto
  have "matchBold (x # u') = None" using Cons.prems(1) by (intro matchBold_no_star) auto
  then have "renderInlineMarkdown u = x # renderInlineMarkdown u'" by (simp add: u)
  then show ?case using Cons.IH [OF _ p] Cons.prems(1) by simp
qed

lemma sublist_split_star:
  assumes "CHR ''*'' \<notin> set w" and "sublist w (a @ CHR ''*'' # b)"
  shows "sublist w a \<or> sublist w b"
  using assms(2)
proof (induction a)
  case Nil
  then have "prefix w (CHR ''*'' # b) \<or> sublist w b" by (simp add: sublist_Cons_right)
  moreover have "w = []" if "prefix w (CHR ''*'' # b)"
    using that assms(1) by (cases w) auto
  ultimately show ?case by auto
next
  case (Cons x a)
  then have "prefix w ((x # a) @ CHR ''*'' # b) \<or> sublist w (a @ CHR ''*'' # b)"
    by (simp add: sublist_Cons_right)
  then show ?case
  proof
    assume "prefix w ((x # a) @ CHR ''*'' # b)"
    then have "prefix w (x # a) \<or> (\<exists>us. w = (x # a) @ us \<and> prefix us (CHR ''*'' # b))"
      by (simp only: prefix_append)
    then have "prefix w (x # a)"
    proof
      assume "prefix w (x # a)" then show ?thesis .
    next
      assume "\<exists>us. w = (x # a) @ us \<and> prefix us (CHR ''*'' # b)"
      then obtain us where w: "w = (x # a) @ us" and us: "prefix us (CHR ''*'' # b)" by blast
      have "us = []" using us w assms(1) by (cases us) auto
      then show ?thesis using w by simp
    qed
    then show ?thesis by (auto intro: prefix_imp_sublist)
  next
    assume "sublist w (a @ CHR ''*'' # b)"
    then have "sublist w a \<or> sublist w b" by (rule Cons.IH)
    then show ?thesis by (auto simp: sublist_Cons_right)
  qed
qed

lemma sublist_inside: "sublist w b \<Longrightarrow> sublist w (x @ b @ y)"
proof -
  assume "sublist w b"
  then obtain ps ss where "b = ps @ w @ ss" by (auto simp: sublist_def)
  then have "x @ b @ y = (x @ ps) @ w @ (ss @ y)" by simp
  then show ?thesis unfolding sublist_def by blast
qed

lemma sublist_renderInlineMarkdown:
  "CHR ''*'' \<notin> set w \<Longrightarrow> sublist w u \<Longrightarrow> sublist w (renderInlineMarkdown u)"
proof (induction u rule: renderInlineMarkdown.induct)
  case 1
  then show ?case by simp
next
  case (2 c cs)
  show ?case
  proof (cases "matchBold (c # cs)")
    case None
    have r: "renderInlineMarkdown (c # cs) = c # renderInlineMarkdown cs" using None by simp
    from "2.prems"(2) have "prefix w (c # cs) \<or> sublist w cs" by (simp add: sublist_Cons_right)
    then show ?thesis
    proof
      assume "prefix w (c # cs)"
      then have "prefix w (renderInlineMarkdown (c # cs))"
        using "2.prems"(1) by (intro prefix_renderInlineMarkdown)
      then show ?thesis by (rule prefix_imp_sublist)
    next
      assume "sublist w cs"
      then have "sublist w (renderInlineMarkdown cs)" using "2.IH"(1) [OF None "2.prems"(1)] by simp
      then show ?thesis unfolding r by (simp add: sublist_Cons_right)
    qed
  next
    case (Some p)
    obtain b r where p: "p = (b, r)" by (cases p)
    have u: "c # cs = [] @ CHR ''*'' # ([] @ CHR ''*'' # (b @ CHR ''*'' # ([] @ CHR ''*'' # r)))"
      using matchBold_split [of "c # cs" b r] Some p by simp
    have "sublist w b \<or> sublist w r"
    proof -
      from "2.prems"(2) u
      have "sublist w ([] @ CHR ''*'' # ([] @ CHR ''*'' # (b @ CHR ''*'' # ([] @ CHR ''*'' # r))))"
        by simp
      then have "sublist w [] \<or> sublist w ([] @ CHR ''*'' # (b @ CHR ''*'' # ([] @ CHR ''*'' # r)))"
        by (rule sublist_split_star [OF "2.prems"(1)])
      then have "sublist w [] \<or> sublist w (b @ CHR ''*'' # ([] @ CHR ''*'' # r))"
        using sublist_split_star [OF "2.prems"(1)] by blast
      then have "sublist w [] \<or> sublist w b \<or> sublist w ([] @ CHR ''*'' # r)"
        using sublist_split_star [OF "2.prems"(1)] by blast
      then have "sublist w [] \<or> sublist w b \<or> sublist w r"
        using sublist_split_star [OF "2.prems"(1)] by blast
      moreover have "sublist w [] \<Longrightarrow> sublist w b" by simp
      ultimately show ?thesis by blast
    qed
    then have "sublist w (''<strong>'' @ b @ (''</strong>'' @ renderInlineMarkdown r))"
    proof
      assume "sublist w b"
      then show ?thesis by (rule sublist_inside)
    next
      assume "sublist w r"
      then have "sublist w (renderInlineMarkdown r)"
        using "2.IH"(2) [OF Some p [symmetric] "2.prems"(1)] by simp
      then have "sublist w ((''<strong>'' @ b @ ''</strong>'') @ renderInlineMarkdown r @ [])"
        by (rule sublist_inside)
      then show ?thesis by simp
    qed
    moreover have "renderInlineMarkdown (c # cs)
        = ''<strong>'' @ b @ (''</strong>'' @ renderInlineMarkdown r)"
      using Some p by simp
    ultimately show ?thesis by (simp only:)
  qed
qed

lemma escaped_script_survives:
  assumes "sublist ''<script>'' str"
  shows "sublist ''&lt;script&gt;'' (renderInlineMarkdown (escapeHTML str))"
proof -
  obtain a b where "str = a @ ''<script>'' @ b" using assms by (auto simp: sublist_def)
  then have "escapeHTML str = escapeHTML a @ escapeHTML ''<script>'' @ escapeHTML b"
    by (simp only: escapeHTML_append)
  moreover have "escapeHTML ''<script>'' = ''&lt;script&gt;''"
    by (simp add: escapeHTML_def replaceAll_def)
  ultimately have "sublist ''&lt;script&gt;'' (escapeHTML str)" by (simp only: sublist_appendI)
  then show ?thesis by (intro sublist_renderInlineMarkdown) simp_all
qed

text \<open>
  Claim C4. For every input string, the composition the answer renderer uses
  (\<open>renderInlineMarkdown\<close> applied to \<open>escapeHTML\<close> of the input) never holds the
  tag \<open><script>\<close>; when the input holds \<open><script>\<close>, the output holds it as the escaped
  text \<open>&lt;script&gt;\<close>; and no answer and citation make \<open>renderOracleAnswer\<close>, in
  either branch, produce markup that holds \<open><script>\<close>.
\<close>

theorem renderer_never_reopens_tags:
  "\<not> sublist ''<script>'' (renderInlineMarkdown (escapeHTML str))
   \<and> (sublist ''<script>'' str \<longrightarrow> sublist ''&lt;script&gt;'' (renderInlineMarkdown (escapeHTML str)))
   \<and> \<not> sublist ''<script>'' (renderOracleAnswer answer citation)"
  using safeFrag_not_sublist [OF safeFrag_inline] safeFrag_not_sublist [OF safeFrag_renderOracleAnswer]
    escaped_script_survives by blast

theorem renderer_never_reopens_tags_witness:
  "sublist ''<script>'' ''**<script>**alert(1)''
   \<and> renderInlineMarkdown (escapeHTML ''**<script>**alert(1)'') = ''<strong>&lt;script&gt;</strong>alert(1)''
   \<and> sublist ''&lt;script&gt;'' (renderInlineMarkdown (escapeHTML ''**<script>**alert(1)''))"
proof -
  have a: "sublist ''<script>'' ''**<script>**alert(1)''"
    using sublist_appendI [of "''<script>''" "''**''" "''**alert(1)''"] by simp
  have b: "renderInlineMarkdown (escapeHTML ''**<script>**alert(1)'') = ''<strong>&lt;script&gt;</strong>alert(1)''"
    by (simp add: escapeHTML_def replaceAll_def matchBold_def isLineTerminator_def)
  have c: "sublist ''&lt;script&gt;'' (renderInlineMarkdown (escapeHTML ''**<script>**alert(1)''))"
    using renderer_never_reopens_tags [of "''**<script>**alert(1)''"] a by blast
  show ?thesis using a b c by blast
qed


section \<open>Deleting an analysis\<close>

lemma app_showNotification: "app (showNotification m k w) = app w"
  by (simp add: showNotification_def)

lemma app_renderDashboardList: "app (renderDashboardList ev w) = app w"
  by (simp add: renderDashboardList_def Let_def)

lemma dom_showNotification:
  "''notification-container'' \<in> present (dom w) \<Longrightarrow>
     dom (showNotification m k w) = (dom w)\<lparr>notifications := notifications (dom w) @ [(m, k)]\<rparr>"
  by (simp add: showNotification_def)

lemma notifications_renderDashboardList:
  "notifications (dom (renderDashboardList ev w)) = notifications (dom w)"
  and present_renderDashboardList: "present (dom (renderDashboardList ev w)) = present (dom w)"
  by (simp_all add: renderDashboardList_def Let_def)

lemma deleteConfirmed_failure:
  assumes "deleteCall ev ident w = Inl err"
  shows "deleteConfirmed ev ident w = showNotification ''Failed to delete analysis.'' ''error'' w"
  using assms by (simp add: deleteConfirmed_def)

lemma deleteConfirmed_success:
  assumes "deleteCall ev ident w = Inr ok"
  shows "dashboardItems (app (deleteConfirmed ev ident w))
         = filter (\<lambda>x. item_id x \<noteq> Some ident) (dashboardItems (app w))"
    and "''notification-container'' \<in> present (dom w) \<Longrightarrow>
         notifications (dom (deleteConfirmed ev ident w))
         = notifications (dom w) @ [(''Analysis deleted successfully.'', ''success'')]"
  using assms
  by (simp_all add: deleteConfirmed_def Let_def app_showNotification
      app_renderDashboardList dom_showNotification present_renderDashboardList
      notifications_renderDashboardList)

text \<open>
  Claim C6. For every dashboard item and every server: when the DELETE call fails, the
  app state (and with it \<open>dashboardItems\<close>) and the rendered list are unchanged and the
  error notification is shown; when it succeeds, the items with that id are removed and the
  success notification is shown; and a click on a delete button changes
  \<open>dashboardItems\<close> only when the user confirmed and the DELETE call succeeded.
\<close>

theorem delete_after_server_confirms:
  "(deleteCall ev ident w = Inl err \<longrightarrow>
      app (deleteConfirmed ev ident w) = app w
      \<and> analysesList (dom (deleteConfirmed ev ident w)) = analysesList (dom w)
      \<and> (''notification-container'' \<in> present (dom w) \<longrightarrow>
           notifications (dom (deleteConfirmed ev ident w))
           = notifications (dom w) @ [(''Failed to delete analysis.'', ''error'')]))
   \<and> (deleteCall ev ident w = Inr ok \<longrightarrow>
      dashboardItems (app (deleteConfirmed ev ident w))
        = filter (\<lambda>x. item_id x \<noteq> Some ident) (dashboardItems (app w))
      \<and> (''notification-container'' \<in> present (dom w) \<longrightarrow>
           notifications (dom (deleteConfirmed ev ident w))
           = notifications (dom w) @ [(''Analysis deleted successfully.'', ''success'')]))
   \<and> (dashboardItems (app (deleteClicked ev idAttr confirmed w)) \<noteq> dashboardItems (app w) \<longrightarrow>
      confirmed \<and> (\<exists>i body. parseInt idAttr = Some i \<and> deleteCall ev i w = Inr body))"
proof (intro conjI impI)
  assume f: "deleteCall ev ident w = Inl err"
  show "app (deleteConfirmed ev ident w) = app w"
    by (simp add: deleteConfirmed_failure [OF f] app_showNotification)
  show "analysesList (dom (deleteConfirmed ev ident w)) = analysesList (dom w)"
    by (simp add: deleteConfirmed_failure [OF f] showNotification_def)
  show "notifications (dom (deleteConfirmed ev ident w))
           = notifications (dom w) @ [(''Failed to delete analysis.'', ''error'')]"
    if "''notification-container'' \<in> present (dom w)"
    using that by (simp add: deleteConfirmed_failure [OF f] dom_showNotification)
next
  assume s: "deleteCall ev ident w = Inr ok"
  show "dashboardItems (app (deleteConfirmed ev ident w))
        = filter (\<lambda>x. item_id x \<noteq> Some ident) (dashboardItems (app w))"
    by (rule deleteConfirmed_success(1) [OF s])
  show "notifications (dom (deleteConfirmed ev ident w))
           = notifications (dom w) @ [(''Analysis deleted successfully.'', ''success'')]"
    if "''notification-container'' \<in> present (dom w)"
    using that by (rule deleteConfirmed_success(2) [OF s])
next
  assume ch: "dashboardItems (app (deleteClicked ev idAttr confirmed w)) \<noteq> dashboardItems (app w)"
  show "confirmed" using ch by (auto simp: deleteClicked_def split: option.splits if_splits)
  show "\<exists>i body. parseInt idAttr = Some i \<and> deleteCall ev i w = Inr body"
  proof (cases "parseInt idAttr")
    case None
    then show ?thesis using ch by (simp add: deleteClicked_def)
  next
    case (Some i)
    have c: "deleteClicked ev idAttr confirmed w = deleteConfirmed ev i w"
      using ch Some by (auto simp: deleteClicked_def split: if_splits)
    show ?thesis
    proof (cases "deleteCall ev i w")
      case (Inl e)
      then have "app (deleteConfirmed ev i w) = app w"
        by (simp add: deleteConfirmed_failure app_showNotification)
      then show ?thesis using ch c by simp
    next
      case (Inr body)
      then show ?thesis using Some by blast
    qed
  qed
qed

theorem delete_after_server_confirms_witness:
  "deleteCall exampleEnv 2 exampleWorld = Inl NetworkError
   \<and> app (deleteConfirmed exampleEnv 2 exampleWorld) = app exampleWorld
   \<and> notifications (dom (deleteConfirmed exampleEnv 2 exampleWorld))
       = [(''Failed to delete analysis.'', ''error'')]
   \<and> deleteCall exampleEnvOk 2 exampleWorld = Inr (JObj [])
   \<and> dashboardItems (app (deleteConfirmed exampleEnvOk 2 exampleWorld)) = [item1, item3]
   \<and> notifications (dom (deleteConfirmed exampleEnvOk 2 exampleWorld))
       = [(''Analysis deleted successfully.'', ''success'')]
   \<and> dashboardItems (app (deleteClicked exampleEnvOk ''2'' True exampleWorld)) = [item1, item3]
   \<and> dashboardItems (app exampleWorld) = [item1, item2, item3]"
proof -
  have f: "deleteCall exampleEnv 2 exampleWorld = Inl NetworkError"
    by (simp add: deleteCall_def apiCall_def exampleEnv_def)
  have s: "deleteCall exampleEnvOk 2 exampleWorld = Inr (JObj [])"
    by (simp add: deleteCall_def apiCall_def handleResponse_def exampleEnvOk_def exampleEnv_def)
  have p: "''notification-container'' \<in> present (dom exampleWorld)"
    and n: "notifications (dom exampleWorld) = []"
    and i: "dashboardItems (app exampleWorld) = [item1, item2, item3]"
    by (simp_all add: exampleWorld_def examplePage_def initialApp_def)
  have fl: "filter (\<lambda>x. item_id x \<noteq> Some 2) [item1, item2, item3] = [item1, item3]"
    by (simp add: item1_def item2_def item3_def)
  have pi: "parseInt ''2'' = Some 2"
    by (simp add: parseInt_def isSpace_def digitValue_def Let_def)
  note t1 = delete_after_server_confirms [of exampleEnv 2 exampleWorld NetworkError]
  note t2 = delete_after_server_confirms [of exampleEnvOk 2 exampleWorld _ "JObj []"]
  have a: "app (deleteConfirmed exampleEnv 2 exampleWorld) = app exampleWorld"
    and b: "notifications (dom (deleteConfirmed exampleEnv 2 exampleWorld))
       = [(''Failed to delete analysis.'', ''error'')]"
    using t1 f p n by simp_all
  have c: "dashboardItems (app (deleteConfirmed exampleEnvOk 2 exampleWorld)) = [item1, item3]"
    and d: "notifications (dom (deleteConfirmed exampleEnvOk 2 exampleWorld))
       = [(''Analysis deleted successfully.'', ''success'')]"
    using t2 s p n i fl by simp_all
  have e: "dashboardItems (app (deleteClicked exampleEnvOk ''2'' True exampleWorld)) = [item1, item3]"
    using c pi by (simp add: deleteClicked_def)
  show ?thesis using f s a b c d e i by blast
qed


section \<open>The chat\<close>

lemma app_appendEntry: "app (appendEntry t e w) = app w"
  by (cases t) (simp_all add: appendEntry_def)

lemma app_setBubble: "app (setBubble i b w) = app w"
  by (simp add: setBubble_def split: option.splits)

lemma notifications_appendEntry: "notifications (dom (appendEntry t e w)) = notifications (dom w)"
  by (cases t) (simp_all add: appendEntry_def)

lemma notifications_setBubble: "notifications (dom (setBubble i b w)) = notifications (dom w)"
  by (simp add: setBubble_def split: option.splits)

lemma setBubble_panel:
  assumes "''conversation-log'' \<in> present (dom w)"
    and "replaceFirst i b (conversationLog (dom w)) = Some es"
  shows "setBubble i b w = w\<lparr>dom := (dom w)\<lparr>conversationLog := es\<rparr>\<rparr>"
  using assms by (simp add: setBubble_def)

lemma setBubble_popup:
  assumes "''conversation-log'' \<in> present (dom w) \<longrightarrow> replaceFirst i b (conversationLog (dom w)) = None"
    and "popupLog (dom w) = Some ps" and "replaceFirst i b ps = Some es"
  shows "setBubble i b w = w\<lparr>dom := (dom w)\<lparr>popupLog := Some es\<rparr>\<rparr>"
  using assms by (auto simp: setBubble_def)

lemma replaceFirst_fresh: "Some i \<notin> fst ` set es \<Longrightarrow> replaceFirst i b es = None"
  by (induction es) auto

lemma replaceFirst_last:
  "Some i \<notin> fst ` set es \<Longrightarrow> replaceFirst i b (es @ [(Some i, old)]) = Some (es @ [(Some i, b)])"
  by (induction es) auto

lemma queryTry_failure:
  assumes "extracted_text (currentAnalysis (app w)) = Some pages"
    and "queryCall ev q pages (app w) = Inl e"
  shows "queryTry ev q tid w = Inl e"
  using assms by (simp add: queryTry_def)

lemma app_withBubbles: "app (withBubbles ev q w) = app w"
  by (simp add: withBubbles_def app_appendEntry split: option.splits)

lemma notifications_withBubbles: "notifications (dom (withBubbles ev q w)) = notifications (dom w)"
  by (simp add: withBubbles_def notifications_appendEntry split: option.splits)

lemma handleQuery_failure:
  assumes "extracted_text (currentAnalysis (app w)) = Some pages"
    and "queryCall ev q pages (app w) = Inl e"
  shows "handleQuery ev q w =
     (case targetLog w of
        None \<Rightarrow> w
      | Some t \<Rightarrow> setBubble (thinkingIdOf ev) (ErrorBubble (messageOf ev e))
                    (withBubbles ev q w))"
proof -
  have "queryTry ev q tid (withBubbles ev q w) = Inl e" for tid
    using assms by (intro queryTry_failure) (simp_all add: app_withBubbles)
  then show ?thesis
    by (simp add: handleQuery_def Let_def withBubbles_def split: option.splits)
qed

lemma handleQuery_failure_panel:
  assumes "extracted_text (currentAnalysis (app w)) = Some pages"
    and "queryCall ev q pages (app w) = Inl e"
    and "popupLog (dom w) = None" and "''conversation-log'' \<in> present (dom w)"
    and "Some (thinkingIdOf ev) \<notin> fst ` set (conversationLog (dom w))"
  shows "conversationLog (dom (handleQuery ev q w))
         = conversationLog (dom w)
           @ [(None, UserBubble q),
              (Some (thinkingIdOf ev), ErrorBubble (messageOf ev e))]"
proof -
  let ?i = "thinkingIdOf ev"
  have t: "targetLog w = Some PanelLog" using assms(3,4) by (simp add: targetLog_def)
  have wb: "conversationLog (dom (withBubbles ev q w))
            = (conversationLog (dom w) @ [(None, UserBubble q)]) @ [(Some ?i, ThinkingBubble)]"
    and pr: "present (dom (withBubbles ev q w)) = present (dom w)"
    using assms(3) t by (simp_all add: withBubbles_def appendEntry_def)
  have fresh: "Some ?i \<notin> fst ` set (conversationLog (dom w) @ [(None, UserBubble q)])"
    using assms(5) by simp
  have "replaceFirst ?i (ErrorBubble (messageOf ev e)) (conversationLog (dom (withBubbles ev q w)))
        = Some ((conversationLog (dom w) @ [(None, UserBubble q)]) @ [(Some ?i, ErrorBubble (messageOf ev e))])"
    unfolding wb by (rule replaceFirst_last [OF fresh])
  then have "setBubble ?i (ErrorBubble (messageOf ev e)) (withBubbles ev q w)
      = (withBubbles ev q w)\<lparr>dom := (dom (withBubbles ev q w))\<lparr>conversationLog :=
          (conversationLog (dom w) @ [(None, UserBubble q)]) @ [(Some ?i, ErrorBubble (messageOf ev e))]\<rparr>\<rparr>"
    using pr assms(4) by (intro setBubble_panel) simp_all
  then show ?thesis
    using handleQuery_failure [OF assms(1,2)] t by simp
qed

lemma handleQuery_failure_popup:
  assumes "extracted_text (currentAnalysis (app w)) = Some pages"
    and "queryCall ev q pages (app w) = Inl e"
    and "popupLog (dom w) = Some ps"
    and "Some (thinkingIdOf ev) \<notin> fst ` set ps"
    and "''conversation-log'' \<in> present (dom w) \<longrightarrow>
         Some (thinkingIdOf ev) \<notin> fst ` set (conversationLog (dom w))"
  shows "popupLog (dom (handleQuery ev q w))
         = Some (ps @ [(Some (thinkingIdOf ev), ErrorBubble (messageOf ev e))])"
proof -
  let ?i = "thinkingIdOf ev"
  have t: "targetLog w = Some PopupLog" using assms(3) by (simp add: targetLog_def)
  have wb: "popupLog (dom (withBubbles ev q w)) = Some (ps @ [(Some ?i, ThinkingBubble)])"
    and cl: "conversationLog (dom (withBubbles ev q w)) = conversationLog (dom w)"
    and pr: "present (dom (withBubbles ev q w)) = present (dom w)"
    using assms(3) t by (simp_all add: withBubbles_def appendEntry_def)
  have panel: "''conversation-log'' \<in> present (dom (withBubbles ev q w)) \<longrightarrow>
      replaceFirst ?i (ErrorBubble (messageOf ev e)) (conversationLog (dom (withBubbles ev q w))) = None"
    using assms(5) by (simp add: cl pr replaceFirst_fresh)
  have "replaceFirst ?i (ErrorBubble (messageOf ev e)) (ps @ [(Some ?i, ThinkingBubble)])
        = Some (ps @ [(Some ?i, ErrorBubble (messageOf ev e))])"
    by (rule replaceFirst_last [OF assms(4)])
  then have "setBubble ?i (ErrorBubble (messageOf ev e)) (withBubbles ev q w)
      = (withBubbles ev q w)\<lparr>dom := (dom (withBubbles ev q w))\<lparr>popupLog :=
          Some (ps @ [(Some ?i, ErrorBubble (messageOf ev e))])\<rparr>\<rparr>"
    using panel wb by (intro setBubble_popup) simp_all
  then show ?thesis
    using handleQuery_failure [OF assms(1,2)] t by simp
qed

text \<open>
  Claim C10. When the \<open>/query\<close> call of \<open>handleQuery\<close> fails, the app state, and with it
  \<open>conversationHistory\<close>, is exactly as it was before the query: neither an assistant
  turn nor a user turn is appended; no notification is shown; with the popup closed and a
  conversation log on the page, the log ends with the user bubble and, in place of the
  placeholder, the error bubble with the message of the error. When the query comes from
  the popup, its submit handler has appended the user turn before it calls
  \<open>handleQuery\<close>: after a failed call the history is the old one and that user turn, and
  the popup log ends with the user bubble and the error bubble.
\<close>

theorem handleQuery_failure_keeps_history:
  "(extracted_text (currentAnalysis (app w)) = Some pages \<and> queryCall ev q pages (app w) = Inl e \<longrightarrow>
      conversationHistory (app (handleQuery ev q w)) = conversationHistory (app w)
      \<and> app (handleQuery ev q w) = app w
      \<and> notifications (dom (handleQuery ev q w)) = notifications (dom w)
      \<and> (popupLog (dom w) = None \<and> ''conversation-log'' \<in> present (dom w)
           \<and> Some (thinkingIdOf ev) \<notin> fst ` set (conversationLog (dom w)) \<longrightarrow>
         conversationLog (dom (handleQuery ev q w))
           = conversationLog (dom w)
             @ [(None, UserBubble q),
                (Some (thinkingIdOf ev), ErrorBubble (messageOf ev e))]))
   \<and> (trim inputText \<noteq> [] \<and> popupLog (dom w) = Some ps
       \<and> extracted_text (currentAnalysis (app w)) = Some pages
       \<and> queryCall ev (trim inputText) pages
            ((app w)\<lparr>conversationHistory := conversationHistory (app w) @ [userTurn (trim inputText)]\<rparr>)
          = Inl e
       \<and> Some (thinkingIdOf ev) \<notin> fst ` set ps
       \<and> Some (thinkingIdOf ev) \<notin> fst ` set (conversationLog (dom w)) \<longrightarrow>
      conversationHistory (app (popupSubmit ev inputText w))
        = conversationHistory (app w) @ [userTurn (trim inputText)]
      \<and> popupLog (dom (popupSubmit ev inputText w))
        = Some (ps @ [(None, UserBubble (escapeHTML (trim inputText))),
                      (Some (thinkingIdOf ev), ErrorBubble (messageOf ev e))]))"
proof (intro conjI impI)
  assume h: "extracted_text (currentAnalysis (app w)) = Some pages \<and> queryCall ev q pages (app w) = Inl e"
  then have h1: "extracted_text (currentAnalysis (app w)) = Some pages"
    and h2: "queryCall ev q pages (app w) = Inl e" by simp_all
  note hf = handleQuery_failure [OF h1 h2]
  show a: "app (handleQuery ev q w) = app w"
    by (simp add: hf app_setBubble app_withBubbles split: option.splits)
  show "conversationHistory (app (handleQuery ev q w)) = conversationHistory (app w)"
    by (simp add: a)
  show "notifications (dom (handleQuery ev q w)) = notifications (dom w)"
    by (simp add: hf notifications_setBubble notifications_withBubbles split: option.splits)
  show "conversationLog (dom (handleQuery ev q w))
           = conversationLog (dom w)
             @ [(None, UserBubble q),
                (Some (thinkingIdOf ev), ErrorBubble (messageOf ev e))]"
    if "popupLog (dom w) = None \<and> ''conversation-log'' \<in> present (dom w)
           \<and> Some (thinkingIdOf ev) \<notin> fst ` set (conversationLog (dom w))"
    using that handleQuery_failure_panel [OF h1 h2] by blast
next
  assume h: "trim inputText \<noteq> [] \<and> popupLog (dom w) = Some ps
       \<and> extracted_text (currentAnalysis (app w)) = Some pages
       \<and> queryCall ev (trim inputText) pages
            ((app w)\<lparr>conversationHistory := conversationHistory (app w) @ [userTurn (trim inputText)]\<rparr>)
          = Inl e
       \<and> Some (thinkingIdOf ev) \<notin> fst ` set ps
       \<and> Some (thinkingIdOf ev) \<notin> fst ` set (conversationLog (dom w))"
  let ?q = "trim inputText"
  let ?i = "thinkingIdOf ev"
  let ?w1 = "appendEntry PopupLog (None, UserBubble (escapeHTML ?q)) w"
  let ?w2 = "?w1\<lparr>app := (app ?w1)\<lparr>conversationHistory := conversationHistory (app ?w1) @ [userTurn ?q]\<rparr>\<rparr>"
  have ps: "popupSubmit ev inputText w = handleQuery ev ?q ?w2"
    using h by (simp add: popupSubmit_def Let_def)
  have app2: "app ?w2 = (app w)\<lparr>conversationHistory := conversationHistory (app w) @ [userTurn ?q]\<rparr>"
    by (simp add: app_appendEntry)
  have et: "extracted_text (currentAnalysis (app ?w2)) = Some pages" using h by (simp add: app2)
  have qc: "queryCall ev ?q pages (app ?w2) = Inl e" using h by (simp only: app2)
  have pl: "popupLog (dom ?w2) = Some (ps @ [(None, UserBubble (escapeHTML ?q))])"
    and cl: "conversationLog (dom ?w2) = conversationLog (dom w)"
    using h by (simp_all add: appendEntry_def)
  have fr: "Some ?i \<notin> fst ` set (ps @ [(None, UserBubble (escapeHTML ?q))])" using h by simp
  have fr2: "''conversation-log'' \<in> present (dom ?w2) \<longrightarrow> Some ?i \<notin> fst ` set (conversationLog (dom ?w2))"
    using h by (simp add: appendEntry_def)
  have hf: "handleQuery ev ?q ?w2 = (case targetLog ?w2 of None \<Rightarrow> ?w2
      | Some t \<Rightarrow> setBubble ?i (ErrorBubble (messageOf ev e)) (withBubbles ev ?q ?w2))"
    by (rule handleQuery_failure [OF et qc])
  have "app (handleQuery ev ?q ?w2) = app ?w2"
    unfolding hf by (simp add: app_setBubble app_withBubbles split: option.splits)
  then show "conversationHistory (app (popupSubmit ev inputText w))
        = conversationHistory (app w) @ [userTurn (trim inputText)]"
    unfolding ps by (simp add: app_appendEntry)
  show "popupLog (dom (popupSubmit ev inputText w))
        = Some (ps @ [(None, UserBubble (escapeHTML (trim inputText))),
                      (Some (thinkingIdOf ev), ErrorBubble (messageOf ev e))])"
    unfolding ps using handleQuery_failure_popup [OF et qc pl fr fr2] by simp
qed

theorem handleQuery_failure_keeps_history_witness:
  "queryCall exampleEnv ''why?'' [Some ''Pay <fee> & penalty.'', None] (app exampleChatWorld)
     = Inl NetworkError
   \<and> conversationHistory (app (handleQuery exampleEnv ''why?'' exampleChatWorld)) = [userTurn ''hello'']
   \<and> notifications (dom (handleQuery exampleEnv ''why?'' exampleChatWorld)) = []
   \<and> conversationLog (dom (handleQuery exampleEnv ''why?'' exampleChatWorld))
       = [(None, UserBubble ''why?''), (Some (thinkingIdOf exampleEnv), ErrorBubble ''Failed to fetch'')]
   \<and> conversationHistory (app (popupSubmit exampleEnv '' why? '' (openChatPopup exampleChatWorld)))
       = [userTurn ''hello'', userTurn ''why?'']
   \<and> popupLog (dom (popupSubmit exampleEnv '' why? '' (openChatPopup exampleChatWorld)))
       = Some (map historyBubble [userTurn ''hello'']
               @ [(None, UserBubble ''why?''),
                  (Some (thinkingIdOf exampleEnv), ErrorBubble ''Failed to fetch'')])"
proof -
  let ?pages = "[Some ''Pay <fee> & penalty.'', None]"
  let ?w = exampleChatWorld
  let ?p = "openChatPopup exampleChatWorld"
  have fail: "queryCall exampleEnv q ?pages st = Inl NetworkError" for q st
    by (simp add: queryCall_def apiCall_def exampleEnv_def)
  have et: "extracted_text (currentAnalysis (app ?w)) = Some ?pages"
    and h: "conversationHistory (app ?w) = [userTurn ''hello'']"
    and n: "notifications (dom ?w) = []"
    and pl: "popupLog (dom ?w) = None"
    and cp: "''conversation-log'' \<in> present (dom ?w)"
    and cl: "conversationLog (dom ?w) = []"
    by (simp_all add: exampleChatWorld_def exampleWorld_def examplePage_def exampleAnalysis_def
        initialApp_def)
  have m: "messageOf exampleEnv NetworkError = ''Failed to fetch''"
    by (simp add: messageOf_def exampleEnv_def)
  have tr: "trim '' why? '' = ''why?''"
    by (simp add: trim_def isSpace_def)
  have app_p: "app ?p = app ?w" and pl_p: "popupLog (dom ?p) = Some (map historyBubble [userTurn ''hello''])"
    and cl_p: "conversationLog (dom ?p) = []"
    using h cl by (simp_all add: openChatPopup_def)
  have fresh: "Some (thinkingIdOf exampleEnv) \<notin> fst ` set (map historyBubble [userTurn ''hello''])"
    by (simp add: historyBubble_def)
  note t1 = handleQuery_failure_keeps_history
    [where w = ?w and pages = ?pages and ev = exampleEnv and q = "''why?''" and e = NetworkError]
  note t2 = handleQuery_failure_keeps_history
    [where w = ?p and pages = ?pages and ev = exampleEnv and e = NetworkError
       and inputText = "'' why? ''" and ps = "map historyBubble [userTurn ''hello'']"]
  have a: "conversationHistory (app (handleQuery exampleEnv ''why?'' ?w)) = [userTurn ''hello'']"
    and b: "notifications (dom (handleQuery exampleEnv ''why?'' ?w)) = []"
    and c: "conversationLog (dom (handleQuery exampleEnv ''why?'' ?w))
       = [(None, UserBubble ''why?''), (Some (thinkingIdOf exampleEnv), ErrorBubble ''Failed to fetch'')]"
    using t1 fail et h n pl cp cl m by simp_all
  have d: "conversationHistory (app (popupSubmit exampleEnv '' why? '' ?p))
       = [userTurn ''hello'', userTurn ''why?'']"
    and e: "popupLog (dom (popupSubmit exampleEnv '' why? '' ?p))
       = Some (map historyBubble [userTurn ''hello'']
               @ [(None, UserBubble ''why?''),
                  (Some (thinkingIdOf exampleEnv), ErrorBubble ''Failed to fetch'')])"
    using t2 fail et h tr app_p pl_p cl_p fresh m
    by (simp_all add: escapeHTML_def replaceAll_def)
  show ?thesis using fail a b c d e by blast
qed


section \<open>The views, and what a reload restores\<close>

subsection \<open>The containers after showState\<close>

lemma container_ids:
  "set (map snd containers) =
     {''login-container'', ''register-container'', ''dashboard-container'', ''upload-container'',
      ''loading-container'', ''error-container'', ''results-container'', ''landing-container''}"
  by (simp add: containers_def)














subsection \<open>The analysis id read back by parseInt\<close>
















subsection \<open>renderResults, the dashboard and the reload\<close>

lemma shownState_fixed:
  "shownState ''upload'' = ''upload''" "shownState ''dashboard'' = ''dashboard''"
  "shownState ''results'' = ''results''" "shownState ''loading'' = ''loading''"
  "shownState ''error'' = ''error''"
  by (simp_all add: shownState_def)

lemma named_states:
  "''upload'' \<in> set (map fst containers)" "''dashboard'' \<in> set (map fst containers)"
  "''results'' \<in> set (map fst containers)" "''loading'' \<in> set (map fst containers)"
  "''error'' \<in> set (map fst containers)"
  by (simp_all add: containers_def)

lemma shownState_named: "s \<in> set (map fst containers) \<Longrightarrow> shownState s \<in> set (map fst containers)"
  using named_states(2) by (simp add: shownState_def)



lemma view_names:
  "''upload'' @ ''-container'' = ''upload-container''"
  "''dashboard'' @ ''-container'' = ''dashboard-container''"
  "''results'' @ ''-container'' = ''results-container''"
  "''loading'' @ ''-container'' = ''loading-container''"
  "''error'' @ ''-container'' = ''error-container''"
  by simp_all




lemma resetTabs_storage: "localStorage (resetTabs w) = localStorage w"
  by (simp add: resetTabs_def)

lemma highlightResults_storage: "localStorage (highlightResults a w) = localStorage w"
  by (simp add: highlightResults_def applyHighlights_def Let_def split: option.splits list.splits)


lemma showState_storage:
  "localStorage (showState s w) = trySetItem ''chimeraPage'' (shownState s) (localStorage w)"
  by (simp add: showState_def Let_def)

lemma showState_app: "app (showState s w) = app w"
  by (simp add: showState_def Let_def)

lemma buildResults_storage: "localStorage (buildResults a w) = persistAnalysisId a (localStorage w)"
  by (simp add: buildResults_def)

lemma renderResults_storage:
  "localStorage (renderResults a w)
   = trySetItem ''chimeraPage'' ''results'' (persistAnalysisId a (localStorage w))"
  by (simp add: renderResults_def resetTabs_storage showState_storage shownState_fixed
      highlightResults_storage buildResults_storage)










subsection \<open>Claim C5\<close>





section \<open>The full re-render\<close>

subsection \<open>Changes of a set of ids\<close>

lemma addRemoveI: "(\<And>h. f h = (h - R) \<union> I) \<Longrightarrow> addRemove f"
  unfolding addRemove_def by (rule exI [of _ R], rule exI [of _ I]) simp

lemma addRemoveE:
  assumes "addRemove f"
  obtains R I where "\<forall>h. f h = (h - R) \<union> I"
proof -
  from assms obtain R where "\<exists>I. \<forall>h. f h = (h - R) \<union> I" unfolding addRemove_def ..
  then obtain I where "\<forall>h. f h = (h - R) \<union> I" ..
  then show thesis by (rule that)
qed

lemma addRemove_id: "addRemove (\<lambda>h. h)"
  by (rule addRemoveI [of _ "{}" "{}"]) simp

lemma addRemove_insert:
  assumes "addRemove f"
  shows "addRemove (\<lambda>h. insert x (f h))"
proof -
  obtain R I where f: "\<forall>h. f h = (h - R) \<union> I" by (rule addRemoveE [OF assms])
  show ?thesis by (rule addRemoveI [of _ R "insert x I"]) (simp add: f)
qed

lemma addRemove_minus:
  assumes "addRemove f"
  shows "addRemove (\<lambda>h. f h - A)"
proof -
  obtain R I where f: "\<forall>h. f h = (h - R) \<union> I" by (rule addRemoveE [OF assms])
  show ?thesis by (rule addRemoveI [of _ "R \<union> A" "I - A"]) (auto simp: f)
qed

lemma addRemove_union:
  assumes "addRemove f"
  shows "addRemove (\<lambda>h. f h \<union> A)"
proof -
  obtain R I where f: "\<forall>h. f h = (h - R) \<union> I" by (rule addRemoveE [OF assms])
  show ?thesis by (rule addRemoveI [of _ R "I \<union> A"]) (auto simp: f)
qed

lemma addRemove_if: "addRemove f \<Longrightarrow> addRemove g \<Longrightarrow> addRemove (\<lambda>h. if c then f h else g h)"
  by (cases c) simp_all

lemma addRemove_case_option:
  "addRemove f \<Longrightarrow> (\<And>x. addRemove (g x)) \<Longrightarrow> addRemove (\<lambda>h. case m of None \<Rightarrow> f h | Some x \<Rightarrow> g x h)"
  by (cases m) simp_all

lemma addRemove_comp:
  assumes "addRemove f" and "addRemove g"
  shows "addRemove (\<lambda>h. f (g h))"
proof -
  obtain R I where f: "\<forall>h. f h = (h - R) \<union> I" by (rule addRemoveE [OF assms(1)])
  obtain R' I' where g: "\<forall>h. g h = (h - R') \<union> I'" by (rule addRemoveE [OF assms(2)])
  show ?thesis by (rule addRemoveI [of _ "R' \<union> R" "(I' - R) \<union> I"]) (auto simp: f g)
qed

lemma addRemove_idem:
  assumes "addRemove f"
  shows "f (f h) = f h"
proof -
  obtain R I where f: "\<forall>h. f h = (h - R) \<union> I" by (rule addRemoveE [OF assms])
  show ?thesis by (auto simp: f)
qed


lemma hiddenAfter_addRemove: "addRemove (hiddenAfter st pr)"
proof -
  have "addRemove (\<lambda>h. hiddenAfter st pr h)"
    unfolding hiddenAfter_def Let_def
    by (intro addRemove_if addRemove_insert addRemove_minus addRemove_case_option addRemove_union
        addRemove_id)
  then show ?thesis .
qed

subsection \<open>The page after each step of renderResults\<close>

lemma resetTabs_fields:
  "present (dom (resetTabs w)) = present (dom w)"
  "hiddenIds (dom (resetTabs w)) = (if {''panel-analysis'', ''panel-timeline'', ''tab-analysis'', ''tab-timeline''} \<subseteq> present (dom w) then insert ''panel-timeline'' (hiddenIds (dom w) - {''panel-analysis''}) else hiddenIds (dom w))"
  "activeTabs (dom (resetTabs w)) = (if {''panel-analysis'', ''panel-timeline'', ''tab-analysis'', ''tab-timeline''} \<subseteq> present (dom w) then insert ''tab-analysis'' (activeTabs (dom w) - {''tab-timeline''}) else activeTabs (dom w))"
  "notifications (dom (resetTabs w)) = notifications (dom w)"
  "searchValue (dom (resetTabs w)) = searchValue (dom w)"
  "sortValue (dom (resetTabs w)) = sortValue (dom w)"
  "analysesList (dom (resetTabs w)) = analysesList (dom w)"
  "errorMessage (dom (resetTabs w)) = errorMessage (dom w)"
  "assessmentText (dom (resetTabs w)) = assessmentText (dom w)"
  "keyInfoList (dom (resetTabs w)) = keyInfoList (dom w)"
  "actionsList (dom (resetTabs w)) = actionsList (dom w)"
  "docViewerFilename (dom (resetTabs w)) = docViewerFilename (dom w)"
  "exactToggle (dom (resetTabs w)) = exactToggle (dom w)"
  "exactLoaded (dom (resetTabs w)) = exactLoaded (dom w)"
  "viewerPages (dom (resetTabs w)) = viewerPages (dom w)"
  "scrollTarget (dom (resetTabs w)) = scrollTarget (dom w)"
  "conversationLog (dom (resetTabs w)) = conversationLog (dom w)"
  "popupLog (dom (resetTabs w)) = popupLog (dom w)"
  by (simp_all add: resetTabs_def)

lemma showState_fields:
  "present (dom (showState s w)) = present (dom w)"
  "hiddenIds (dom (showState s w)) = hiddenAfter (shownState s) (present (dom w)) (hiddenIds (dom w))"
  "activeTabs (dom (showState s w)) = activeTabs (dom w)"
  "notifications (dom (showState s w)) = notifications (dom w)"
  "searchValue (dom (showState s w)) = searchValue (dom w)"
  "sortValue (dom (showState s w)) = sortValue (dom w)"
  "analysesList (dom (showState s w)) = analysesList (dom w)"
  "errorMessage (dom (showState s w)) = errorMessage (dom w)"
  "assessmentText (dom (showState s w)) = assessmentText (dom w)"
  "keyInfoList (dom (showState s w)) = keyInfoList (dom w)"
  "actionsList (dom (showState s w)) = actionsList (dom w)"
  "docViewerFilename (dom (showState s w)) = docViewerFilename (dom w)"
  "exactToggle (dom (showState s w)) = exactToggle (dom w)"
  "exactLoaded (dom (showState s w)) = exactLoaded (dom w)"
  "viewerPages (dom (showState s w)) = viewerPages (dom w)"
  "scrollTarget (dom (showState s w)) = scrollTarget (dom w)"
  "conversationLog (dom (showState s w)) = conversationLog (dom w)"
  "popupLog (dom (showState s w)) = popupLog (dom w)"
  by (simp_all add: showState_def Let_def)

lemma buildResults_fields:
  "present (dom (buildResults a w)) = present (dom w)"
  "hiddenIds (dom (buildResults a w)) = (if showExactToggle a then insert ''exact-pdf-container'' (hiddenIds (dom w) - {''extracted-container''}) else hiddenIds (dom w) - {''exact-pdf-container'', ''extracted-container''})"
  "activeTabs (dom (buildResults a w)) = activeTabs (dom w)"
  "notifications (dom (buildResults a w)) = notifications (dom w)"
  "searchValue (dom (buildResults a w)) = searchValue (dom w)"
  "sortValue (dom (buildResults a w)) = sortValue (dom w)"
  "analysesList (dom (buildResults a w)) = analysesList (dom w)"
  "errorMessage (dom (buildResults a w)) = errorMessage (dom w)"
  "assessmentText (dom (buildResults a w)) = orEmpty (assessment a)"
  "keyInfoList (dom (buildResults a w)) = (case key_info a of None \<Rightarrow> [] | Some xs \<Rightarrow> keyRows xs)"
  "actionsList (dom (buildResults a w)) = (case identified_actions a of None \<Rightarrow> [] | Some xs \<Rightarrow> actionRows xs)"
  "docViewerFilename (dom (buildResults a w)) = displayName a (app w)"
  "exactToggle (dom (buildResults a w)) = (if showExactToggle a then Some False else None)"
  "exactLoaded (dom (buildResults a w)) = False"
  "viewerPages (dom (buildResults a w)) = extractedPages a"
  "scrollTarget (dom (buildResults a w)) = scrollTarget (dom w)"
  "conversationLog (dom (buildResults a w)) = conversationLog (dom w)"
  "popupLog (dom (buildResults a w)) = popupLog (dom w)"
  by (simp_all add: buildResults_def)

lemma buildResults_unpressed: "exactToggle (dom (buildResults a w)) \<noteq> Some True"
  by (simp add: buildResults_fields)

lemma applyHighlights_unpressed:
  assumes "exactToggle (dom w) \<noteq> Some True"
  shows "applyHighlights ms w
         = w\<lparr>dom := (dom w)\<lparr>
             viewerPages := fst (foldl highlightGroup (map clearPage (viewerPages (dom w)), None) (byPage ms)),
             scrollTarget := (case snd (foldl highlightGroup (map clearPage (viewerPages (dom w)), None) (byPage ms)) of
                                None \<Rightarrow> scrollTarget (dom w) | Some i \<Rightarrow> Some i)\<rparr>\<rparr>"
  using assms by (simp add: applyHighlights_def Let_def)

lemma highlightResults_fields:
  assumes "exactToggle (dom w) \<noteq> Some True"
  shows "present (dom (highlightResults a w)) = present (dom w)"
    and "hiddenIds (dom (highlightResults a w)) = hiddenIds (dom w)"
    and "activeTabs (dom (highlightResults a w)) = activeTabs (dom w)"
    and "notifications (dom (highlightResults a w)) = notifications (dom w)"
    and "searchValue (dom (highlightResults a w)) = searchValue (dom w)"
    and "sortValue (dom (highlightResults a w)) = sortValue (dom w)"
    and "analysesList (dom (highlightResults a w)) = analysesList (dom w)"
    and "errorMessage (dom (highlightResults a w)) = errorMessage (dom w)"
    and "assessmentText (dom (highlightResults a w)) = assessmentText (dom w)"
    and "keyInfoList (dom (highlightResults a w)) = keyInfoList (dom w)"
    and "actionsList (dom (highlightResults a w)) = actionsList (dom w)"
    and "docViewerFilename (dom (highlightResults a w)) = docViewerFilename (dom w)"
    and "exactToggle (dom (highlightResults a w)) = exactToggle (dom w)"
    and "exactLoaded (dom (highlightResults a w)) = exactLoaded (dom w)"
    and "viewerPages (dom (highlightResults a w)) = (case risk_highlights a of Some (m # ms) \<Rightarrow> fst (foldl highlightGroup (map clearPage (viewerPages (dom w)), None) (byPage (m # ms))) | _ \<Rightarrow> viewerPages (dom w))"
    and "scrollTarget (dom (highlightResults a w)) = (case risk_highlights a of Some (m # ms) \<Rightarrow> (case snd (foldl highlightGroup (map clearPage (viewerPages (dom w)), None) (byPage (m # ms))) of None \<Rightarrow> scrollTarget (dom w) | Some i \<Rightarrow> Some i) | _ \<Rightarrow> scrollTarget (dom w))"
    and "conversationLog (dom (highlightResults a w)) = conversationLog (dom w)"
    and "popupLog (dom (highlightResults a w)) = popupLog (dom w)"
  using assms by (simp_all add: highlightResults_def applyHighlights_unpressed split: option.splits list.splits)

lemma stage_app:
  "app (resetTabs w) = app w"
  "app (showState s w) = app w"
  "app (highlightResults a w) = app w"
  "app (buildResults a w) = (app w)\<lparr>currentAnalysis := a, conversationHistory := []\<rparr>"
  by (simp_all add: resetTabs_def showState_def Let_def highlightResults_def applyHighlights_def
      buildResults_def split: option.splits list.splits)

subsection \<open>The page after renderResults\<close>

lemma renderResults_app:
  "app (renderResults a w) = (app w)\<lparr>currentAnalysis := a, conversationHistory := []\<rparr>"
  by (simp add: renderResults_def stage_app)

lemmas stage_fields =
  resetTabs_fields showState_fields highlightResults_fields [OF buildResults_unpressed]
  buildResults_fields

lemma renderResults_unchanged:
  "present (dom (renderResults a w)) = present (dom w)"
  "notifications (dom (renderResults a w)) = notifications (dom w)"
  "searchValue (dom (renderResults a w)) = searchValue (dom w)"
  "sortValue (dom (renderResults a w)) = sortValue (dom w)"
  "analysesList (dom (renderResults a w)) = analysesList (dom w)"
  "errorMessage (dom (renderResults a w)) = errorMessage (dom w)"
  "conversationLog (dom (renderResults a w)) = conversationLog (dom w)"
  "popupLog (dom (renderResults a w)) = popupLog (dom w)"
  by (simp_all add: renderResults_def stage_fields)

lemma renderResults_rebuilt:
  "assessmentText (dom (renderResults a w)) = assessmentText (dom (renderResults a w'))"
  "keyInfoList (dom (renderResults a w)) = keyInfoList (dom (renderResults a w'))"
  "actionsList (dom (renderResults a w)) = actionsList (dom (renderResults a w'))"
  "exactToggle (dom (renderResults a w)) = exactToggle (dom (renderResults a w'))"
  "exactLoaded (dom (renderResults a w)) = exactLoaded (dom (renderResults a w'))"
  "viewerPages (dom (renderResults a w)) = viewerPages (dom (renderResults a w'))"
  by (simp_all add: renderResults_def stage_fields split: option.splits list.splits)

lemma displayName_app: "selectedFile ap' = selectedFile ap \<Longrightarrow> displayName a ap' = displayName a ap"
  by (simp add: displayName_def)

lemma renderResults_filename:
  "docViewerFilename (dom (renderResults a w)) = displayName a (app w)"
  by (simp add: renderResults_def stage_fields)

lemma renderResults_hidden:
  "\<exists>f. addRemove f \<and> (\<forall>w. present (dom w) = pr \<longrightarrow> hiddenIds (dom (renderResults a w)) = f (hiddenIds (dom w)))"
proof -
  define vh where "vh = (\<lambda>h. if showExactToggle a
                               then insert ''exact-pdf-container'' (h - {''extracted-container''})
                               else h - {''exact-pdf-container'', ''extracted-container''})"
  define ha where "ha = (\<lambda>h. hiddenAfter ''results'' pr (vh h))"
  define f where "f = (\<lambda>h. if {''panel-analysis'', ''panel-timeline'', ''tab-analysis'', ''tab-timeline''} \<subseteq> pr
                            then insert ''panel-timeline'' (ha h - {''panel-analysis''}) else ha h)"
  have 1: "addRemove vh"
    unfolding vh_def by (intro addRemove_if addRemove_insert addRemove_minus addRemove_id)
  have 2: "addRemove ha"
    unfolding ha_def by (rule addRemove_comp [OF hiddenAfter_addRemove 1])
  have 3: "addRemove f"
    unfolding f_def by (intro addRemove_if addRemove_insert addRemove_minus 2)
  have "hiddenIds (dom (renderResults a w)) = f (hiddenIds (dom w))" if "present (dom w) = pr" for w
    using that by (simp add: renderResults_def stage_fields shownState_fixed f_def ha_def vh_def)
  then show ?thesis using 3 by blast
qed

lemma renderResults_tabs:
  "\<exists>f. addRemove f \<and> (\<forall>w. present (dom w) = pr \<longrightarrow> activeTabs (dom (renderResults a w)) = f (activeTabs (dom w)))"
proof -
  define f where "f = (\<lambda>h. if {''panel-analysis'', ''panel-timeline'', ''tab-analysis'', ''tab-timeline''} \<subseteq> pr
                            then insert ''tab-analysis'' (h - {''tab-timeline''}) else h)"
  have 3: "addRemove f"
    unfolding f_def by (intro addRemove_if addRemove_insert addRemove_minus addRemove_id)
  have "activeTabs (dom (renderResults a w)) = f (activeTabs (dom w))" if "present (dom w) = pr" for w
    using that by (simp add: renderResults_def stage_fields f_def)
  then show ?thesis using 3 by blast
qed

lemma renderResults_scroll:
  "\<exists>g. (\<forall>x. g (g x) = g x) \<and> (\<forall>w. scrollTarget (dom (renderResults a w)) = g (scrollTarget (dom w)))"
proof -
  define g where "g = (\<lambda>x. case risk_highlights a of
       Some (m # ms) \<Rightarrow> (case snd (foldl highlightGroup (map clearPage (extractedPages a), None) (byPage (m # ms))) of
                           None \<Rightarrow> x | Some i \<Rightarrow> Some i)
     | _ \<Rightarrow> x)"
  have 1: "g (g x) = g x" for x
    unfolding g_def by (simp split: option.splits list.splits)
  have "scrollTarget (dom (renderResults a w)) = g (scrollTarget (dom w))" for w
    by (simp add: renderResults_def stage_fields g_def split: option.splits list.splits)
  then show ?thesis using 1 by blast
qed

lemma persist_idem:
  "trySetItem ''chimeraPage'' ''results'' (persistAnalysisId a
     (trySetItem ''chimeraPage'' ''results'' (persistAnalysisId a st)))
   = trySetItem ''chimeraPage'' ''results'' (persistAnalysisId a st)"
proof -
  have ne: "''chimeraPage'' \<noteq> ''chimeraAnalysisId''" by simp
  have tw: "m(''chimeraPage'' \<mapsto> x, ''chimeraAnalysisId'' \<mapsto> y, ''chimeraPage'' \<mapsto> x)
            = m(''chimeraAnalysisId'' \<mapsto> y, ''chimeraPage'' \<mapsto> x)" for m :: "string \<rightharpoonup> string" and x y
    using ne by (auto simp: fun_eq_iff)
  show ?thesis
    by (cases "an_id a") (simp_all add: persistAnalysisId_def trySetItem_def tw)
qed

subsection \<open>Claim C8\<close>

text \<open>
  Claim C8. For every analysis \<open>a\<close>, \<open>renderResults\<close> called twice in succession with
  \<open>a\<close> leaves the page (the assessment text, the key-info list, the action list, the
  content of the document viewer, the tab selection and the toggle), and with it the app
  state and local storage, as one call leaves them: the full re-render is idempotent.
\<close>

theorem renderResults_idempotent: "renderResults a (renderResults a w) = renderResults a w"
proof -
  define w' where "w' = renderResults a w"
  have pr: "present (dom w') = present (dom w)" by (simp add: w'_def renderResults_unchanged)
  have ap: "app (renderResults a w') = app w'" by (simp add: w'_def renderResults_app)
  have ls: "localStorage (renderResults a w') = localStorage w'"
    by (simp add: w'_def renderResults_storage persist_idem)
  obtain fh where fh: "addRemove fh"
    "\<forall>v. present (dom v) = present (dom w) \<longrightarrow> hiddenIds (dom (renderResults a v)) = fh (hiddenIds (dom v))"
    using renderResults_hidden [of "present (dom w)" a] by blast
  obtain ft where ft: "addRemove ft"
    "\<forall>v. present (dom v) = present (dom w) \<longrightarrow> activeTabs (dom (renderResults a v)) = ft (activeTabs (dom v))"
    using renderResults_tabs [of "present (dom w)" a] by blast
  obtain g where g: "\<forall>x. g (g x) = g x"
    "\<forall>v. scrollTarget (dom (renderResults a v)) = g (scrollTarget (dom v))"
    using renderResults_scroll [of a] by blast
  have hid: "hiddenIds (dom (renderResults a w')) = hiddenIds (dom w')"
  proof -
    have "hiddenIds (dom (renderResults a w')) = fh (hiddenIds (dom w'))" using fh(2) pr by blast
    also have "hiddenIds (dom w') = fh (hiddenIds (dom w))" unfolding w'_def using fh(2) by blast
    finally show ?thesis using addRemove_idem [OF fh(1)] \<open>hiddenIds (dom w') = fh (hiddenIds (dom w))\<close> by simp
  qed
  have tabs: "activeTabs (dom (renderResults a w')) = activeTabs (dom w')"
  proof -
    have 1: "activeTabs (dom (renderResults a w')) = ft (activeTabs (dom w'))" using ft(2) pr by blast
    have 2: "activeTabs (dom w') = ft (activeTabs (dom w))" unfolding w'_def using ft(2) by blast
    show ?thesis unfolding 1 unfolding 2 by (rule addRemove_idem [OF ft(1)])
  qed
  have scr: "scrollTarget (dom (renderResults a w')) = scrollTarget (dom w')"
  proof -
    have 1: "scrollTarget (dom (renderResults a w')) = g (scrollTarget (dom w'))" using g(2) by blast
    have 2: "scrollTarget (dom w') = g (scrollTarget (dom w))" unfolding w'_def using g(2) by blast
    show ?thesis unfolding 1 unfolding 2 using g(1) by blast
  qed
  have fn: "docViewerFilename (dom (renderResults a w')) = docViewerFilename (dom w')"
    unfolding renderResults_filename w'_def
    by (rule displayName_app) (simp add: renderResults_app)
  have d: "dom (renderResults a w') = dom w'"
  proof (rule page.equality)
    show "hiddenIds (dom (renderResults a w')) = hiddenIds (dom w')" by (rule hid)
    show "activeTabs (dom (renderResults a w')) = activeTabs (dom w')" by (rule tabs)
    show "scrollTarget (dom (renderResults a w')) = scrollTarget (dom w')" by (rule scr)
    show "docViewerFilename (dom (renderResults a w')) = docViewerFilename (dom w')" by (rule fn)
  qed (simp_all add: renderResults_unchanged, (simp only: w'_def, rule renderResults_rebuilt)+)
  have "renderResults a w' = w'"
    by (rule world.equality) (simp_all add: ap ls d)
  then show ?thesis unfolding w'_def .
qed


theorem renderResults_idempotent_witness:
  "assessmentText (dom (renderResults exampleAnalysis (renderResults exampleAnalysis exampleWorld)))
     = ''Mostly standard.''
   \<and> activeTabs (dom (renderResults exampleAnalysis (renderResults exampleAnalysis exampleWorld)))
     = {''tab-analysis''}
   \<and> currentAnalysis (app (renderResults exampleAnalysis (renderResults exampleAnalysis exampleWorld)))
     = exampleAnalysis"
proof -
  have 1: "assessmentText (dom (renderResults exampleAnalysis exampleWorld)) = ''Mostly standard.''"
    by (simp add: renderResults_def stage_fields exampleAnalysis_def orEmpty_def)
  have 2: "activeTabs (dom (renderResults exampleAnalysis exampleWorld)) = {''tab-analysis''}"
    by (simp add: renderResults_def stage_fields exampleWorld_def examplePage_def)
  have 3: "currentAnalysis (app (renderResults exampleAnalysis exampleWorld)) = exampleAnalysis"
    by (simp add: renderResults_app)
  from renderResults_idempotent [of exampleAnalysis exampleWorld] 1 2 3 show ?thesis by simp
qed



end

